(* ===== verification/Prelude.thy ===== *)
theory Prelude
  imports Main
    "HOL-Library.Word"
    "HOL-Library.Signed_Division"
    "HOL-Library.State_Monad"
    "HOL-Library.Monad_Syntax"
    "HOL-Library.Char_ord"
    "HOL-Library.List_Lexorder"
begin

unbundle bit_operations_syntax

section \<open>Prelude: types, state passing and automation shared by every component\<close>

text \<open>
  The names of the C and C++ types of the sources, the reading of a C string, the state monad in
  which the member functions are written, the exceptions they can leave by, and the collections of
  facts that the component theories feed and use:
  \<^item> \<open>run_simps\<close>: how each step of the state monad changes the state;
  \<^item> \<open>frame_simps\<close>: the fields of the state that an operation leaves alone;
  \<^item> \<open>inv_intros\<close>: preservation of the invariants, one rule per operation.
\<close>

named_theorems run_simps
named_theorems frame_simps
named_theorems inv_intros

subsection \<open>Machine types\<close>

type_synonym u8 = "8 word"
type_synonym u16 = "16 word"
type_synonym u32 = "32 word"
type_synonym u64 = "64 word"
type_synonym i32 = "32 word"
type_synonym i64 = "64 word"
type_synonym size_type = "64 word"

text \<open>A pointer that the code only tests against \<open>NULL\<close> and otherwise passes on.\<close>

type_synonym 'a pointer = "'a option"

abbreviation NULL :: "'a pointer" where
  "NULL \<equiv> None"

text \<open>
  C's integer division on signed operands truncates towards zero: \<open>sdiv\<close> of the library on the
  signed readings.
\<close>

definition i32_div :: "i32 \<Rightarrow> i32 \<Rightarrow> i32" where
  "i32_div a b = word_of_int (sint a sdiv sint b)"

lemma i32_div_nonneg:
  assumes "0 \<le> sint a" "0 < sint b"
  shows "sint (i32_div a b) = sint a div sint b"
proof -
  have "sint a sdiv sint b = sint a div sint b"
    using assms by (simp add: signed_divide_int_def sgn_if)
  moreover have "sint a div sint b \<le> sint a"
    using assms div_le_dividend [of "nat (sint a)" "nat (sint b)"]
    by (simp add: nat_div_distrib [symmetric])
  moreover have "sint a < 2 ^ 31" using sint_lt [of a] by simp
  moreover have "0 \<le> sint a div sint b"
    using assms by (simp add: pos_imp_zdiv_nonneg_iff)
  ultimately show ?thesis
    by (simp add: i32_div_def sint_sbintrunc' signed_take_bit_int_eq_self)
qed

subsection \<open>C strings\<close>

text \<open>
  A \<open>std::string\<close> is a list of characters of any value. \<open>s.c_str()\<close> read as a C string stops at
  the first NUL character.
\<close>

definition c_str :: "string \<Rightarrow> string" where
  "c_str s = takeWhile (\<lambda>c. c \<noteq> CHR 0x00) s"

definition no_nul :: "string \<Rightarrow> bool" where
  "no_nul s \<longleftrightarrow> CHR 0x00 \<notin> set s"

lemma c_str_id [simp]: "no_nul s \<Longrightarrow> c_str s = s"
  by (auto simp: c_str_def no_nul_def takeWhile_eq_all_conv)

lemma no_nul_c_str [simp]: "no_nul (c_str s)"
  unfolding c_str_def no_nul_def by (auto dest: set_takeWhileD)

lemma c_str_idem [simp]: "c_str (c_str s) = c_str s"
  by simp

lemma no_nul_append [simp]: "no_nul (s @ t) \<longleftrightarrow> no_nul s \<and> no_nul t"
  by (auto simp: no_nul_def)

lemma no_nul_Nil [simp]: "no_nul []"
  by (simp add: no_nul_def)

lemma no_nul_Cons [simp]: "no_nul (c # s) \<longleftrightarrow> c \<noteq> CHR 0x00 \<and> no_nul s"
  by (auto simp: no_nul_def)

subsection \<open>Exceptions\<close>

text \<open>
  The ways a call can end without returning a value: the exception that \<open>getInstance\<close> throws, and
  undefined behaviour (a \<open>NULL\<close> dereference, a \<open>std::string\<close> made from \<open>NULL\<close>, a write past an
  array).
\<close>

datatype cpp_exception =
    Runtime_error string
  | Null_dereference
  | String_from_null
  | Out_of_bounds

type_synonym 'a result = "cpp_exception + 'a"

subsection \<open>The state monad\<close>

abbreviation ret :: "'a \<Rightarrow> ('s, 'a) state" where
  "ret \<equiv> State_Monad.return"

abbreviation gets :: "('s \<Rightarrow> 'a) \<Rightarrow> ('s, 'a) state" where
  "gets f \<equiv> State_Monad.bind State_Monad.get (\<lambda>s. State_Monad.return (f s))"

abbreviation modify :: "('s \<Rightarrow> 's) \<Rightarrow> ('s, unit) state" where
  "modify \<equiv> State_Monad.update"

lemma run_state_modify [simp]: "run_state (modify f) s = ((), f s)"
  by (simp add: State_Monad.update_def)

lemma run_state_if [simp]:
  "run_state (if b then m else n) s = (if b then run_state m s else run_state n s)"
  by simp

abbreviation only_if :: "bool \<Rightarrow> ('s, unit) state \<Rightarrow> ('s, unit) state" where
  "only_if b m \<equiv> (if b then m else ret ())"

text \<open>The value an operation returns from a state, and the state it leaves.\<close>

abbreviation result_of :: "('s, 'a) state \<Rightarrow> 's \<Rightarrow> 'a" where
  "result_of m s \<equiv> fst (run_state m s)"

abbreviation state_after :: "('s, 'a) state \<Rightarrow> 's \<Rightarrow> 's" where
  "state_after m s \<equiv> snd (run_state m s)"

text \<open>Sequencing calls that can fail: a failure ends the sequence.\<close>

definition on_ok :: "('s, 'a result) state \<Rightarrow> ('a \<Rightarrow> ('s, 'b result) state) \<Rightarrow> ('s, 'b result) state" where
  "on_ok m f = do { r \<leftarrow> m; case r of Inl e \<Rightarrow> ret (Inl e) | Inr x \<Rightarrow> f x }"

lemma run_on_ok [simp, run_simps]:
  "run_state (on_ok m f) s =
    (case run_state m s of (Inl e, t) \<Rightarrow> (Inl e, t) | (Inr x, t) \<Rightarrow> run_state (f x) t)"
  by (simp add: on_ok_def split: prod.splits sum.splits)

text \<open>A range-based \<open>for\<close> loop whose body returns nothing.\<close>

primrec for_each :: "'a list \<Rightarrow> ('a \<Rightarrow> ('s, unit) state) \<Rightarrow> ('s, unit) state" where
  "for_each [] f = ret ()"
| "for_each (x # xs) f = do { f x; for_each xs f }"

lemma for_each_append: "for_each (xs @ ys) f = do { for_each xs f; for_each ys f }"
  by (induction xs) simp_all

lemma for_each_invariant:
  assumes "\<And>x s. x \<in> set xs \<Longrightarrow> P s \<Longrightarrow> P (state_after (f x) s)" and "P s"
  shows "P (state_after (for_each xs f) s)"
  using assms
proof (induction xs arbitrary: s)
  case Nil
  then show ?case by simp
next
  case (Cons x xs)
  have "P (state_after (f x) s)" using Cons.prems by simp
  then have "P (state_after (for_each xs f) (state_after (f x) s))"
    by (intro Cons.IH) (use Cons.prems in auto)
  then show ?case by (simp add: case_prod_beta)
qed

text \<open>A fact that no step changes is the same before and after an operation.\<close>

lemma for_each_frame:
  assumes "\<And>x s. g (state_after (f x) s) = g s"
  shows "g (state_after (for_each xs f) s) = g s"
  using for_each_invariant [where P = "\<lambda>t. g t = g s"] assms by metis

subsection \<open>Lists\<close>

lemma filter_id_iff: "filter P xs = xs \<longleftrightarrow> (\<forall>x\<in>set xs. P x)"
  by (metis filter_True filter_id_conv)

lemma distinct_map_filter: "distinct (map f xs) \<Longrightarrow> distinct (map f (filter P xs))"
  by (induction xs) auto

lemma distinct_map_inj_on_set:
  "distinct (map f xs) \<Longrightarrow> x \<in> set xs \<Longrightarrow> y \<in> set xs \<Longrightarrow> f x = f y \<Longrightarrow> x = y"
  by (auto simp: distinct_map inj_on_def)

end
