(* ===== verification/Amqp_Types.thy ===== *)
theory Amqp_Types
  imports Prelude
begin

section \<open>The data of the AMQP client library (include/amqp.h)\<close>

text \<open>
  The constants, enumerations and structures that \<open>include/amqp.h\<close> declares: buffers, field tables
  and their tagged values, replies, frames and status codes. The functions the header declares
  belong to the rabbitmq-c library; they are parameters of the model (theory \<open>Client_State\<close>).
  A \<open>float\<close> and a \<open>double\<close> are kept as their bit patterns, a \<open>void *\<close> that the client never
  follows as its 64-bit address.
\<close>

subsection \<open>Version and defaults\<close>

definition AMQP_VERSION_MAJOR :: u32 where "AMQP_VERSION_MAJOR = 0"
definition AMQP_VERSION_MINOR :: u32 where "AMQP_VERSION_MINOR = 8"
definition AMQP_VERSION_PATCH :: u32 where "AMQP_VERSION_PATCH = 0"
definition AMQP_VERSION_IS_RELEASE :: u32 where "AMQP_VERSION_IS_RELEASE = 1"

definition AMQP_VERSION_CODE :: "u32 \<Rightarrow> u32 \<Rightarrow> u32 \<Rightarrow> u32 \<Rightarrow> u32" where
  "AMQP_VERSION_CODE major minor patch release =
     (push_bit 24 major OR push_bit 16 minor OR push_bit 8 patch OR release)"

definition AMQP_VERSION :: u32 where
  "AMQP_VERSION = AMQP_VERSION_CODE AMQP_VERSION_MAJOR AMQP_VERSION_MINOR AMQP_VERSION_PATCH
     AMQP_VERSION_IS_RELEASE"

definition AMQP_DEFAULT_FRAME_SIZE :: i32 where "AMQP_DEFAULT_FRAME_SIZE = 131072"
definition AMQP_DEFAULT_MAX_CHANNELS :: i32 where "AMQP_DEFAULT_MAX_CHANNELS = 0"
definition AMQP_DEFAULT_HEARTBEAT :: i32 where "AMQP_DEFAULT_HEARTBEAT = 0"

subsection \<open>Scalars\<close>

type_synonym amqp_boolean_t = i32
type_synonym amqp_method_number_t = u32
type_synonym amqp_flags_t = u32
type_synonym amqp_channel_t = u16

subsection \<open>Buffers\<close>

text \<open>
  A buffer descriptor is a length and a pointer. The pointer is \<open>NULL\<close> or leads to memory, of which
  the model holds the characters it knows.
\<close>

record amqp_bytes_t =
  len :: size_type
  bytes :: "string pointer"

text \<open>The descriptor covers exactly the characters it points to.\<close>

definition wf_bytes :: "amqp_bytes_t \<Rightarrow> bool" where
  "wf_bytes b \<longleftrightarrow> (case bytes b of None \<Rightarrow> len b = 0 | Some s \<Rightarrow> unat (len b) = length s)"

record amqp_decimal_t =
  decimals :: u8
  decimal_value :: u32

subsection \<open>Field tables\<close>

text \<open>
  Arrays and tables hold field values, and field values hold arrays and tables; the containers are
  declared first, over any type of values.
\<close>

datatype 'v amqp_array = Amqp_array (array_num_entries: i32) (array_entries: "'v list")

datatype 'v amqp_table_entry = Table_entry (key: amqp_bytes_t) (entry_value: 'v)

datatype 'v amqp_table = Amqp_table (num_entries: i32) (entries: "'v amqp_table_entry list")

text \<open>
  The tagged union \<open>amqp_field_value_t\<close>: one constructor for each tag, holding the union member the
  header gives for the tag.
\<close>

datatype amqp_field_value_t =
    Field_boolean amqp_boolean_t
  | Field_i8 "8 word"
  | Field_u8 u8
  | Field_i16 "16 word"
  | Field_u16 u16
  | Field_i32 i32
  | Field_u32 u32
  | Field_i64 i64
  | Field_u64 u64
  | Field_f32 "32 word"
  | Field_f64 "64 word"
  | Field_decimal amqp_decimal_t
  | Field_utf8 amqp_bytes_t
  | Field_array "amqp_field_value_t amqp_array"
  | Field_timestamp u64
  | Field_table "amqp_field_value_t amqp_table"
  | Field_void
  | Field_bytes amqp_bytes_t

type_synonym amqp_array_t = "amqp_field_value_t amqp_array"
type_synonym amqp_table_entry_t = "amqp_field_value_t amqp_table_entry"
type_synonym amqp_table_t = "amqp_field_value_t amqp_table"

text \<open>The tag of a value: the enumeration \<open>amqp_field_value_kind_t\<close> and its character codes.\<close>

datatype amqp_field_value_kind_t =
    AMQP_FIELD_KIND_BOOLEAN | AMQP_FIELD_KIND_I8 | AMQP_FIELD_KIND_U8 | AMQP_FIELD_KIND_I16
  | AMQP_FIELD_KIND_U16 | AMQP_FIELD_KIND_I32 | AMQP_FIELD_KIND_U32 | AMQP_FIELD_KIND_I64
  | AMQP_FIELD_KIND_U64 | AMQP_FIELD_KIND_F32 | AMQP_FIELD_KIND_F64 | AMQP_FIELD_KIND_DECIMAL
  | AMQP_FIELD_KIND_UTF8 | AMQP_FIELD_KIND_ARRAY | AMQP_FIELD_KIND_TIMESTAMP
  | AMQP_FIELD_KIND_TABLE | AMQP_FIELD_KIND_VOID | AMQP_FIELD_KIND_BYTES

fun kind_code :: "amqp_field_value_kind_t \<Rightarrow> char" where
  "kind_code AMQP_FIELD_KIND_BOOLEAN = CHR ''t''"
| "kind_code AMQP_FIELD_KIND_I8 = CHR ''b''"
| "kind_code AMQP_FIELD_KIND_U8 = CHR ''B''"
| "kind_code AMQP_FIELD_KIND_I16 = CHR ''s''"
| "kind_code AMQP_FIELD_KIND_U16 = CHR ''u''"
| "kind_code AMQP_FIELD_KIND_I32 = CHR ''I''"
| "kind_code AMQP_FIELD_KIND_U32 = CHR ''i''"
| "kind_code AMQP_FIELD_KIND_I64 = CHR ''l''"
| "kind_code AMQP_FIELD_KIND_U64 = CHR ''L''"
| "kind_code AMQP_FIELD_KIND_F32 = CHR ''f''"
| "kind_code AMQP_FIELD_KIND_F64 = CHR ''d''"
| "kind_code AMQP_FIELD_KIND_DECIMAL = CHR ''D''"
| "kind_code AMQP_FIELD_KIND_UTF8 = CHR ''S''"
| "kind_code AMQP_FIELD_KIND_ARRAY = CHR ''A''"
| "kind_code AMQP_FIELD_KIND_TIMESTAMP = CHR ''T''"
| "kind_code AMQP_FIELD_KIND_TABLE = CHR ''F''"
| "kind_code AMQP_FIELD_KIND_VOID = CHR ''V''"
| "kind_code AMQP_FIELD_KIND_BYTES = CHR ''x''"

fun kind :: "amqp_field_value_t \<Rightarrow> amqp_field_value_kind_t" where
  "kind (Field_boolean _) = AMQP_FIELD_KIND_BOOLEAN"
| "kind (Field_i8 _) = AMQP_FIELD_KIND_I8"
| "kind (Field_u8 _) = AMQP_FIELD_KIND_U8"
| "kind (Field_i16 _) = AMQP_FIELD_KIND_I16"
| "kind (Field_u16 _) = AMQP_FIELD_KIND_U16"
| "kind (Field_i32 _) = AMQP_FIELD_KIND_I32"
| "kind (Field_u32 _) = AMQP_FIELD_KIND_U32"
| "kind (Field_i64 _) = AMQP_FIELD_KIND_I64"
| "kind (Field_u64 _) = AMQP_FIELD_KIND_U64"
| "kind (Field_f32 _) = AMQP_FIELD_KIND_F32"
| "kind (Field_f64 _) = AMQP_FIELD_KIND_F64"
| "kind (Field_decimal _) = AMQP_FIELD_KIND_DECIMAL"
| "kind (Field_utf8 _) = AMQP_FIELD_KIND_UTF8"
| "kind (Field_array _) = AMQP_FIELD_KIND_ARRAY"
| "kind (Field_timestamp _) = AMQP_FIELD_KIND_TIMESTAMP"
| "kind (Field_table _) = AMQP_FIELD_KIND_TABLE"
| "kind Field_void = AMQP_FIELD_KIND_VOID"
| "kind (Field_bytes _) = AMQP_FIELD_KIND_BYTES"

lemma kind_code_inj: "kind_code k = kind_code l \<Longrightarrow> k = l"
  by (cases k; cases l) simp_all

lemma kind_bytes_iff: "kind v = AMQP_FIELD_KIND_BYTES \<longleftrightarrow> (\<exists>b. v = Field_bytes b)"
  by (cases v) simp_all

lemma kind_i32_iff: "kind v = AMQP_FIELD_KIND_I32 \<longleftrightarrow> (\<exists>i. v = Field_i32 i)"
  by (cases v) simp_all

lemma kind_i64_iff: "kind v = AMQP_FIELD_KIND_I64 \<longleftrightarrow> (\<exists>i. v = Field_i64 i)"
  by (cases v) simp_all

subsection \<open>Memory pools\<close>

record amqp_pool_blocklist_t =
  num_blocks :: i32
  blocklist :: "u64 list"

record amqp_pool_t =
  pagesize :: size_type
  pages :: amqp_pool_blocklist_t
  large_blocks :: amqp_pool_blocklist_t
  next_page :: i32
  alloc_block :: u64
  alloc_used :: size_type

subsection \<open>Methods, frames and replies\<close>

record amqp_method_t =
  id_number :: amqp_method_number_t
  decoded :: u64

datatype amqp_frame_payload =
    Payload_method amqp_method_t
  | Payload_properties u16 u64 u64 amqp_bytes_t \<comment> \<open>class id, body size, decoded, raw\<close>
  | Payload_body_fragment amqp_bytes_t
  | Payload_protocol_header u8 u8 u8 u8 \<comment> \<open>transport high, low, version major, minor\<close>

record amqp_frame_t =
  frame_type :: u8
  frame_channel :: amqp_channel_t
  payload :: amqp_frame_payload

datatype amqp_response_type_enum =
    AMQP_RESPONSE_NONE
  | AMQP_RESPONSE_NORMAL
  | AMQP_RESPONSE_LIBRARY_EXCEPTION
  | AMQP_RESPONSE_SERVER_EXCEPTION

record amqp_rpc_reply_t =
  reply_type :: amqp_response_type_enum
  reply :: amqp_method_t
  library_error :: i32

datatype amqp_sasl_method_enum =
    AMQP_SASL_METHOD_UNDEFINED | AMQP_SASL_METHOD_PLAIN | AMQP_SASL_METHOD_EXTERNAL

fun sasl_method_value :: "amqp_sasl_method_enum \<Rightarrow> int" where
  "sasl_method_value AMQP_SASL_METHOD_UNDEFINED = -1"
| "sasl_method_value AMQP_SASL_METHOD_PLAIN = 0"
| "sasl_method_value AMQP_SASL_METHOD_EXTERNAL = 1"

text \<open>The handles the library gives out are compared with \<open>NULL\<close> and passed back, nothing else.\<close>

type_synonym amqp_connection_state_t = nat
type_synonym amqp_socket_t = nat

subsection \<open>Status codes\<close>

datatype amqp_status_enum =
    AMQP_STATUS_OK
  | AMQP_STATUS_NO_MEMORY
  | AMQP_STATUS_BAD_AMQP_DATA
  | AMQP_STATUS_UNKNOWN_CLASS
  | AMQP_STATUS_UNKNOWN_METHOD
  | AMQP_STATUS_HOSTNAME_RESOLUTION_FAILED
  | AMQP_STATUS_INCOMPATIBLE_AMQP_VERSION
  | AMQP_STATUS_CONNECTION_CLOSED
  | AMQP_STATUS_BAD_URL
  | AMQP_STATUS_SOCKET_ERROR
  | AMQP_STATUS_INVALID_PARAMETER
  | AMQP_STATUS_TABLE_TOO_BIG
  | AMQP_STATUS_WRONG_METHOD
  | AMQP_STATUS_TIMEOUT
  | AMQP_STATUS_TIMER_FAILURE
  | AMQP_STATUS_HEARTBEAT_TIMEOUT
  | AMQP_STATUS_UNEXPECTED_STATE
  | AMQP_STATUS_SOCKET_CLOSED
  | AMQP_STATUS_SOCKET_INUSE
  | AMQP_STATUS_BROKER_UNSUPPORTED_SASL_METHOD
  | AMQP_STATUS_UNSUPPORTED
  | AMQP_STATUS_NEXT_VALUE
  | AMQP_STATUS_TCP_ERROR
  | AMQP_STATUS_TCP_SOCKETLIB_INIT_ERROR
  | AMQP_STATUS_TCP_NEXT_VALUE
  | AMQP_STATUS_SSL_ERROR
  | AMQP_STATUS_SSL_HOSTNAME_VERIFY_FAILED
  | AMQP_STATUS_SSL_PEER_VERIFY_FAILED
  | AMQP_STATUS_SSL_CONNECTION_FAILED
  | AMQP_STATUS_SSL_NEXT_VALUE

fun status_value :: "amqp_status_enum \<Rightarrow> i32" where
  "status_value AMQP_STATUS_OK = 0x0"
| "status_value AMQP_STATUS_NO_MEMORY = - 0x0001"
| "status_value AMQP_STATUS_BAD_AMQP_DATA = - 0x0002"
| "status_value AMQP_STATUS_UNKNOWN_CLASS = - 0x0003"
| "status_value AMQP_STATUS_UNKNOWN_METHOD = - 0x0004"
| "status_value AMQP_STATUS_HOSTNAME_RESOLUTION_FAILED = - 0x0005"
| "status_value AMQP_STATUS_INCOMPATIBLE_AMQP_VERSION = - 0x0006"
| "status_value AMQP_STATUS_CONNECTION_CLOSED = - 0x0007"
| "status_value AMQP_STATUS_BAD_URL = - 0x0008"
| "status_value AMQP_STATUS_SOCKET_ERROR = - 0x0009"
| "status_value AMQP_STATUS_INVALID_PARAMETER = - 0x000A"
| "status_value AMQP_STATUS_TABLE_TOO_BIG = - 0x000B"
| "status_value AMQP_STATUS_WRONG_METHOD = - 0x000C"
| "status_value AMQP_STATUS_TIMEOUT = - 0x000D"
| "status_value AMQP_STATUS_TIMER_FAILURE = - 0x000E"
| "status_value AMQP_STATUS_HEARTBEAT_TIMEOUT = - 0x000F"
| "status_value AMQP_STATUS_UNEXPECTED_STATE = - 0x0010"
| "status_value AMQP_STATUS_SOCKET_CLOSED = - 0x0011"
| "status_value AMQP_STATUS_SOCKET_INUSE = - 0x0012"
| "status_value AMQP_STATUS_BROKER_UNSUPPORTED_SASL_METHOD = - 0x0013"
| "status_value AMQP_STATUS_UNSUPPORTED = - 0x0014"
| "status_value AMQP_STATUS_NEXT_VALUE = - 0x0015"
| "status_value AMQP_STATUS_TCP_ERROR = - 0x0100"
| "status_value AMQP_STATUS_TCP_SOCKETLIB_INIT_ERROR = - 0x0101"
| "status_value AMQP_STATUS_TCP_NEXT_VALUE = - 0x0102"
| "status_value AMQP_STATUS_SSL_ERROR = - 0x0200"
| "status_value AMQP_STATUS_SSL_HOSTNAME_VERIFY_FAILED = - 0x0201"
| "status_value AMQP_STATUS_SSL_PEER_VERIFY_FAILED = - 0x0202"
| "status_value AMQP_STATUS_SSL_CONNECTION_FAILED = - 0x0203"
| "status_value AMQP_STATUS_SSL_NEXT_VALUE = - 0x0204"

text \<open>No two statuses share a value, so comparing values is comparing statuses.\<close>

lemma status_value_nonzero: "status_value s = 0 \<longleftrightarrow> s = AMQP_STATUS_OK"
  by (cases s) simp_all

datatype amqp_delivery_mode_enum = AMQP_DELIVERY_NONPERSISTENT | AMQP_DELIVERY_PERSISTENT

fun delivery_mode_value :: "amqp_delivery_mode_enum \<Rightarrow> u8" where
  "delivery_mode_value AMQP_DELIVERY_NONPERSISTENT = 1"
| "delivery_mode_value AMQP_DELIVERY_PERSISTENT = 2"

end
