(* ===== verification/Amqp_Framing.thy ===== *)
theory Amqp_Framing
  imports Amqp_Types
begin

section \<open>Methods, properties and synchronous calls of AMQP 0-9-1 (include/amqp_framing.h)\<close>

text \<open>
  The protocol constants, the method structures with their numbers, the class numbers, the basic
  content properties with their flags, and the synchronous calls that the header declares. A method
  structure is a constructor of its class's datatype with the fields in the header's order (a
  \<open>dummy\<close> member, there only to keep a C structure non-empty, is left out). The lemmas show that a
  method number is its class number and an index, that no two methods share a number and that the
  property flags are pairwise different single bits.
\<close>

subsection \<open>Protocol constants\<close>

definition AMQP_PROTOCOL_VERSION :: "u8 \<times> u8 \<times> u8" where
  "AMQP_PROTOCOL_VERSION = (0, 9, 1)"

definition AMQP_PROTOCOL_PORT :: i32 where "AMQP_PROTOCOL_PORT = 5672"

datatype amqp_constant =
    AMQP_FRAME_METHOD | AMQP_FRAME_HEADER | AMQP_FRAME_BODY | AMQP_FRAME_HEARTBEAT
  | AMQP_FRAME_MIN_SIZE | AMQP_FRAME_END | AMQP_REPLY_SUCCESS | AMQP_CONTENT_TOO_LARGE
  | AMQP_NO_ROUTE | AMQP_NO_CONSUMERS | AMQP_ACCESS_REFUSED | AMQP_NOT_FOUND
  | AMQP_RESOURCE_LOCKED | AMQP_PRECONDITION_FAILED | AMQP_CONNECTION_FORCED | AMQP_INVALID_PATH
  | AMQP_FRAME_ERROR | AMQP_SYNTAX_ERROR | AMQP_COMMAND_INVALID | AMQP_CHANNEL_ERROR
  | AMQP_UNEXPECTED_FRAME | AMQP_RESOURCE_ERROR | AMQP_NOT_ALLOWED | AMQP_NOT_IMPLEMENTED
  | AMQP_INTERNAL_ERROR

fun constant_value :: "amqp_constant \<Rightarrow> i32" where
  "constant_value AMQP_FRAME_METHOD = 1"
| "constant_value AMQP_FRAME_HEADER = 2"
| "constant_value AMQP_FRAME_BODY = 3"
| "constant_value AMQP_FRAME_HEARTBEAT = 8"
| "constant_value AMQP_FRAME_MIN_SIZE = 4096"
| "constant_value AMQP_FRAME_END = 206"
| "constant_value AMQP_REPLY_SUCCESS = 200"
| "constant_value AMQP_CONTENT_TOO_LARGE = 311"
| "constant_value AMQP_NO_ROUTE = 312"
| "constant_value AMQP_NO_CONSUMERS = 313"
| "constant_value AMQP_ACCESS_REFUSED = 403"
| "constant_value AMQP_NOT_FOUND = 404"
| "constant_value AMQP_RESOURCE_LOCKED = 405"
| "constant_value AMQP_PRECONDITION_FAILED = 406"
| "constant_value AMQP_CONNECTION_FORCED = 320"
| "constant_value AMQP_INVALID_PATH = 402"
| "constant_value AMQP_FRAME_ERROR = 501"
| "constant_value AMQP_SYNTAX_ERROR = 502"
| "constant_value AMQP_COMMAND_INVALID = 503"
| "constant_value AMQP_CHANNEL_ERROR = 504"
| "constant_value AMQP_UNEXPECTED_FRAME = 505"
| "constant_value AMQP_RESOURCE_ERROR = 506"
| "constant_value AMQP_NOT_ALLOWED = 530"
| "constant_value AMQP_NOT_IMPLEMENTED = 540"
| "constant_value AMQP_INTERNAL_ERROR = 541"

subsection \<open>Method structures and their numbers, class by class\<close>

datatype connection_method =
    Connection_start u8 u8 amqp_table_t amqp_bytes_t amqp_bytes_t
      \<comment> \<open>version major, version minor, server properties, mechanisms, locales\<close>
  | Connection_start_ok amqp_table_t amqp_bytes_t amqp_bytes_t amqp_bytes_t
      \<comment> \<open>client properties, mechanism, response, locale\<close>
  | Connection_secure amqp_bytes_t
      \<comment> \<open>challenge\<close>
  | Connection_secure_ok amqp_bytes_t
      \<comment> \<open>response\<close>
  | Connection_tune u16 u32 u16
      \<comment> \<open>channel max, frame max, heartbeat\<close>
  | Connection_tune_ok u16 u32 u16
      \<comment> \<open>channel max, frame max, heartbeat\<close>
  | Connection_open amqp_bytes_t amqp_bytes_t amqp_boolean_t
      \<comment> \<open>virtual host, capabilities, insist\<close>
  | Connection_open_ok amqp_bytes_t
      \<comment> \<open>known hosts\<close>
  | Connection_close u16 amqp_bytes_t u16 u16
      \<comment> \<open>reply code, reply text, class id, method id\<close>
  | Connection_close_ok
  | Connection_blocked amqp_bytes_t
      \<comment> \<open>reason\<close>
  | Connection_unblocked

fun connection_method_id :: "connection_method \<Rightarrow> amqp_method_number_t" where
  "connection_method_id (Connection_start _ _ _ _ _) = 0x000A000A"
| "connection_method_id (Connection_start_ok _ _ _ _) = 0x000A000B"
| "connection_method_id (Connection_secure _) = 0x000A0014"
| "connection_method_id (Connection_secure_ok _) = 0x000A0015"
| "connection_method_id (Connection_tune _ _ _) = 0x000A001E"
| "connection_method_id (Connection_tune_ok _ _ _) = 0x000A001F"
| "connection_method_id (Connection_open _ _ _) = 0x000A0028"
| "connection_method_id (Connection_open_ok _) = 0x000A0029"
| "connection_method_id (Connection_close _ _ _ _) = 0x000A0032"
| "connection_method_id Connection_close_ok = 0x000A0033"
| "connection_method_id (Connection_blocked _) = 0x000A003C"
| "connection_method_id Connection_unblocked = 0x000A003D"

datatype channel_method =
    Channel_open amqp_bytes_t
      \<comment> \<open>out of band\<close>
  | Channel_open_ok amqp_bytes_t
      \<comment> \<open>channel id\<close>
  | Channel_flow amqp_boolean_t
      \<comment> \<open>active\<close>
  | Channel_flow_ok amqp_boolean_t
      \<comment> \<open>active\<close>
  | Channel_close u16 amqp_bytes_t u16 u16
      \<comment> \<open>reply code, reply text, class id, method id\<close>
  | Channel_close_ok

fun channel_method_id :: "channel_method \<Rightarrow> amqp_method_number_t" where
  "channel_method_id (Channel_open _) = 0x0014000A"
| "channel_method_id (Channel_open_ok _) = 0x0014000B"
| "channel_method_id (Channel_flow _) = 0x00140014"
| "channel_method_id (Channel_flow_ok _) = 0x00140015"
| "channel_method_id (Channel_close _ _ _ _) = 0x00140028"
| "channel_method_id Channel_close_ok = 0x00140029"

datatype access_method =
    Access_request amqp_bytes_t amqp_boolean_t amqp_boolean_t amqp_boolean_t amqp_boolean_t amqp_boolean_t
      \<comment> \<open>realm, exclusive, silent, active, write, read\<close>
  | Access_request_ok u16
      \<comment> \<open>ticket\<close>

fun access_method_id :: "access_method \<Rightarrow> amqp_method_number_t" where
  "access_method_id (Access_request _ _ _ _ _ _) = 0x001E000A"
| "access_method_id (Access_request_ok _) = 0x001E000B"

datatype exchange_method =
    Exchange_declare u16 amqp_bytes_t amqp_bytes_t amqp_boolean_t amqp_boolean_t amqp_boolean_t amqp_boolean_t amqp_boolean_t amqp_table_t
      \<comment> \<open>ticket, exchange, type, silent, durable, auto delete, internal, nowait, arguments\<close>
  | Exchange_declare_ok
  | Exchange_delete u16 amqp_bytes_t amqp_boolean_t amqp_boolean_t
      \<comment> \<open>ticket, exchange, if unused, nowait\<close>
  | Exchange_delete_ok
  | Exchange_bind u16 amqp_bytes_t amqp_bytes_t amqp_bytes_t amqp_boolean_t amqp_table_t
      \<comment> \<open>ticket, destination, source, routing key, nowait, arguments\<close>
  | Exchange_bind_ok
  | Exchange_unbind u16 amqp_bytes_t amqp_bytes_t amqp_bytes_t amqp_boolean_t amqp_table_t
      \<comment> \<open>ticket, destination, source, routing key, nowait, arguments\<close>
  | Exchange_unbind_ok

fun exchange_method_id :: "exchange_method \<Rightarrow> amqp_method_number_t" where
  "exchange_method_id (Exchange_declare _ _ _ _ _ _ _ _ _) = 0x0028000A"
| "exchange_method_id Exchange_declare_ok = 0x0028000B"
| "exchange_method_id (Exchange_delete _ _ _ _) = 0x00280014"
| "exchange_method_id Exchange_delete_ok = 0x00280015"
| "exchange_method_id (Exchange_bind _ _ _ _ _ _) = 0x0028001E"
| "exchange_method_id Exchange_bind_ok = 0x0028001F"
| "exchange_method_id (Exchange_unbind _ _ _ _ _ _) = 0x00280028"
| "exchange_method_id Exchange_unbind_ok = 0x00280033"

datatype queue_method =
    Queue_declare u16 amqp_bytes_t amqp_boolean_t amqp_boolean_t amqp_boolean_t amqp_boolean_t amqp_boolean_t amqp_table_t
      \<comment> \<open>ticket, queue, silent, durable, exclusive, auto delete, nowait, arguments\<close>
  | Queue_declare_ok amqp_bytes_t u32 u32
      \<comment> \<open>queue, message count, consumer count\<close>
  | Queue_bind u16 amqp_bytes_t amqp_bytes_t amqp_bytes_t amqp_boolean_t amqp_table_t
      \<comment> \<open>ticket, queue, exchange, routing key, nowait, arguments\<close>
  | Queue_bind_ok
  | Queue_purge u16 amqp_bytes_t amqp_boolean_t
      \<comment> \<open>ticket, queue, nowait\<close>
  | Queue_purge_ok u32
      \<comment> \<open>message count\<close>
  | Queue_delete u16 amqp_bytes_t amqp_boolean_t amqp_boolean_t amqp_boolean_t
      \<comment> \<open>ticket, queue, if unused, if empty, nowait\<close>
  | Queue_delete_ok u32
      \<comment> \<open>message count\<close>
  | Queue_unbind u16 amqp_bytes_t amqp_bytes_t amqp_bytes_t amqp_table_t
      \<comment> \<open>ticket, queue, exchange, routing key, arguments\<close>
  | Queue_unbind_ok

fun queue_method_id :: "queue_method \<Rightarrow> amqp_method_number_t" where
  "queue_method_id (Queue_declare _ _ _ _ _ _ _ _) = 0x0032000A"
| "queue_method_id (Queue_declare_ok _ _ _) = 0x0032000B"
| "queue_method_id (Queue_bind _ _ _ _ _ _) = 0x00320014"
| "queue_method_id Queue_bind_ok = 0x00320015"
| "queue_method_id (Queue_purge _ _ _) = 0x0032001E"
| "queue_method_id (Queue_purge_ok _) = 0x0032001F"
| "queue_method_id (Queue_delete _ _ _ _ _) = 0x00320028"
| "queue_method_id (Queue_delete_ok _) = 0x00320029"
| "queue_method_id (Queue_unbind _ _ _ _ _) = 0x00320032"
| "queue_method_id Queue_unbind_ok = 0x00320033"

datatype basic_method =
    Basic_qos u32 u16 amqp_boolean_t
      \<comment> \<open>prefetch size, prefetch count, global\<close>
  | Basic_qos_ok
  | Basic_consume u16 amqp_bytes_t amqp_bytes_t amqp_boolean_t amqp_boolean_t amqp_boolean_t amqp_boolean_t amqp_table_t
      \<comment> \<open>ticket, queue, consumer tag, no local, no ack, exclusive, nowait, arguments\<close>
  | Basic_consume_ok amqp_bytes_t
      \<comment> \<open>consumer tag\<close>
  | Basic_cancel amqp_bytes_t amqp_boolean_t
      \<comment> \<open>consumer tag, nowait\<close>
  | Basic_cancel_ok amqp_bytes_t
      \<comment> \<open>consumer tag\<close>
  | Basic_publish u16 amqp_bytes_t amqp_bytes_t amqp_boolean_t amqp_boolean_t
      \<comment> \<open>ticket, exchange, routing key, mandatory, immediate\<close>
  | Basic_return u16 amqp_bytes_t amqp_bytes_t amqp_bytes_t
      \<comment> \<open>reply code, reply text, exchange, routing key\<close>
  | Basic_deliver amqp_bytes_t u64 amqp_boolean_t amqp_bytes_t amqp_bytes_t
      \<comment> \<open>consumer tag, delivery tag, redelivered, exchange, routing key\<close>
  | Basic_get u16 amqp_bytes_t amqp_boolean_t
      \<comment> \<open>ticket, queue, no ack\<close>
  | Basic_get_ok u64 amqp_boolean_t amqp_bytes_t amqp_bytes_t u32
      \<comment> \<open>delivery tag, redelivered, exchange, routing key, message count\<close>
  | Basic_get_empty amqp_bytes_t
      \<comment> \<open>cluster id\<close>
  | Basic_ack u64 amqp_boolean_t
      \<comment> \<open>delivery tag, multiple\<close>
  | Basic_reject u64 amqp_boolean_t
      \<comment> \<open>delivery tag, requeue\<close>
  | Basic_recover_async amqp_boolean_t
      \<comment> \<open>requeue\<close>
  | Basic_recover amqp_boolean_t
      \<comment> \<open>requeue\<close>
  | Basic_recover_ok
  | Basic_nack u64 amqp_boolean_t amqp_boolean_t
      \<comment> \<open>delivery tag, multiple, requeue\<close>

fun basic_method_id :: "basic_method \<Rightarrow> amqp_method_number_t" where
  "basic_method_id (Basic_qos _ _ _) = 0x003C000A"
| "basic_method_id Basic_qos_ok = 0x003C000B"
| "basic_method_id (Basic_consume _ _ _ _ _ _ _ _) = 0x003C0014"
| "basic_method_id (Basic_consume_ok _) = 0x003C0015"
| "basic_method_id (Basic_cancel _ _) = 0x003C001E"
| "basic_method_id (Basic_cancel_ok _) = 0x003C001F"
| "basic_method_id (Basic_publish _ _ _ _ _) = 0x003C0028"
| "basic_method_id (Basic_return _ _ _ _) = 0x003C0032"
| "basic_method_id (Basic_deliver _ _ _ _ _) = 0x003C003C"
| "basic_method_id (Basic_get _ _ _) = 0x003C0046"
| "basic_method_id (Basic_get_ok _ _ _ _ _) = 0x003C0047"
| "basic_method_id (Basic_get_empty _) = 0x003C0048"
| "basic_method_id (Basic_ack _ _) = 0x003C0050"
| "basic_method_id (Basic_reject _ _) = 0x003C005A"
| "basic_method_id (Basic_recover_async _) = 0x003C0064"
| "basic_method_id (Basic_recover _) = 0x003C006E"
| "basic_method_id Basic_recover_ok = 0x003C006F"
| "basic_method_id (Basic_nack _ _ _) = 0x003C0078"

datatype tx_method =
    Tx_select
  | Tx_select_ok
  | Tx_commit
  | Tx_commit_ok
  | Tx_rollback
  | Tx_rollback_ok

fun tx_method_id :: "tx_method \<Rightarrow> amqp_method_number_t" where
  "tx_method_id Tx_select = 0x005A000A"
| "tx_method_id Tx_select_ok = 0x005A000B"
| "tx_method_id Tx_commit = 0x005A0014"
| "tx_method_id Tx_commit_ok = 0x005A0015"
| "tx_method_id Tx_rollback = 0x005A001E"
| "tx_method_id Tx_rollback_ok = 0x005A001F"

datatype confirm_method =
    Confirm_select amqp_boolean_t
      \<comment> \<open>nowait\<close>
  | Confirm_select_ok

fun confirm_method_id :: "confirm_method \<Rightarrow> amqp_method_number_t" where
  "confirm_method_id (Confirm_select _) = 0x0055000A"
| "confirm_method_id Confirm_select_ok = 0x0055000B"

text \<open>The names the header gives the methods.\<close>

fun connection_method_name :: "connection_method \<Rightarrow> string" where
  "connection_method_name (Connection_start _ _ _ _ _) = ''connection.start''"
| "connection_method_name (Connection_start_ok _ _ _ _) = ''connection.start-ok''"
| "connection_method_name (Connection_secure _) = ''connection.secure''"
| "connection_method_name (Connection_secure_ok _) = ''connection.secure-ok''"
| "connection_method_name (Connection_tune _ _ _) = ''connection.tune''"
| "connection_method_name (Connection_tune_ok _ _ _) = ''connection.tune-ok''"
| "connection_method_name (Connection_open _ _ _) = ''connection.open''"
| "connection_method_name (Connection_open_ok _) = ''connection.open-ok''"
| "connection_method_name (Connection_close _ _ _ _) = ''connection.close''"
| "connection_method_name Connection_close_ok = ''connection.close-ok''"
| "connection_method_name (Connection_blocked _) = ''connection.blocked''"
| "connection_method_name Connection_unblocked = ''connection.unblocked''"

fun channel_method_name :: "channel_method \<Rightarrow> string" where
  "channel_method_name (Channel_open _) = ''channel.open''"
| "channel_method_name (Channel_open_ok _) = ''channel.open-ok''"
| "channel_method_name (Channel_flow _) = ''channel.flow''"
| "channel_method_name (Channel_flow_ok _) = ''channel.flow-ok''"
| "channel_method_name (Channel_close _ _ _ _) = ''channel.close''"
| "channel_method_name Channel_close_ok = ''channel.close-ok''"

fun access_method_name :: "access_method \<Rightarrow> string" where
  "access_method_name (Access_request _ _ _ _ _ _) = ''access.request''"
| "access_method_name (Access_request_ok _) = ''access.request-ok''"

fun exchange_method_name :: "exchange_method \<Rightarrow> string" where
  "exchange_method_name (Exchange_declare _ _ _ _ _ _ _ _ _) = ''exchange.declare''"
| "exchange_method_name Exchange_declare_ok = ''exchange.declare-ok''"
| "exchange_method_name (Exchange_delete _ _ _ _) = ''exchange.delete''"
| "exchange_method_name Exchange_delete_ok = ''exchange.delete-ok''"
| "exchange_method_name (Exchange_bind _ _ _ _ _ _) = ''exchange.bind''"
| "exchange_method_name Exchange_bind_ok = ''exchange.bind-ok''"
| "exchange_method_name (Exchange_unbind _ _ _ _ _ _) = ''exchange.unbind''"
| "exchange_method_name Exchange_unbind_ok = ''exchange.unbind-ok''"

fun queue_method_name :: "queue_method \<Rightarrow> string" where
  "queue_method_name (Queue_declare _ _ _ _ _ _ _ _) = ''queue.declare''"
| "queue_method_name (Queue_declare_ok _ _ _) = ''queue.declare-ok''"
| "queue_method_name (Queue_bind _ _ _ _ _ _) = ''queue.bind''"
| "queue_method_name Queue_bind_ok = ''queue.bind-ok''"
| "queue_method_name (Queue_purge _ _ _) = ''queue.purge''"
| "queue_method_name (Queue_purge_ok _) = ''queue.purge-ok''"
| "queue_method_name (Queue_delete _ _ _ _ _) = ''queue.delete''"
| "queue_method_name (Queue_delete_ok _) = ''queue.delete-ok''"
| "queue_method_name (Queue_unbind _ _ _ _ _) = ''queue.unbind''"
| "queue_method_name Queue_unbind_ok = ''queue.unbind-ok''"

fun basic_method_name :: "basic_method \<Rightarrow> string" where
  "basic_method_name (Basic_qos _ _ _) = ''basic.qos''"
| "basic_method_name Basic_qos_ok = ''basic.qos-ok''"
| "basic_method_name (Basic_consume _ _ _ _ _ _ _ _) = ''basic.consume''"
| "basic_method_name (Basic_consume_ok _) = ''basic.consume-ok''"
| "basic_method_name (Basic_cancel _ _) = ''basic.cancel''"
| "basic_method_name (Basic_cancel_ok _) = ''basic.cancel-ok''"
| "basic_method_name (Basic_publish _ _ _ _ _) = ''basic.publish''"
| "basic_method_name (Basic_return _ _ _ _) = ''basic.return''"
| "basic_method_name (Basic_deliver _ _ _ _ _) = ''basic.deliver''"
| "basic_method_name (Basic_get _ _ _) = ''basic.get''"
| "basic_method_name (Basic_get_ok _ _ _ _ _) = ''basic.get-ok''"
| "basic_method_name (Basic_get_empty _) = ''basic.get-empty''"
| "basic_method_name (Basic_ack _ _) = ''basic.ack''"
| "basic_method_name (Basic_reject _ _) = ''basic.reject''"
| "basic_method_name (Basic_recover_async _) = ''basic.recover-async''"
| "basic_method_name (Basic_recover _) = ''basic.recover''"
| "basic_method_name Basic_recover_ok = ''basic.recover-ok''"
| "basic_method_name (Basic_nack _ _ _) = ''basic.nack''"

fun tx_method_name :: "tx_method \<Rightarrow> string" where
  "tx_method_name Tx_select = ''tx.select''"
| "tx_method_name Tx_select_ok = ''tx.select-ok''"
| "tx_method_name Tx_commit = ''tx.commit''"
| "tx_method_name Tx_commit_ok = ''tx.commit-ok''"
| "tx_method_name Tx_rollback = ''tx.rollback''"
| "tx_method_name Tx_rollback_ok = ''tx.rollback-ok''"

fun confirm_method_name :: "confirm_method \<Rightarrow> string" where
  "confirm_method_name (Confirm_select _) = ''confirm.select''"
| "confirm_method_name Confirm_select_ok = ''confirm.select-ok''"

text \<open>A decoded method of any class, as \<open>amqp_method_t\<close> carries it: the number tells the type.\<close>

datatype amqp_method =
    In_connection connection_method
  | In_channel channel_method
  | In_access access_method
  | In_exchange exchange_method
  | In_queue queue_method
  | In_basic basic_method
  | In_tx tx_method
  | In_confirm confirm_method

fun method_number :: "amqp_method \<Rightarrow> amqp_method_number_t" where
  "method_number (In_connection m) = connection_method_id m"
| "method_number (In_channel m) = channel_method_id m"
| "method_number (In_access m) = access_method_id m"
| "method_number (In_exchange m) = exchange_method_id m"
| "method_number (In_queue m) = queue_method_id m"
| "method_number (In_basic m) = basic_method_id m"
| "method_number (In_tx m) = tx_method_id m"
| "method_number (In_confirm m) = confirm_method_id m"

fun method_name :: "amqp_method \<Rightarrow> string" where
  "method_name (In_connection m) = connection_method_name m"
| "method_name (In_channel m) = channel_method_name m"
| "method_name (In_access m) = access_method_name m"
| "method_name (In_exchange m) = exchange_method_name m"
| "method_name (In_queue m) = queue_method_name m"
| "method_name (In_basic m) = basic_method_name m"
| "method_name (In_tx m) = tx_method_name m"
| "method_name (In_confirm m) = confirm_method_name m"

text \<open>The method number the client compares with.\<close>

definition AMQP_BASIC_GET_EMPTY_METHOD :: amqp_method_number_t where
  "AMQP_BASIC_GET_EMPTY_METHOD = 0x003C0048"

subsection \<open>Classes and content properties\<close>

datatype amqp_class =
    AMQP_CONNECTION_CLASS | AMQP_CHANNEL_CLASS | AMQP_ACCESS_CLASS | AMQP_EXCHANGE_CLASS
  | AMQP_QUEUE_CLASS | AMQP_BASIC_CLASS | AMQP_TX_CLASS | AMQP_CONFIRM_CLASS

fun class_number :: "amqp_class \<Rightarrow> u16" where
  "class_number AMQP_CONNECTION_CLASS = 0x000A"
| "class_number AMQP_CHANNEL_CLASS = 0x0014"
| "class_number AMQP_ACCESS_CLASS = 0x001E"
| "class_number AMQP_EXCHANGE_CLASS = 0x0028"
| "class_number AMQP_QUEUE_CLASS = 0x0032"
| "class_number AMQP_BASIC_CLASS = 0x003C"
| "class_number AMQP_TX_CLASS = 0x005A"
| "class_number AMQP_CONFIRM_CLASS = 0x0055"

fun class_name :: "amqp_class \<Rightarrow> string" where
  "class_name AMQP_CONNECTION_CLASS = ''connection''"
| "class_name AMQP_CHANNEL_CLASS = ''channel''"
| "class_name AMQP_ACCESS_CLASS = ''access''"
| "class_name AMQP_EXCHANGE_CLASS = ''exchange''"
| "class_name AMQP_QUEUE_CLASS = ''queue''"
| "class_name AMQP_BASIC_CLASS = ''basic''"
| "class_name AMQP_TX_CLASS = ''tx''"
| "class_name AMQP_CONFIRM_CLASS = ''confirm''"

fun method_class :: "amqp_method \<Rightarrow> amqp_class" where
  "method_class (In_connection _) = AMQP_CONNECTION_CLASS"
| "method_class (In_channel _) = AMQP_CHANNEL_CLASS"
| "method_class (In_access _) = AMQP_ACCESS_CLASS"
| "method_class (In_exchange _) = AMQP_EXCHANGE_CLASS"
| "method_class (In_queue _) = AMQP_QUEUE_CLASS"
| "method_class (In_basic _) = AMQP_BASIC_CLASS"
| "method_class (In_tx _) = AMQP_TX_CLASS"
| "method_class (In_confirm _) = AMQP_CONFIRM_CLASS"

definition AMQP_BASIC_CONTENT_TYPE_FLAG :: amqp_flags_t where
  "AMQP_BASIC_CONTENT_TYPE_FLAG = push_bit 15 1"
definition AMQP_BASIC_CONTENT_ENCODING_FLAG :: amqp_flags_t where
  "AMQP_BASIC_CONTENT_ENCODING_FLAG = push_bit 14 1"
definition AMQP_BASIC_HEADERS_FLAG :: amqp_flags_t where
  "AMQP_BASIC_HEADERS_FLAG = push_bit 13 1"
definition AMQP_BASIC_DELIVERY_MODE_FLAG :: amqp_flags_t where
  "AMQP_BASIC_DELIVERY_MODE_FLAG = push_bit 12 1"
definition AMQP_BASIC_PRIORITY_FLAG :: amqp_flags_t where
  "AMQP_BASIC_PRIORITY_FLAG = push_bit 11 1"
definition AMQP_BASIC_CORRELATION_ID_FLAG :: amqp_flags_t where
  "AMQP_BASIC_CORRELATION_ID_FLAG = push_bit 10 1"
definition AMQP_BASIC_REPLY_TO_FLAG :: amqp_flags_t where
  "AMQP_BASIC_REPLY_TO_FLAG = push_bit 9 1"
definition AMQP_BASIC_EXPIRATION_FLAG :: amqp_flags_t where
  "AMQP_BASIC_EXPIRATION_FLAG = push_bit 8 1"
definition AMQP_BASIC_MESSAGE_ID_FLAG :: amqp_flags_t where
  "AMQP_BASIC_MESSAGE_ID_FLAG = push_bit 7 1"
definition AMQP_BASIC_TIMESTAMP_FLAG :: amqp_flags_t where
  "AMQP_BASIC_TIMESTAMP_FLAG = push_bit 6 1"
definition AMQP_BASIC_TYPE_FLAG :: amqp_flags_t where
  "AMQP_BASIC_TYPE_FLAG = push_bit 5 1"
definition AMQP_BASIC_USER_ID_FLAG :: amqp_flags_t where
  "AMQP_BASIC_USER_ID_FLAG = push_bit 4 1"
definition AMQP_BASIC_APP_ID_FLAG :: amqp_flags_t where
  "AMQP_BASIC_APP_ID_FLAG = push_bit 3 1"
definition AMQP_BASIC_CLUSTER_ID_FLAG :: amqp_flags_t where
  "AMQP_BASIC_CLUSTER_ID_FLAG = push_bit 2 1"

lemmas basic_flag_defs =
  AMQP_BASIC_CONTENT_TYPE_FLAG_def AMQP_BASIC_CONTENT_ENCODING_FLAG_def
  AMQP_BASIC_HEADERS_FLAG_def AMQP_BASIC_DELIVERY_MODE_FLAG_def AMQP_BASIC_PRIORITY_FLAG_def
  AMQP_BASIC_CORRELATION_ID_FLAG_def AMQP_BASIC_REPLY_TO_FLAG_def AMQP_BASIC_EXPIRATION_FLAG_def
  AMQP_BASIC_MESSAGE_ID_FLAG_def AMQP_BASIC_TIMESTAMP_FLAG_def AMQP_BASIC_TYPE_FLAG_def
  AMQP_BASIC_USER_ID_FLAG_def AMQP_BASIC_APP_ID_FLAG_def AMQP_BASIC_CLUSTER_ID_FLAG_def

definition basic_flags :: "amqp_flags_t list" where
  "basic_flags =
     [AMQP_BASIC_CONTENT_TYPE_FLAG, AMQP_BASIC_CONTENT_ENCODING_FLAG, AMQP_BASIC_HEADERS_FLAG,
      AMQP_BASIC_DELIVERY_MODE_FLAG, AMQP_BASIC_PRIORITY_FLAG, AMQP_BASIC_CORRELATION_ID_FLAG,
      AMQP_BASIC_REPLY_TO_FLAG, AMQP_BASIC_EXPIRATION_FLAG, AMQP_BASIC_MESSAGE_ID_FLAG,
      AMQP_BASIC_TIMESTAMP_FLAG, AMQP_BASIC_TYPE_FLAG, AMQP_BASIC_USER_ID_FLAG,
      AMQP_BASIC_APP_ID_FLAG, AMQP_BASIC_CLUSTER_ID_FLAG]"

record amqp_basic_properties_t =
  flags :: amqp_flags_t
  content_type :: amqp_bytes_t
  content_encoding :: amqp_bytes_t
  headers :: amqp_table_t
  delivery_mode :: u8
  priority :: u8
  correlation_id :: amqp_bytes_t
  reply_to :: amqp_bytes_t
  expiration :: amqp_bytes_t
  message_id :: amqp_bytes_t
  prop_timestamp :: u64
  prop_type :: amqp_bytes_t
  user_id :: amqp_bytes_t
  app_id :: amqp_bytes_t
  cluster_id :: amqp_bytes_t

subsection \<open>Messages as the library delivers them (include/amqp.h)\<close>

record amqp_message_t =
  properties :: amqp_basic_properties_t
  body :: amqp_bytes_t
  pool :: amqp_pool_t

record amqp_envelope_t =
  env_channel :: amqp_channel_t
  consumer_tag :: amqp_bytes_t
  delivery_tag :: u64
  redelivered :: amqp_boolean_t
  exchange :: amqp_bytes_t
  routing_key :: amqp_bytes_t
  message :: amqp_message_t

record amqp_connection_info =
  info_user :: "string pointer"
  info_password :: "string pointer"
  info_host :: "string pointer"
  info_vhost :: "string pointer"
  info_port :: i32
  info_ssl :: amqp_boolean_t

subsection \<open>Synchronous calls\<close>

text \<open>
  The calls the header declares for the synchronous methods, with the arguments after the
  connection and the channel. \<open>rpc_request_id\<close> is the number of the method a call is named after,
  \<open>rpc_reply_id\<close> that of the structure it returns.
\<close>

datatype topology_rpc =
    Rpc_channel_open
  | Rpc_channel_flow amqp_boolean_t
  | Rpc_exchange_declare amqp_bytes_t amqp_bytes_t amqp_boolean_t amqp_boolean_t amqp_boolean_t
      amqp_boolean_t amqp_table_t
      \<comment> \<open>exchange, type, silent, durable, auto delete, internal, arguments\<close>
  | Rpc_exchange_delete amqp_bytes_t amqp_boolean_t
      \<comment> \<open>exchange, if unused\<close>
  | Rpc_exchange_bind amqp_bytes_t amqp_bytes_t amqp_bytes_t amqp_table_t
      \<comment> \<open>destination, source, routing key, arguments\<close>
  | Rpc_exchange_unbind amqp_bytes_t amqp_bytes_t amqp_bytes_t amqp_table_t
      \<comment> \<open>destination, source, routing key, arguments\<close>
  | Rpc_queue_declare amqp_bytes_t amqp_boolean_t amqp_boolean_t amqp_boolean_t amqp_boolean_t
      amqp_table_t
      \<comment> \<open>queue, silent, durable, exclusive, auto delete, arguments\<close>
  | Rpc_queue_bind amqp_bytes_t amqp_bytes_t amqp_bytes_t amqp_table_t
      \<comment> \<open>queue, exchange, routing key, arguments\<close>
  | Rpc_queue_purge amqp_bytes_t
      \<comment> \<open>queue\<close>
  | Rpc_queue_delete amqp_bytes_t amqp_boolean_t amqp_boolean_t
      \<comment> \<open>queue, if unused, if empty\<close>
  | Rpc_queue_unbind amqp_bytes_t amqp_bytes_t amqp_bytes_t amqp_table_t
      \<comment> \<open>queue, exchange, routing key, arguments\<close>

datatype consumer_rpc =
    Rpc_basic_qos u32 u16 amqp_boolean_t
      \<comment> \<open>prefetch size, prefetch count, global\<close>
  | Rpc_basic_consume amqp_bytes_t amqp_bytes_t amqp_boolean_t amqp_boolean_t amqp_boolean_t
      amqp_table_t
      \<comment> \<open>queue, consumer tag, no local, no ack, exclusive, arguments\<close>
  | Rpc_basic_cancel amqp_bytes_t
      \<comment> \<open>consumer tag\<close>
  | Rpc_basic_recover amqp_boolean_t
      \<comment> \<open>requeue\<close>
  | Rpc_tx_select
  | Rpc_tx_commit
  | Rpc_tx_rollback
  | Rpc_confirm_select

datatype amqp_rpc = Topology topology_rpc | Consumer consumer_rpc

fun topology_request_id :: "topology_rpc \<Rightarrow> amqp_method_number_t" where
  "topology_request_id Rpc_channel_open = 0x0014000A"
| "topology_request_id (Rpc_channel_flow _) = 0x00140014"
| "topology_request_id (Rpc_exchange_declare _ _ _ _ _ _ _) = 0x0028000A"
| "topology_request_id (Rpc_exchange_delete _ _) = 0x00280014"
| "topology_request_id (Rpc_exchange_bind _ _ _ _) = 0x0028001E"
| "topology_request_id (Rpc_exchange_unbind _ _ _ _) = 0x00280028"
| "topology_request_id (Rpc_queue_declare _ _ _ _ _ _) = 0x0032000A"
| "topology_request_id (Rpc_queue_bind _ _ _ _) = 0x00320014"
| "topology_request_id (Rpc_queue_purge _) = 0x0032001E"
| "topology_request_id (Rpc_queue_delete _ _ _) = 0x00320028"
| "topology_request_id (Rpc_queue_unbind _ _ _ _) = 0x00320032"

fun consumer_request_id :: "consumer_rpc \<Rightarrow> amqp_method_number_t" where
  "consumer_request_id (Rpc_basic_qos _ _ _) = 0x003C000A"
| "consumer_request_id (Rpc_basic_consume _ _ _ _ _ _) = 0x003C0014"
| "consumer_request_id (Rpc_basic_cancel _) = 0x003C001E"
| "consumer_request_id (Rpc_basic_recover _) = 0x003C006E"
| "consumer_request_id Rpc_tx_select = 0x005A000A"
| "consumer_request_id Rpc_tx_commit = 0x005A0014"
| "consumer_request_id Rpc_tx_rollback = 0x005A001E"
| "consumer_request_id Rpc_confirm_select = 0x0055000A"

fun topology_reply_id :: "topology_rpc \<Rightarrow> amqp_method_number_t" where
  "topology_reply_id Rpc_channel_open = 0x0014000B"
| "topology_reply_id (Rpc_channel_flow _) = 0x00140015"
| "topology_reply_id (Rpc_exchange_declare _ _ _ _ _ _ _) = 0x0028000B"
| "topology_reply_id (Rpc_exchange_delete _ _) = 0x00280015"
| "topology_reply_id (Rpc_exchange_bind _ _ _ _) = 0x0028001F"
| "topology_reply_id (Rpc_exchange_unbind _ _ _ _) = 0x00280033"
| "topology_reply_id (Rpc_queue_declare _ _ _ _ _ _) = 0x0032000B"
| "topology_reply_id (Rpc_queue_bind _ _ _ _) = 0x00320015"
| "topology_reply_id (Rpc_queue_purge _) = 0x0032001F"
| "topology_reply_id (Rpc_queue_delete _ _ _) = 0x00320029"
| "topology_reply_id (Rpc_queue_unbind _ _ _ _) = 0x00320033"

fun consumer_reply_id :: "consumer_rpc \<Rightarrow> amqp_method_number_t" where
  "consumer_reply_id (Rpc_basic_qos _ _ _) = 0x003C000B"
| "consumer_reply_id (Rpc_basic_consume _ _ _ _ _ _) = 0x003C0015"
| "consumer_reply_id (Rpc_basic_cancel _) = 0x003C001F"
| "consumer_reply_id (Rpc_basic_recover _) = 0x003C006F"
| "consumer_reply_id Rpc_tx_select = 0x005A000B"
| "consumer_reply_id Rpc_tx_commit = 0x005A0015"
| "consumer_reply_id Rpc_tx_rollback = 0x005A001F"
| "consumer_reply_id Rpc_confirm_select = 0x0055000B"

fun rpc_request_id :: "amqp_rpc \<Rightarrow> amqp_method_number_t" where
  "rpc_request_id (Topology r) = topology_request_id r"
| "rpc_request_id (Consumer r) = consumer_request_id r"

fun rpc_reply_id :: "amqp_rpc \<Rightarrow> amqp_method_number_t" where
  "rpc_reply_id (Topology r) = topology_reply_id r"
| "rpc_reply_id (Consumer r) = consumer_reply_id r"

subsection \<open>Method numbers\<close>

lemma method_number_class:
  "drop_bit 16 (method_number m) = (ucast (class_number (method_class m)) :: u32)"
proof (cases m)
  case (In_connection x) then show ?thesis by (cases x) simp_all
next
  case (In_channel x) then show ?thesis by (cases x) simp_all
next
  case (In_access x) then show ?thesis by (cases x) simp_all
next
  case (In_exchange x) then show ?thesis by (cases x) simp_all
next
  case (In_queue x) then show ?thesis by (cases x) simp_all
next
  case (In_basic x) then show ?thesis by (cases x) simp_all
next
  case (In_tx x) then show ?thesis by (cases x) simp_all
next
  case (In_confirm x) then show ?thesis by (cases x) simp_all
qed

lemma class_number_inj: "class_number c = class_number d \<Longrightarrow> c = d"
  by (cases c; cases d) simp_all

lemma method_class_of_number: "method_number m = method_number n \<Longrightarrow> method_class m = method_class n"
proof -
  assume "method_number m = method_number n"
  then have "(ucast (class_number (method_class m)) :: u32) = ucast (class_number (method_class n))"
    by (simp add: method_number_class [symmetric])
  then show ?thesis
    by (cases "method_class m"; cases "method_class n") simp_all
qed

lemma same_class_same_number:
  "connection_method_id c = connection_method_id c' \<longleftrightarrow>
     connection_method_name c = connection_method_name c'"
  "channel_method_id h = channel_method_id h' \<longleftrightarrow> channel_method_name h = channel_method_name h'"
  "access_method_id a = access_method_id a' \<longleftrightarrow> access_method_name a = access_method_name a'"
  "exchange_method_id e = exchange_method_id e' \<longleftrightarrow>
     exchange_method_name e = exchange_method_name e'"
  "queue_method_id q = queue_method_id q' \<longleftrightarrow> queue_method_name q = queue_method_name q'"
  "basic_method_id b = basic_method_id b' \<longleftrightarrow> basic_method_name b = basic_method_name b'"
  "tx_method_id t = tx_method_id t' \<longleftrightarrow> tx_method_name t = tx_method_name t'"
  "confirm_method_id f = confirm_method_id f' \<longleftrightarrow> confirm_method_name f = confirm_method_name f'"
  subgoal by (cases c; cases c'; simp)
  subgoal by (cases h; cases h'; simp)
  subgoal by (cases a; cases a'; simp)
  subgoal by (cases e; cases e'; simp)
  subgoal by (cases q; cases q'; simp)
  subgoal by (cases b; cases b'; simp)
  subgoal by (cases t; cases t'; simp)
  subgoal by (cases f; cases f'; simp)
  done

lemma method_name_prefix:
  "takeWhile (\<lambda>c. c \<noteq> CHR ''.'') (method_name m) = class_name (method_class m)"
proof (cases m)
  case (In_connection x) then show ?thesis by (cases x) simp_all
next
  case (In_channel x) then show ?thesis by (cases x) simp_all
next
  case (In_access x) then show ?thesis by (cases x) simp_all
next
  case (In_exchange x) then show ?thesis by (cases x) simp_all
next
  case (In_queue x) then show ?thesis by (cases x) simp_all
next
  case (In_basic x) then show ?thesis by (cases x) simp_all
next
  case (In_tx x) then show ?thesis by (cases x) simp_all
next
  case (In_confirm x) then show ?thesis by (cases x) simp_all
qed

lemma method_name_class: "method_name m = method_name n \<Longrightarrow> method_class m = method_class n"
  using method_name_prefix [of m] method_name_prefix [of n]
  by (cases "method_class m"; cases "method_class n") simp_all

lemma method_number_iff_name: "method_number m = method_number n \<longleftrightarrow> method_name m = method_name n"
proof (cases "method_class m = method_class n")
  case True
  then show ?thesis by (cases m; cases n) (simp_all add: same_class_same_number)
next
  case False
  then show ?thesis using method_class_of_number method_name_class by blast
qed

subsection \<open>Calls and their replies\<close>

lemma topology_reply_follows_request:
  "topology_reply_id r =
     topology_request_id r + (case r of Rpc_exchange_unbind _ _ _ _ \<Rightarrow> 11 | _ \<Rightarrow> 1)"
  by (cases r) simp_all

lemma consumer_reply_follows_request: "consumer_reply_id r = consumer_request_id r + 1"
  by (cases r) simp_all

subsection \<open>Property flags\<close>

lemma basic_flags_distinct: "distinct basic_flags"
  by (simp add: basic_flags_def basic_flag_defs)

lemma basic_flags_bits: "basic_flags = map (\<lambda>n. push_bit n 1) (rev [2..<16])"
  by (simp add: basic_flags_def basic_flag_defs upt_rec)

end
