(* ===== verification/Int_Props.thy ===== *)
theory Int_Props
  imports Amqp_Framing "HOL-Library.Multiset"
begin

section \<open>Message properties and their header table\<close>

text \<open>
  The properties every message of this library carries (\<open>int_props_st\<close> of
  \<open>include/rabbitmqclient.h\<close>) and the two conversions between them and an AMQP header table,
  \<open>IntProps2AmqpTable\<close> and \<open>AmqpTable2IntProps\<close> of \<open>src/rabbitmqclient.cpp\<close>.
  The lemmas show that encoding fills exactly the ten slots callers provide, that decoding an
  encoded table returns the properties, what decoding does with wrong types, unknown keys and missing
  keys, and that the order of the entries does not matter.
\<close>

subsection \<open>Message types\<close>

text \<open>
  \<open>message_type_t\<close>, with a constructor for the values that a cast from a received integer can
  produce and that no enumerator names.
\<close>

datatype message_type_t =
    RB_REQUEST
  | RB_TEMPORARY_RESPONSE
  | RB_FINAL_RESPONSE
  | RB_NOTIFICATION
  | RB_REPORT
  | RB_TOPIC
  | RB_BROADCAST
  | RB_ECHOTEST
  | Unlisted_message_type i32

fun i32_of_msgtype :: "message_type_t \<Rightarrow> i32" where
  "i32_of_msgtype RB_REQUEST = 0"
| "i32_of_msgtype RB_TEMPORARY_RESPONSE = 1"
| "i32_of_msgtype RB_FINAL_RESPONSE = 2"
| "i32_of_msgtype RB_NOTIFICATION = 3"
| "i32_of_msgtype RB_REPORT = 4"
| "i32_of_msgtype RB_TOPIC = 5"
| "i32_of_msgtype RB_BROADCAST = 6"
| "i32_of_msgtype RB_ECHOTEST = 7"
| "i32_of_msgtype (Unlisted_message_type i) = i"

definition msgtype_of_i32 :: "i32 \<Rightarrow> message_type_t" where
  "msgtype_of_i32 i =
     (if i = 0 then RB_REQUEST else if i = 1 then RB_TEMPORARY_RESPONSE
      else if i = 2 then RB_FINAL_RESPONSE else if i = 3 then RB_NOTIFICATION
      else if i = 4 then RB_REPORT else if i = 5 then RB_TOPIC
      else if i = 6 then RB_BROADCAST else if i = 7 then RB_ECHOTEST
      else Unlisted_message_type i)"

definition listed :: "message_type_t \<Rightarrow> bool" where
  "listed t \<longleftrightarrow> (\<forall>i. t \<noteq> Unlisted_message_type i)"

lemma listed_simps [simp]:
  "listed RB_REQUEST" "listed RB_TEMPORARY_RESPONSE" "listed RB_FINAL_RESPONSE"
  "listed RB_NOTIFICATION" "listed RB_REPORT" "listed RB_TOPIC" "listed RB_BROADCAST"
  "listed RB_ECHOTEST" "\<not> listed (Unlisted_message_type i)"
  by (simp_all add: listed_def)

lemma msgtype_of_i32_of_msgtype [simp]: "listed t \<Longrightarrow> msgtype_of_i32 (i32_of_msgtype t) = t"
  by (cases t) (simp_all add: msgtype_of_i32_def)

lemma i32_of_msgtype_of_i32 [simp]: "i32_of_msgtype (msgtype_of_i32 i) = i"
  by (simp add: msgtype_of_i32_def)

subsection \<open>The properties and the names of their headers\<close>

record int_props_st =
  sender :: string
  receiver :: string
  msgtype :: message_type_t
  msgname :: string
  rid :: i32
  inarg :: u64
  timestamp :: i64
  rspcode :: string
  rspdesc :: string
  trans :: string

definition PROP_HEAD_LEN :: nat where "PROP_HEAD_LEN = 10"
definition PROP_SENDER_STR :: string where "PROP_SENDER_STR = ''sender''"
definition PROP_RECVIVER_STR :: string where "PROP_RECVIVER_STR = ''recver''"
definition PROP_MSGTYPE_STR :: string where "PROP_MSGTYPE_STR = ''msgtype''"
definition PROP_MSGNAME_STR :: string where "PROP_MSGNAME_STR = ''msgname''"
definition PROP_RELATID_STR :: string where "PROP_RELATID_STR = ''rid''"
definition PROP_INARG_STR :: string where "PROP_INARG_STR = ''inarg''"
definition PROP_SENDTIME_STR :: string where "PROP_SENDTIME_STR = ''timestamp''"
definition PROP_RESPCODE_STR :: string where "PROP_RESPCODE_STR = ''rspcode''"
definition PROP_RESPDESC_STR :: string where "PROP_RESPDESC_STR = ''rspdesc''"
definition PROP_TRANS_STR :: string where "PROP_TRANS_STR = ''transparent''"

lemmas prop_str_defs =
  PROP_SENDER_STR_def PROP_RECVIVER_STR_def PROP_MSGTYPE_STR_def PROP_MSGNAME_STR_def
  PROP_RELATID_STR_def PROP_INARG_STR_def PROP_SENDTIME_STR_def PROP_RESPCODE_STR_def
  PROP_RESPDESC_STR_def PROP_TRANS_STR_def

definition prop_keys :: "string list" where
  "prop_keys =
     [PROP_SENDER_STR, PROP_RECVIVER_STR, PROP_MSGTYPE_STR, PROP_MSGNAME_STR, PROP_RELATID_STR,
      PROP_INARG_STR, PROP_SENDTIME_STR, PROP_RESPCODE_STR, PROP_RESPDESC_STR, PROP_TRANS_STR]"

lemma prop_keys_distinct: "distinct prop_keys"
  by (simp add: prop_keys_def prop_str_defs)

lemma length_prop_keys: "length prop_keys = PROP_HEAD_LEN"
  by (simp add: prop_keys_def PROP_HEAD_LEN_def)

subsection \<open>Buffers and strings\<close>

definition amqp_bytes_to_string :: "amqp_bytes_t \<Rightarrow> string" where
  "amqp_bytes_to_string b =
     (case bytes b of
        Some s \<Rightarrow> if len b > 0 then take (unat (len b)) s else ''''
      | None \<Rightarrow> '''')"

text \<open>
  What the header documents of \<open>amqp_cstring_bytes\<close>: the descriptor points to the string and its
  length is that of the string without the terminator. The function itself is a parameter \<open>cb\<close>,
  applied to the characters before the first NUL.
\<close>

definition cstring_bytes_doc :: "(string \<Rightarrow> amqp_bytes_t) \<Rightarrow> bool" where
  "cstring_bytes_doc cb \<longleftrightarrow>
     (\<forall>s. no_nul s \<longrightarrow> cb s = \<lparr>len = of_nat (length s), bytes = Some s\<rparr>)"

text \<open>A string that fits in memory and has no NUL character.\<close>

definition storable :: "string \<Rightarrow> bool" where
  "storable s \<longleftrightarrow> no_nul s \<and> length s < 2 ^ 64"

lemma storable_no_nul [simp]: "storable s \<Longrightarrow> no_nul s"
  by (simp add: storable_def)

lemma bytes_to_string_cstring:
  assumes "cstring_bytes_doc cb" "storable s"
  shows "amqp_bytes_to_string (cb s) = s"
proof -
  have cb: "cb s = \<lparr>len = of_nat (length s), bytes = Some s\<rparr>"
    using assms by (simp add: cstring_bytes_doc_def)
  have n: "unat (of_nat (length s) :: 64 word) = length s"
    using assms by (simp add: storable_def unat_of_nat)
  then have "(of_nat (length s) :: 64 word) > 0 \<longleftrightarrow> s \<noteq> []"
    by (metis length_greater_0_conv unat_0 word_gt_0 word_less_nat_alt)
  with cb n show ?thesis by (simp add: amqp_bytes_to_string_def)
qed

lemma wf_bytes_cstring:
  "cstring_bytes_doc cb \<Longrightarrow> storable s \<Longrightarrow> wf_bytes (cb s)"
  by (simp add: cstring_bytes_doc_def storable_def wf_bytes_def unat_of_nat)

lemma prop_keys_storable: "k \<in> set prop_keys \<Longrightarrow> storable k"
  by (auto simp: prop_keys_def prop_str_defs storable_def)

subsection \<open>Reading a header table\<close>

text \<open>
  One round of the loop of \<open>AmqpTable2IntProps\<close>: the changed properties, or the message logged
  before \<open>return false\<close>.
\<close>

definition read_bytes ::
  "amqp_field_value_t \<Rightarrow> string \<Rightarrow> (string \<Rightarrow> int_props_st) \<Rightarrow> string + int_props_st" where
  "read_bytes v msg f = (case v of Field_bytes b \<Rightarrow> Inr (f (amqp_bytes_to_string b)) | _ \<Rightarrow> Inl msg)"

definition read_i32 ::
  "amqp_field_value_t \<Rightarrow> string \<Rightarrow> (i32 \<Rightarrow> int_props_st) \<Rightarrow> string + int_props_st" where
  "read_i32 v msg f = (case v of Field_i32 i \<Rightarrow> Inr (f i) | _ \<Rightarrow> Inl msg)"

definition read_i64 ::
  "amqp_field_value_t \<Rightarrow> string \<Rightarrow> (i64 \<Rightarrow> int_props_st) \<Rightarrow> string + int_props_st" where
  "read_i64 v msg f = (case v of Field_i64 i \<Rightarrow> Inr (f i) | _ \<Rightarrow> Inl msg)"

definition read_entry :: "amqp_table_entry_t \<Rightarrow> int_props_st \<Rightarrow> string + int_props_st" where
  "read_entry e p =
     (let k = amqp_bytes_to_string (key e); v = entry_value e in
      if k = PROP_SENDER_STR then
        read_bytes v ''Invalid type for sender: expected bytes'' (\<lambda>s. p\<lparr>sender := s\<rparr>)
      else if k = PROP_RECVIVER_STR then
        read_bytes v ''Invalid type for receiver: expected bytes'' (\<lambda>s. p\<lparr>receiver := s\<rparr>)
      else if k = PROP_MSGTYPE_STR then
        read_i32 v ''Invalid type for msgtype: expected i32'' (\<lambda>i. p\<lparr>msgtype := msgtype_of_i32 i\<rparr>)
      else if k = PROP_MSGNAME_STR then
        read_bytes v ''Invalid type for msgname: expected bytes'' (\<lambda>s. p\<lparr>msgname := s\<rparr>)
      else if k = PROP_RELATID_STR then
        read_i32 v ''Invalid type for rid: expected i32'' (\<lambda>i. p\<lparr>rid := i\<rparr>)
      else if k = PROP_INARG_STR then
        read_i64 v ''Invalid type for inarg: expected i64'' (\<lambda>i. p\<lparr>inarg := i\<rparr>)
      else if k = PROP_SENDTIME_STR then
        read_i64 v ''Invalid type for timestamp: expected i64'' (\<lambda>i. p\<lparr>timestamp := i\<rparr>)
      else if k = PROP_RESPCODE_STR then
        read_bytes v ''Invalid type for rspcode: expected bytes'' (\<lambda>s. p\<lparr>rspcode := s\<rparr>)
      else if k = PROP_RESPDESC_STR then
        read_bytes v ''Invalid type for rspdesc: expected bytes'' (\<lambda>s. p\<lparr>rspdesc := s\<rparr>)
      else if k = PROP_TRANS_STR then
        read_bytes v ''Invalid type for transparent: expected bytes'' (\<lambda>s. p\<lparr>trans := s\<rparr>)
      else Inl (''Unknown key: '' @ k))"

text \<open>
  The result of the loop: all entries read; \<open>return false\<close> after a logged message, the properties
  holding what the entries before set; or a read past the array, when \<open>num_entries\<close> exceeds it.
\<close>

datatype table_read =
    Read_ok int_props_st
  | Read_failed string int_props_st
  | Read_out_of_bounds

fun read_entries :: "nat \<Rightarrow> amqp_table_entry_t list \<Rightarrow> int_props_st \<Rightarrow> table_read" where
  "read_entries 0 es p = Read_ok p"
| "read_entries (Suc n) [] p = Read_out_of_bounds"
| "read_entries (Suc n) (e # es) p =
     (case read_entry e p of
        Inr p' \<Rightarrow> read_entries n es p'
      | Inl msg \<Rightarrow> Read_failed msg p)"

definition AmqpTable2IntProps :: "amqp_table_t \<Rightarrow> int_props_st \<Rightarrow> table_read" where
  "AmqpTable2IntProps table intprops =
     read_entries (nat (sint (num_entries table))) (entries table) intprops"

subsection \<open>Writing a header table\<close>

text \<open>
  The array of entries belongs to the caller. \<open>put_entry\<close> writes slot \<open>index\<close> and increments
  \<open>index\<close>; \<open>None\<close> is a write past the array.
\<close>

definition put_entry ::
  "(string \<Rightarrow> amqp_bytes_t) \<Rightarrow> string \<Rightarrow> amqp_field_value_t
     \<Rightarrow> nat \<times> amqp_table_entry_t list \<Rightarrow> (nat \<times> amqp_table_entry_t list) option" where
  "put_entry cb k v = (\<lambda>(index, es).
     if index < length es then Some (index + 1, es[index := Table_entry (cb k) v]) else None)"

definition IntProps2AmqpTable ::
  "(string \<Rightarrow> amqp_bytes_t) \<Rightarrow> int_props_st \<Rightarrow> amqp_table_t \<Rightarrow> (bool \<times> amqp_table_t) option" where
  "IntProps2AmqpTable cb intprops table = do {
     t \<leftarrow> put_entry cb PROP_SENDER_STR (Field_bytes (cb (c_str (sender intprops)))) (0, entries table);
     t \<leftarrow> put_entry cb PROP_RECVIVER_STR (Field_bytes (cb (c_str (receiver intprops)))) t;
     t \<leftarrow> put_entry cb PROP_MSGTYPE_STR (Field_i32 (i32_of_msgtype (msgtype intprops))) t;
     t \<leftarrow> put_entry cb PROP_MSGNAME_STR (Field_bytes (cb (c_str (msgname intprops)))) t;
     t \<leftarrow> put_entry cb PROP_RELATID_STR (Field_i32 (rid intprops)) t;
     t \<leftarrow> put_entry cb PROP_INARG_STR (Field_i64 (inarg intprops)) t;
     t \<leftarrow> put_entry cb PROP_SENDTIME_STR (Field_i64 (timestamp intprops)) t;
     t \<leftarrow> put_entry cb PROP_RESPCODE_STR (Field_bytes (cb (c_str (rspcode intprops)))) t;
     t \<leftarrow> put_entry cb PROP_RESPDESC_STR (Field_bytes (cb (c_str (rspdesc intprops)))) t;
     (index, es) \<leftarrow> put_entry cb PROP_TRANS_STR (Field_bytes (cb (c_str (trans intprops)))) t;
     Some (True, Amqp_table (of_nat index) es)
   }"

subsection \<open>What encoding writes\<close>

definition prop_entries :: "(string \<Rightarrow> amqp_bytes_t) \<Rightarrow> int_props_st \<Rightarrow> amqp_table_entry_t list" where
  "prop_entries cb p =
     map (\<lambda>(k, v). Table_entry (cb k) v)
       (zip prop_keys
         [Field_bytes (cb (c_str (sender p))), Field_bytes (cb (c_str (receiver p))),
          Field_i32 (i32_of_msgtype (msgtype p)), Field_bytes (cb (c_str (msgname p))),
          Field_i32 (rid p), Field_i64 (inarg p), Field_i64 (timestamp p),
          Field_bytes (cb (c_str (rspcode p))), Field_bytes (cb (c_str (rspdesc p))),
          Field_bytes (cb (c_str (trans p)))])"

lemma length_prop_entries: "length (prop_entries cb p) = PROP_HEAD_LEN"
  by (simp add: prop_entries_def length_prop_keys) (simp add: PROP_HEAD_LEN_def)

lemma ten_or_more:
  assumes "PROP_HEAD_LEN \<le> length es"
  obtains e0 e1 e2 e3 e4 e5 e6 e7 e8 e9 r where "es = [e0, e1, e2, e3, e4, e5, e6, e7, e8, e9] @ r"
  using assms by (auto simp: PROP_HEAD_LEN_def numeral_eq_Suc Suc_le_length_iff)

lemma encode_fills_slots:
  assumes "PROP_HEAD_LEN \<le> length (entries t)"
  shows "IntProps2AmqpTable cb p t =
     Some (True, Amqp_table 10 (prop_entries cb p @ drop PROP_HEAD_LEN (entries t)))"
proof -
  obtain e0 e1 e2 e3 e4 e5 e6 e7 e8 e9 r
    where "entries t = [e0, e1, e2, e3, e4, e5, e6, e7, e8, e9] @ r"
    using ten_or_more [OF assms] .
  then show ?thesis
    by (simp add: IntProps2AmqpTable_def put_entry_def prop_entries_def prop_keys_def
        PROP_HEAD_LEN_def)
qed

lemma encode_out_of_bounds:
  "length (entries t) < PROP_HEAD_LEN \<Longrightarrow> IntProps2AmqpTable cb p t = None"
  by (auto simp: IntProps2AmqpTable_def put_entry_def PROP_HEAD_LEN_def)

subsection \<open>Decoding what was encoded\<close>

definition storable_props :: "int_props_st \<Rightarrow> bool" where
  "storable_props p \<longleftrightarrow>
     storable (sender p) \<and> storable (receiver p) \<and> storable (msgname p) \<and> storable (rspcode p) \<and>
     storable (rspdesc p) \<and> storable (trans p) \<and> listed (msgtype p)"

text \<open>The branch of \<open>read_entry\<close> that each of the ten keys selects.\<close>

lemma read_entry_keys:
  "amqp_bytes_to_string (key e) = PROP_SENDER_STR \<Longrightarrow> read_entry e p =
     read_bytes (entry_value e) ''Invalid type for sender: expected bytes'' (\<lambda>s. p\<lparr>sender := s\<rparr>)"
  "amqp_bytes_to_string (key e) = PROP_RECVIVER_STR \<Longrightarrow> read_entry e p =
     read_bytes (entry_value e) ''Invalid type for receiver: expected bytes'' (\<lambda>s. p\<lparr>receiver := s\<rparr>)"
  "amqp_bytes_to_string (key e) = PROP_MSGTYPE_STR \<Longrightarrow> read_entry e p =
     read_i32 (entry_value e) ''Invalid type for msgtype: expected i32'' (\<lambda>i. p\<lparr>msgtype := msgtype_of_i32 i\<rparr>)"
  "amqp_bytes_to_string (key e) = PROP_MSGNAME_STR \<Longrightarrow> read_entry e p =
     read_bytes (entry_value e) ''Invalid type for msgname: expected bytes'' (\<lambda>s. p\<lparr>msgname := s\<rparr>)"
  "amqp_bytes_to_string (key e) = PROP_RELATID_STR \<Longrightarrow> read_entry e p =
     read_i32 (entry_value e) ''Invalid type for rid: expected i32'' (\<lambda>i. p\<lparr>rid := i\<rparr>)"
  "amqp_bytes_to_string (key e) = PROP_INARG_STR \<Longrightarrow> read_entry e p =
     read_i64 (entry_value e) ''Invalid type for inarg: expected i64'' (\<lambda>i. p\<lparr>inarg := i\<rparr>)"
  "amqp_bytes_to_string (key e) = PROP_SENDTIME_STR \<Longrightarrow> read_entry e p =
     read_i64 (entry_value e) ''Invalid type for timestamp: expected i64'' (\<lambda>i. p\<lparr>timestamp := i\<rparr>)"
  "amqp_bytes_to_string (key e) = PROP_RESPCODE_STR \<Longrightarrow> read_entry e p =
     read_bytes (entry_value e) ''Invalid type for rspcode: expected bytes'' (\<lambda>s. p\<lparr>rspcode := s\<rparr>)"
  "amqp_bytes_to_string (key e) = PROP_RESPDESC_STR \<Longrightarrow> read_entry e p =
     read_bytes (entry_value e) ''Invalid type for rspdesc: expected bytes'' (\<lambda>s. p\<lparr>rspdesc := s\<rparr>)"
  "amqp_bytes_to_string (key e) = PROP_TRANS_STR \<Longrightarrow> read_entry e p =
     read_bytes (entry_value e) ''Invalid type for transparent: expected bytes'' (\<lambda>s. p\<lparr>trans := s\<rparr>)"
  by (simp_all add: read_entry_def Let_def prop_str_defs)

lemma read_entries_append:
  "read_entries (length es + n) (es @ fs) p =
     (case read_entries (length es) es p of
        Read_ok q \<Rightarrow> read_entries n fs q
      | r \<Rightarrow> r)"
  by (induction es arbitrary: p) (auto split: sum.splits)

lemma read_entries_prefix: "read_entries (length es) (es @ fs) p = read_entries (length es) es p"
  using read_entries_append [of es 0 fs p] by (auto split: table_read.splits)

lemma read_prop_entries:
  assumes cb: "cstring_bytes_doc cb" and p: "storable_props p"
  shows "read_entries PROP_HEAD_LEN (prop_entries cb p) q = Read_ok p"
proof -
  have k: "amqp_bytes_to_string (cb k) = k" if "k \<in> set prop_keys" for k
    using bytes_to_string_cstring [OF cb prop_keys_storable [OF that]] .
  have v: "amqp_bytes_to_string (cb s) = s" if "storable s" for s
    using bytes_to_string_cstring [OF cb that] .
  note keys = k [unfolded prop_keys_def, simplified]
  show ?thesis
    using p unfolding storable_props_def prop_entries_def prop_keys_def PROP_HEAD_LEN_def
    by (simp add: numeral_eq_Suc read_entry_keys keys v read_bytes_def read_i32_def read_i64_def)
qed

subsection \<open>Which tables are accepted\<close>

definition bytes_keys :: "string list" where
  "bytes_keys =
     [PROP_SENDER_STR, PROP_RECVIVER_STR, PROP_MSGNAME_STR, PROP_RESPCODE_STR, PROP_RESPDESC_STR,
      PROP_TRANS_STR]"

definition i32_keys :: "string list" where
  "i32_keys = [PROP_MSGTYPE_STR, PROP_RELATID_STR]"

definition i64_keys :: "string list" where
  "i64_keys = [PROP_INARG_STR, PROP_SENDTIME_STR]"

text \<open>The key of an entry as the code compares it.\<close>

abbreviation entry_key :: "amqp_table_entry_t \<Rightarrow> string" where
  "entry_key e \<equiv> amqp_bytes_to_string (key e)"

definition well_typed_entry :: "amqp_table_entry_t \<Rightarrow> bool" where
  "well_typed_entry e \<longleftrightarrow>
     (entry_key e \<in> set bytes_keys \<and> kind (entry_value e) = AMQP_FIELD_KIND_BYTES) \<or>
     (entry_key e \<in> set i32_keys \<and> kind (entry_value e) = AMQP_FIELD_KIND_I32) \<or>
     (entry_key e \<in> set i64_keys \<and> kind (entry_value e) = AMQP_FIELD_KIND_I64)"

text \<open>An entry is refused whatever the properties are, or sets one field.\<close>

lemma read_mismatch:
  "kind v \<noteq> AMQP_FIELD_KIND_BYTES \<Longrightarrow> read_bytes v m f = Inl m"
  "kind v \<noteq> AMQP_FIELD_KIND_I32 \<Longrightarrow> read_i32 v m g = Inl m"
  "kind v \<noteq> AMQP_FIELD_KIND_I64 \<Longrightarrow> read_i64 v m h = Inl m"
  by (cases v; simp add: read_bytes_def read_i32_def read_i64_def)+

lemma read_entry_unknown:
  "entry_key e \<notin> set prop_keys \<Longrightarrow> read_entry e p = Inl (''Unknown key: '' @ entry_key e)"
  by (simp add: read_entry_def prop_keys_def Let_def)

lemma prop_keys_split: "set prop_keys = set bytes_keys \<union> set i32_keys \<union> set i64_keys"
  by (auto simp: prop_keys_def bytes_keys_def i32_keys_def i64_keys_def)

lemma read_entry_refuses: "\<not> well_typed_entry e \<Longrightarrow> \<exists>m. read_entry e p = Inl m"
proof (cases "entry_key e \<in> set prop_keys")
  case True
  assume bad: "\<not> well_typed_entry e"
  from True consider "entry_key e \<in> set bytes_keys" | "entry_key e \<in> set i32_keys"
    | "entry_key e \<in> set i64_keys"
    by (auto simp: prop_keys_split)
  then show ?thesis
  proof cases
    case 1
    with bad have "kind (entry_value e) \<noteq> AMQP_FIELD_KIND_BYTES" by (simp add: well_typed_entry_def)
    with 1 show ?thesis by (auto simp: bytes_keys_def read_entry_keys read_mismatch)
  next
    case 2
    with bad have "kind (entry_value e) \<noteq> AMQP_FIELD_KIND_I32" by (simp add: well_typed_entry_def)
    with 2 show ?thesis by (auto simp: i32_keys_def read_entry_keys read_mismatch)
  next
    case 3
    with bad have "kind (entry_value e) \<noteq> AMQP_FIELD_KIND_I64" by (simp add: well_typed_entry_def)
    with 3 show ?thesis by (auto simp: i64_keys_def read_entry_keys read_mismatch)
  qed
qed (simp add: read_entry_unknown)

lemma read_entry_cases:
  obtains
    (refused) "\<not> well_typed_entry e" "\<And>p. \<exists>m. read_entry e p = Inl m"
  | (sender) s where "well_typed_entry e" "entry_key e = PROP_SENDER_STR"
      "\<And>p. read_entry e p = Inr (p\<lparr>sender := s\<rparr>)"
  | (receiver) s where "well_typed_entry e" "entry_key e = PROP_RECVIVER_STR"
      "\<And>p. read_entry e p = Inr (p\<lparr>receiver := s\<rparr>)"
  | (msgtype) i where "well_typed_entry e" "entry_key e = PROP_MSGTYPE_STR"
      "\<And>p. read_entry e p = Inr (p\<lparr>msgtype := i\<rparr>)"
  | (msgname) s where "well_typed_entry e" "entry_key e = PROP_MSGNAME_STR"
      "\<And>p. read_entry e p = Inr (p\<lparr>msgname := s\<rparr>)"
  | (rid) i where "well_typed_entry e" "entry_key e = PROP_RELATID_STR"
      "\<And>p. read_entry e p = Inr (p\<lparr>rid := i\<rparr>)"
  | (inarg) i where "well_typed_entry e" "entry_key e = PROP_INARG_STR"
      "\<And>p. read_entry e p = Inr (p\<lparr>inarg := i\<rparr>)"
  | (timestamp) i where "well_typed_entry e" "entry_key e = PROP_SENDTIME_STR"
      "\<And>p. read_entry e p = Inr (p\<lparr>timestamp := i\<rparr>)"
  | (rspcode) s where "well_typed_entry e" "entry_key e = PROP_RESPCODE_STR"
      "\<And>p. read_entry e p = Inr (p\<lparr>rspcode := s\<rparr>)"
  | (rspdesc) s where "well_typed_entry e" "entry_key e = PROP_RESPDESC_STR"
      "\<And>p. read_entry e p = Inr (p\<lparr>rspdesc := s\<rparr>)"
  | (trans) s where "well_typed_entry e" "entry_key e = PROP_TRANS_STR"
      "\<And>p. read_entry e p = Inr (p\<lparr>trans := s\<rparr>)"
proof (cases "well_typed_entry e")
  case True
  note r = that
  from True consider
      b where "entry_key e \<in> set bytes_keys" "entry_value e = Field_bytes b"
    | i where "entry_key e \<in> set i32_keys" "entry_value e = Field_i32 i"
    | i where "entry_key e \<in> set i64_keys" "entry_value e = Field_i64 i"
    by (auto simp: well_typed_entry_def kind_bytes_iff kind_i32_iff kind_i64_iff)
  then show ?thesis
  proof cases
    case (1 b)
    note v = 1(2)
    from 1(1) consider "entry_key e = PROP_SENDER_STR"
      | "entry_key e = PROP_RECVIVER_STR"
      | "entry_key e = PROP_MSGNAME_STR"
      | "entry_key e = PROP_RESPCODE_STR"
      | "entry_key e = PROP_RESPDESC_STR"
      | "entry_key e = PROP_TRANS_STR"
      by (auto simp: bytes_keys_def)
    then show ?thesis
    proof cases
      case 1
      note k = this
      show ?thesis by (rule r(2) [of "amqp_bytes_to_string b", OF True k]) (simp add: read_entry_keys k v read_bytes_def)
    next
      case 2
      note k = this
      show ?thesis by (rule r(3) [of "amqp_bytes_to_string b", OF True k]) (simp add: read_entry_keys k v read_bytes_def)
    next
      case 3
      note k = this
      show ?thesis by (rule r(5) [of "amqp_bytes_to_string b", OF True k]) (simp add: read_entry_keys k v read_bytes_def)
    next
      case 4
      note k = this
      show ?thesis by (rule r(9) [of "amqp_bytes_to_string b", OF True k]) (simp add: read_entry_keys k v read_bytes_def)
    next
      case 5
      note k = this
      show ?thesis by (rule r(10) [of "amqp_bytes_to_string b", OF True k]) (simp add: read_entry_keys k v read_bytes_def)
    next
      case 6
      note k = this
      show ?thesis by (rule r(11) [of "amqp_bytes_to_string b", OF True k]) (simp add: read_entry_keys k v read_bytes_def)
    qed
  next
    case (2 i)
    note v = 2(2)
    from 2(1) consider "entry_key e = PROP_MSGTYPE_STR"
      | "entry_key e = PROP_RELATID_STR"
      by (auto simp: i32_keys_def)
    then show ?thesis
    proof cases
      case 1
      note k = this
      show ?thesis by (rule r(4) [of "msgtype_of_i32 i", OF True k]) (simp add: read_entry_keys k v read_i32_def)
    next
      case 2
      note k = this
      show ?thesis by (rule r(6) [of i, OF True k]) (simp add: read_entry_keys k v read_i32_def)
    qed
  next
    case (3 i)
    note v = 3(2)
    from 3(1) consider "entry_key e = PROP_INARG_STR"
      | "entry_key e = PROP_SENDTIME_STR"
      by (auto simp: i64_keys_def)
    then show ?thesis
    proof cases
      case 1
      note k = this
      show ?thesis by (rule r(7) [of i, OF True k]) (simp add: read_entry_keys k v read_i64_def)
    next
      case 2
      note k = this
      show ?thesis by (rule r(8) [of i, OF True k]) (simp add: read_entry_keys k v read_i64_def)
    qed
  qed
next
  case False
  then show ?thesis using read_entry_refuses that(1) by blast
qed

lemma read_entry_accepts_iff: "(\<exists>q. read_entry e p = Inr q) \<longleftrightarrow> well_typed_entry e"
proof (cases e rule: read_entry_cases)
  case refused
  then show ?thesis by (metis sum.distinct(1))
qed auto

lemma read_entries_accepts_iff:
  "(\<exists>q. read_entries n es p = Read_ok q) \<longleftrightarrow>
     n \<le> length es \<and> (\<forall>e \<in> set (take n es). well_typed_entry e)"
proof (induction n es p rule: read_entries.induct)
  case (3 n e es p)
  then show ?case
    using read_entry_accepts_iff [of e p] by (cases "read_entry e p") auto
qed auto

lemma sint_of_nat_i32: "n < 2 ^ 31 \<Longrightarrow> sint (of_nat n :: i32) = int n"
  by (simp add: sint_uint unsigned_of_nat take_bit_nat_eq_self signed_take_bit_int_eq_self)

subsection \<open>Fields whose key is missing\<close>

lemma read_entry_keeps:
  assumes "read_entry e p = Inr q"
  shows "(entry_key e \<noteq> PROP_SENDER_STR \<longrightarrow> sender q = sender p) \<and>
    (entry_key e \<noteq> PROP_MSGTYPE_STR \<longrightarrow> msgtype q = msgtype p) \<and>
    (entry_key e \<noteq> PROP_RELATID_STR \<longrightarrow> rid q = rid p) \<and>
    (entry_key e \<noteq> PROP_INARG_STR \<longrightarrow> inarg q = inarg p)"
proof (cases e rule: read_entry_cases)
  case refused
  with assms show ?thesis by (metis sum.distinct(1))
qed (use assms in auto)

lemma read_entries_keeps:
  "read_entries n es p = Read_ok q \<Longrightarrow>
    (PROP_SENDER_STR \<notin> entry_key ` set (take n es) \<longrightarrow> sender q = sender p) \<and>
    (PROP_MSGTYPE_STR \<notin> entry_key ` set (take n es) \<longrightarrow> msgtype q = msgtype p) \<and>
    (PROP_RELATID_STR \<notin> entry_key ` set (take n es) \<longrightarrow> rid q = rid p) \<and>
    (PROP_INARG_STR \<notin> entry_key ` set (take n es) \<longrightarrow> inarg q = inarg p)"
proof (induction n es p rule: read_entries.induct)
  case (3 n e es p)
  then obtain p' where p': "read_entry e p = Inr p'" and q: "read_entries n es p' = Read_ok q"
    by (auto split: sum.splits)
  from 3(1) [OF p' q] read_entry_keeps [OF p'] show ?case
    by clarsimp (intro conjI impI; simp add: eq_commute)
qed auto

subsection \<open>The order of the entries\<close>

text \<open>One round of the loop on the properties alone; a refused entry stops the loop for good.\<close>

definition step_entry :: "amqp_table_entry_t \<Rightarrow> int_props_st option \<Rightarrow> int_props_st option" where
  "step_entry e st =
     (case st of None \<Rightarrow> None
      | Some p \<Rightarrow> (case read_entry e p of Inr q \<Rightarrow> Some q | Inl _ \<Rightarrow> None))"

lemma step_entry_None [simp]: "fold step_entry es None = None"
  by (induction es) (simp_all add: step_entry_def)

lemma step_entry_simps:
  "read_entry e p = Inl m \<Longrightarrow> step_entry e (Some p) = None"
  "read_entry e p = Inr q \<Longrightarrow> step_entry e (Some p) = Some q"
  by (simp_all add: step_entry_def)

lemma step_entry_refused: "(\<And>p. \<exists>m. read_entry e p = Inl m) \<Longrightarrow> step_entry e = (\<lambda>_. None)"
proof
  fix st
  assume "\<And>p. \<exists>m. read_entry e p = Inl m"
  then show "step_entry e st = None"
    by (cases st) (auto simp: step_entry_def split: sum.splits, metis sum.distinct(1))
qed

lemma step_entry_map: "(\<And>p. read_entry e p = Inr (u p)) \<Longrightarrow> step_entry e = map_option u"
  by (auto simp: step_entry_def fun_eq_iff split: option.splits)

lemma read_entries_fold:
  "read_entries (length es) es p = Read_ok q \<longleftrightarrow> fold step_entry es (Some p) = Some q"
proof (induction es arbitrary: p)
  case (Cons e es)
  show ?case
    by (cases "read_entry e p") (simp_all add: step_entry_simps Cons.IH)
qed simp

inductive field_update :: "string \<Rightarrow> (int_props_st \<Rightarrow> int_props_st) \<Rightarrow> bool" where
  "field_update PROP_SENDER_STR (\<lambda>p. p\<lparr>sender := x\<rparr>)"
| "field_update PROP_RECVIVER_STR (\<lambda>p. p\<lparr>receiver := x\<rparr>)"
| "field_update PROP_MSGTYPE_STR (\<lambda>p. p\<lparr>msgtype := x\<rparr>)"
| "field_update PROP_MSGNAME_STR (\<lambda>p. p\<lparr>msgname := x\<rparr>)"
| "field_update PROP_RELATID_STR (\<lambda>p. p\<lparr>rid := x\<rparr>)"
| "field_update PROP_INARG_STR (\<lambda>p. p\<lparr>inarg := x\<rparr>)"
| "field_update PROP_SENDTIME_STR (\<lambda>p. p\<lparr>timestamp := x\<rparr>)"
| "field_update PROP_RESPCODE_STR (\<lambda>p. p\<lparr>rspcode := x\<rparr>)"
| "field_update PROP_RESPDESC_STR (\<lambda>p. p\<lparr>rspdesc := x\<rparr>)"
| "field_update PROP_TRANS_STR (\<lambda>p. p\<lparr>trans := x\<rparr>)"

lemma field_update_commute:
  "field_update k u \<Longrightarrow> field_update l v \<Longrightarrow> k \<noteq> l \<Longrightarrow> u (v p) = v (u p)"
  by (elim field_update.cases; simp)

lemma step_entry_cases:
  obtains (refused) "step_entry e = (\<lambda>_. None)"
  | (accepted) u where "step_entry e = map_option u" "field_update (entry_key e) u"
proof (cases e rule: read_entry_cases)
  case refused
  then show ?thesis by (intro that(1) step_entry_refused)
next
  case (sender x)
  show ?thesis
    by (rule accepted [OF step_entry_map, OF sender(3)]) (simp only: sender(2), rule field_update.intros)
next
  case (receiver x)
  show ?thesis
    by (rule accepted [OF step_entry_map, OF receiver(3)]) (simp only: receiver(2), rule field_update.intros)
next
  case (msgtype x)
  show ?thesis
    by (rule accepted [OF step_entry_map, OF msgtype(3)]) (simp only: msgtype(2), rule field_update.intros)
next
  case (msgname x)
  show ?thesis
    by (rule accepted [OF step_entry_map, OF msgname(3)]) (simp only: msgname(2), rule field_update.intros)
next
  case (rid x)
  show ?thesis
    by (rule accepted [OF step_entry_map, OF rid(3)]) (simp only: rid(2), rule field_update.intros)
next
  case (inarg x)
  show ?thesis
    by (rule accepted [OF step_entry_map, OF inarg(3)]) (simp only: inarg(2), rule field_update.intros)
next
  case (timestamp x)
  show ?thesis
    by (rule accepted [OF step_entry_map, OF timestamp(3)]) (simp only: timestamp(2), rule field_update.intros)
next
  case (rspcode x)
  show ?thesis
    by (rule accepted [OF step_entry_map, OF rspcode(3)]) (simp only: rspcode(2), rule field_update.intros)
next
  case (rspdesc x)
  show ?thesis
    by (rule accepted [OF step_entry_map, OF rspdesc(3)]) (simp only: rspdesc(2), rule field_update.intros)
next
  case (trans x)
  show ?thesis
    by (rule accepted [OF step_entry_map, OF trans(3)]) (simp only: trans(2), rule field_update.intros)
qed

lemma step_entry_commute:
  assumes "entry_key e \<noteq> entry_key f"
  shows "step_entry e (step_entry f st) = step_entry f (step_entry e st)"
  using assms
  by (cases e rule: step_entry_cases; cases f rule: step_entry_cases)
    (auto simp: option.map_comp comp_def field_update_commute)

lemma read_entries_permute:
  assumes "mset es = mset fs" "distinct (map entry_key es)"
  shows "read_entries (length es) es p = Read_ok q \<longleftrightarrow> read_entries (length fs) fs p = Read_ok q"
proof -
  have "step_entry e \<circ> step_entry f = step_entry f \<circ> step_entry e"
    if "e \<in> set es" "f \<in> set es" for e f
  proof (cases "e = f")
    case False
    then have "entry_key e \<noteq> entry_key f"
      using assms(2) that distinct_map_inj_on_set by metis
    then show ?thesis by (auto simp: step_entry_commute)
  qed simp
  then have "fold step_entry es = fold step_entry fs"
    using assms(1) by (intro fold_multiset_equiv) auto
  then show ?thesis by (simp add: read_entries_fold)
qed

section \<open>Properties of the header table\<close>

text \<open>
  A concrete \<open>amqp_cstring_bytes\<close> with the documented behaviour, and a message, for the witnesses.
\<close>

definition plain_cstring_bytes :: "string \<Rightarrow> amqp_bytes_t" where
  "plain_cstring_bytes s = \<lparr>len = of_nat (length s), bytes = Some s\<rparr>"

lemma plain_cstring_bytes_doc: "cstring_bytes_doc plain_cstring_bytes"
  by (simp add: cstring_bytes_doc_def plain_cstring_bytes_def)

definition sample_props :: int_props_st where
  "sample_props =
     \<lparr>sender = ''sender'', receiver = ''receiver'', msgtype = RB_REQUEST, msgname = ''test'',
      rid = 123, inarg = 0, timestamp = 123456789, rspcode = ''200'', rspdesc = ''OK'',
      trans = ''transparent''\<rparr>"

lemma sample_props_storable: "storable_props sample_props"
  by (simp add: storable_props_def sample_props_def storable_def)

definition void_entry :: amqp_table_entry_t where
  "void_entry = Table_entry \<lparr>len = 0, bytes = None\<rparr> Field_void"

definition ten_void_entries :: amqp_table_t where
  "ten_void_entries = Amqp_table 0 (replicate PROP_HEAD_LEN void_entry)"

text \<open>
  C14: Encoding the properties of a message into a caller's table of at least \<open>PROP_HEAD_LEN\<close> slots
  and decoding that table returns the same properties, whatever the receiving structure held before;
  the strings must have no NUL character and the message type must be one of the enumerators.
\<close>

theorem props_roundtrip:
  assumes "cstring_bytes_doc cb" and "storable_props p" and "PROP_HEAD_LEN \<le> length (entries t)"
  shows "\<exists>t'. IntProps2AmqpTable cb p t = Some (True, t') \<and>
    (\<forall>q. AmqpTable2IntProps t' q = Read_ok p)"
proof -
  let ?t = "Amqp_table 10 (prop_entries cb p @ drop PROP_HEAD_LEN (entries t))"
  have "AmqpTable2IntProps ?t q = Read_ok p" for q
    using read_prop_entries [OF assms(1,2), of q] read_entries_prefix [of "prop_entries cb p"]
    by (simp add: AmqpTable2IntProps_def length_prop_entries) (simp add: PROP_HEAD_LEN_def)
  then show ?thesis using encode_fills_slots [OF assms(3)] by blast
qed

theorem props_roundtrip_witness:
  "\<exists>t'. IntProps2AmqpTable plain_cstring_bytes sample_props ten_void_entries = Some (True, t') \<and>
    (\<forall>q. AmqpTable2IntProps t' q = Read_ok sample_props)"
  by (rule props_roundtrip [OF plain_cstring_bytes_doc sample_props_storable])
    (simp add: ten_void_entries_def)

text \<open>
  Encoding writes exactly the first ten slots of the caller's array, in the order of the keys, sets
  the number of entries to ten and returns true; on an array of fewer than \<open>PROP_HEAD_LEN\<close> slots it
  would write past the end.
\<close>

lemma encode_ten_slots:
  "IntProps2AmqpTable cb p t =
     (if PROP_HEAD_LEN \<le> length (entries t)
      then Some (True, Amqp_table 10 (prop_entries cb p @ drop PROP_HEAD_LEN (entries t)))
      else None)"
  using encode_fills_slots [of t cb p] encode_out_of_bounds [of t cb p]
  by (auto simp: not_le)

text \<open>
  C31: Decoding accepts a table exactly when its entry count does not exceed its array and every
  counted entry has one of the ten keys with that key's type.
\<close>

theorem decode_accepts_iff:
  "(\<exists>q. AmqpTable2IntProps t p = Read_ok q) \<longleftrightarrow>
     nat (sint (num_entries t)) \<le> length (entries t) \<and>
     list_all well_typed_entry (take (nat (sint (num_entries t))) (entries t))"
  by (simp add: AmqpTable2IntProps_def read_entries_accepts_iff list_all_iff)

text \<open>
  The properties decoded from a table with pairwise different keys do not depend on the order in
  which the entries arrive.
\<close>

lemma decode_order_independent:
  assumes "mset es = mset fs" and "distinct (map entry_key es)" and "length es < 2 ^ 31"
  shows "AmqpTable2IntProps (Amqp_table (of_nat (length es)) es) p = Read_ok q \<longleftrightarrow>
    AmqpTable2IntProps (Amqp_table (of_nat (length es)) fs) p = Read_ok q"
proof -
  have n: "nat (sint (of_nat (length es) :: i32)) = length es"
    using assms(3) by (simp add: sint_of_nat_i32)
  from assms(1) have "length fs = length es" by (metis mset_eq_length)
  with read_entries_permute [OF assms(1,2)] n show ?thesis by (simp add: AmqpTable2IntProps_def)
qed

text \<open>
  A field whose key does not occur in a decoded table keeps what the receiving structure held:
  decoding reports success without having set it. The receiving loop passes a structure it has not
  initialised, and the type of the message is one such field.
\<close>

lemma decode_missing_key_unset:
  assumes "AmqpTable2IntProps t p = Read_ok q"
    and "present = entry_key ` set (take (nat (sint (num_entries t))) (entries t))"
  shows "(PROP_MSGTYPE_STR \<notin> present \<longrightarrow> msgtype q = msgtype p) \<and>
    (PROP_RELATID_STR \<notin> present \<longrightarrow> rid q = rid p) \<and>
    (PROP_INARG_STR \<notin> present \<longrightarrow> inarg q = inarg p)"
  using read_entries_keeps assms unfolding AmqpTable2IntProps_def by blast

end
