(* ===== verification/Std_Containers.thy ===== *)
theory Std_Containers
  imports Prelude
begin

section \<open>The standard containers the client uses\<close>

text \<open>
  \<open>std::map\<close> and \<open>std::set\<close> over \<open>std::string\<close> as lists in key order, the order in which a
  range-based \<open>for\<close> visits them, and \<open>std::unordered_map\<close> as an association list in some order.
  \<open>std::string\<close> compares its characters as unsigned bytes, which is the order of \<open>Char_ord\<close> and
  \<open>List_Lexorder\<close>. The locales say what a client of such a container relies on: what a lookup
  returns after assignments and erasures, and which element an ordered traversal meets first. Each is
  interpreted on the containers defined here.
\<close>

subsection \<open>What a client relies on\<close>

locale container =
  fixes lookup :: "'m \<Rightarrow> 'k \<Rightarrow> 'v option"
    and assign :: "'k \<Rightarrow> 'v \<Rightarrow> 'm \<Rightarrow> 'm"
    and erase :: "'k \<Rightarrow> 'm \<Rightarrow> 'm"
    and ok :: "'m \<Rightarrow> bool"
  assumes lookup_assign: "ok m \<Longrightarrow> lookup (assign k v m) = (lookup m)(k \<mapsto> v)"
    and lookup_erase: "ok m \<Longrightarrow> lookup (erase k m) = (lookup m)(k := None)"
    and ok_assign: "ok m \<Longrightarrow> ok (assign k v m)"
    and ok_erase: "ok m \<Longrightarrow> ok (erase k m)"
begin

lemma ok_changes:
  "ok m \<Longrightarrow> ok (fold (\<lambda>(k, c). case c of Some v \<Rightarrow> assign k v | None \<Rightarrow> erase k) cs m)"
  by (induction cs arbitrary: m) (auto simp: ok_assign ok_erase split: option.splits)

lemma lookup_changes:
  "ok m \<Longrightarrow> lookup (fold (\<lambda>(k, c). case c of Some v \<Rightarrow> assign k v | None \<Rightarrow> erase k) cs m) =
     fold (\<lambda>(k, c) f. f(k := c)) cs (lookup m)"
  by (induction cs arbitrary: m)
    (auto simp: ok_assign ok_erase lookup_assign lookup_erase split: option.splits)

lemma erase_assign: "ok m \<Longrightarrow> lookup (erase k (assign k v m)) = (lookup m)(k := None)"
  by (simp add: lookup_erase lookup_assign ok_assign)

lemma dom_assign: "ok m \<Longrightarrow> dom (lookup (assign k v m)) = insert k (dom (lookup m))"
  by (simp add: lookup_assign)

lemma dom_erase: "ok m \<Longrightarrow> dom (lookup (erase k m)) = dom (lookup m) - {k}"
  by (simp add: lookup_erase)

end

text \<open>A container visited in key order: a search from the front finds the least key with a property.\<close>

locale ordered_container = container lookup assign erase ok
  for lookup :: "'m \<Rightarrow> 'k::linorder \<Rightarrow> 'v option"
    and assign :: "'k \<Rightarrow> 'v \<Rightarrow> 'm \<Rightarrow> 'm"
    and erase :: "'k \<Rightarrow> 'm \<Rightarrow> 'm"
    and ok :: "'m \<Rightarrow> bool" +
  fixes visit :: "'m \<Rightarrow> ('k \<times> 'v) list"
  assumes visit_sorted: "ok m \<Longrightarrow> sorted_wrt (<) (map fst (visit m))"
    and visit_lookup: "ok m \<Longrightarrow> map_of (visit m) = lookup m"
begin

lemma visit_distinct: "ok m \<Longrightarrow> distinct (map fst (visit m))"
  using visit_sorted strict_sorted_iff by blast

lemma visit_iff: "ok m \<Longrightarrow> (k, v) \<in> set (visit m) \<longleftrightarrow> lookup m k = Some v"
  using visit_distinct visit_lookup by (metis map_of_eq_Some_iff)

lemma first_match:
  assumes "ok m"
  shows "find (\<lambda>e. P (fst e)) (visit m) = Some (k, v) \<longleftrightarrow>
    lookup m k = Some v \<and> P k \<and> (\<forall>k' < k. k' \<in> dom (lookup m) \<longrightarrow> \<not> P k')"
proof -
  have "find (\<lambda>e. P (fst e)) es = Some (k, v) \<longleftrightarrow>
      (k, v) \<in> set es \<and> P k \<and> (\<forall>k' < k. k' \<in> fst ` set es \<longrightarrow> \<not> P k')"
    if "sorted_wrt (<) (map fst es)" for es :: "('k \<times> 'v) list"
    using that by (induction es) (force simp: image_iff)+
  from this [OF visit_sorted [OF assms]] show ?thesis
    using visit_iff [OF assms] visit_lookup [OF assms]
    by (auto simp: dom_map_of_conv_image_fst [symmetric])
qed

lemma no_match:
  "ok m \<Longrightarrow> find (\<lambda>e. P (fst e)) (visit m) = None \<longleftrightarrow> (\<forall>k \<in> dom (lookup m). \<not> P k)"
  by (force simp: find_None_iff visit_lookup [symmetric] dom_map_of_conv_image_fst)

end

locale key_set =
  fixes member :: "'k \<Rightarrow> 's \<Rightarrow> bool"
    and insert_key :: "'k \<Rightarrow> 's \<Rightarrow> 's"
    and erase_key :: "'k \<Rightarrow> 's \<Rightarrow> 's"
    and ok :: "'s \<Rightarrow> bool"
  assumes member_insert: "ok s \<Longrightarrow> member x (insert_key k s) \<longleftrightarrow> x = k \<or> member x s"
    and member_erase: "ok s \<Longrightarrow> member x (erase_key k s) \<longleftrightarrow> x \<noteq> k \<and> member x s"
    and ok_insert: "ok s \<Longrightarrow> ok (insert_key k s)"
    and ok_erase_key: "ok s \<Longrightarrow> ok (erase_key k s)"
begin

lemma members_insert: "ok s \<Longrightarrow> {x. member x (insert_key k s)} = insert k {x. member x s}"
  by (auto simp: member_insert)

lemma members_erase: "ok s \<Longrightarrow> {x. member x (erase_key k s)} = {x. member x s} - {k}"
  by (auto simp: member_erase)

end

subsection \<open>std::map\<close>

type_synonym ('k, 'v) std_map = "('k \<times> 'v) list"

text \<open>\<open>m[k] = v\<close>: the entry goes to its place in the order, over an entry with the same key.\<close>

primrec map_assign :: "'k::linorder \<Rightarrow> 'v \<Rightarrow> ('k, 'v) std_map \<Rightarrow> ('k, 'v) std_map" where
  "map_assign k v [] = [(k, v)]"
| "map_assign k v (e # m) =
     (if fst e < k then e # map_assign k v m
      else if fst e = k then (k, v) # m else (k, v) # e # m)"

definition map_erase :: "'k \<Rightarrow> ('k, 'v) std_map \<Rightarrow> ('k, 'v) std_map" where
  "map_erase k m = filter (\<lambda>e. fst e \<noteq> k) m"

definition map_ok :: "('k::linorder, 'v) std_map \<Rightarrow> bool" where
  "map_ok m \<longleftrightarrow> sorted_wrt (<) (map fst m)"

lemma map_ok_Nil [simp]: "map_ok []"
  by (simp add: map_ok_def)

lemma map_ok_Cons [simp]: "map_ok (e # m) \<longleftrightarrow> (\<forall>f \<in> set m. fst e < fst f) \<and> map_ok m"
  by (auto simp: map_ok_def)

lemma keys_map_assign: "fst ` set (map_assign k v m) = insert k (fst ` set m)"
  by (induction m) auto

lemma all_keys_map_assign:
  "(\<forall>f \<in> set (map_assign k v m). P (fst f)) \<longleftrightarrow> P k \<and> (\<forall>f \<in> fst ` set m. P f)"
  using keys_map_assign [of k v m] by (metis (no_types, lifting) image_iff insert_iff)

lemma map_ok_assign: "map_ok m \<Longrightarrow> map_ok (map_assign k v m)"
proof (induction m)
  case (Cons e m)
  consider "fst e < k" | "fst e = k" | "k < fst e" by fastforce
  then show ?case
  proof cases
    case 1
    with Cons show ?thesis by (simp add: all_keys_map_assign)
  next
    case 3
    with Cons.prems show ?thesis by (auto intro: less_trans)
  qed (use Cons.prems in simp)
qed simp

lemma map_of_assign: "map_ok m \<Longrightarrow> map_of (map_assign k v m) = (map_of m)(k \<mapsto> v)"
  by (induction m) (auto simp: fun_eq_iff)

lemma map_of_erase: "map_of (map_erase k m) = (map_of m)(k := None)"
  by (induction m) (auto simp: map_erase_def)

lemma map_ok_erase: "map_ok m \<Longrightarrow> map_ok (map_erase k m)"
  by (induction m) (auto simp: map_erase_def)

text \<open>Taking out what was put in restores the list itself.\<close>

lemma map_erase_assign:
  "map_ok m \<Longrightarrow> k \<notin> dom (map_of m) \<Longrightarrow> map_erase k (map_assign k v m) = m"
proof (induction m)
  case (Cons e m)
  then have k: "k \<noteq> fst e" "k \<notin> dom (map_of m)" by (auto split: if_splits)
  then have "filter (\<lambda>e. fst e \<noteq> k) m = m"
    by (auto simp: filter_id_iff dom_map_of_conv_image_fst)
  with k Cons show ?case by (auto simp: map_erase_def split: if_splits)
qed (simp add: map_erase_def)

interpretation std_map: ordered_container map_of map_assign map_erase map_ok "\<lambda>m. m"
  by unfold_locales (simp_all add: map_of_assign map_of_erase map_ok_assign map_ok_erase,
    simp add: map_ok_def)

subsection \<open>std::set\<close>

type_synonym 'k std_set = "'k list"

definition set_insert :: "'k::linorder \<Rightarrow> 'k std_set \<Rightarrow> 'k std_set" where
  "set_insert k s = insort_insert k s"

definition set_erase :: "'k \<Rightarrow> 'k std_set \<Rightarrow> 'k std_set" where
  "set_erase k s = filter (\<lambda>x. x \<noteq> k) s"

definition set_ok :: "'k::linorder std_set \<Rightarrow> bool" where
  "set_ok s \<longleftrightarrow> sorted s \<and> distinct s"

lemma set_ok_Nil [simp]: "set_ok []"
  by (simp add: set_ok_def)

lemma set_set_insert [simp]: "set (set_insert k s) = insert k (set s)"
  by (simp add: set_insert_def set_insort_insert)

lemma set_set_erase [simp]: "set (set_erase k s) = set s - {k}"
  by (auto simp: set_erase_def)

lemma set_ok_insert [simp]: "set_ok s \<Longrightarrow> set_ok (set_insert k s)"
  by (simp add: set_ok_def set_insert_def sorted_insort_insert distinct_insort_insert)

lemma set_ok_erase [simp]: "set_ok s \<Longrightarrow> set_ok (set_erase k s)"
  using sorted_filter [of "\<lambda>x. x" s "\<lambda>x. x \<noteq> k"] by (simp add: set_ok_def set_erase_def)

interpretation std_set: key_set "\<lambda>k s. k \<in> set s" set_insert set_erase set_ok
  by unfold_locales auto

lemma set_erase_insert: "set_ok s \<Longrightarrow> k \<notin> set s \<Longrightarrow> set_erase k (set_insert k s) = s"
  using set_ok_erase [OF set_ok_insert, of s k k]
  by (intro sorted_distinct_set_unique) (auto simp: set_ok_def)

lemma set_insert_id: "set_ok s \<Longrightarrow> k \<in> set s \<Longrightarrow> set_insert k s = s"
  by (simp add: set_insert_def insort_insert_triv)

lemma set_erase_id: "k \<notin> set s \<Longrightarrow> set_erase k s = s"
  by (auto simp: set_erase_def filter_id_iff)

subsection \<open>std::unordered_map\<close>

text \<open>
  \<open>m[k] = v\<close> overwrites in place or adds an entry somewhere; the list puts it in front. No result
  below depends on the position.
\<close>

primrec hash_assign :: "'k \<Rightarrow> 'v \<Rightarrow> ('k \<times> 'v) list \<Rightarrow> ('k \<times> 'v) list" where
  "hash_assign k v [] = [(k, v)]"
| "hash_assign k v (e # m) = (if fst e = k then (k, v) # m else e # hash_assign k v m)"

definition hash_erase :: "'k \<Rightarrow> ('k \<times> 'v) list \<Rightarrow> ('k \<times> 'v) list" where
  "hash_erase k m = filter (\<lambda>e. fst e \<noteq> k) m"

definition hash_ok :: "('k \<times> 'v) list \<Rightarrow> bool" where
  "hash_ok m \<longleftrightarrow> distinct (map fst m)"

lemma hash_ok_Nil [simp]: "hash_ok []"
  by (simp add: hash_ok_def)

lemma keys_hash_assign: "fst ` set (hash_assign k v m) = insert k (fst ` set m)"
  by (induction m) auto

lemma hash_ok_assign: "hash_ok m \<Longrightarrow> hash_ok (hash_assign k v m)"
  unfolding hash_ok_def
proof (induction m)
  case (Cons e m)
  then show ?case using keys_hash_assign [of k v m] by auto
qed simp

lemma map_of_hash_assign: "map_of (hash_assign k v m) = (map_of m)(k \<mapsto> v)"
  by (induction m) (auto simp: fun_eq_iff)

lemma map_of_hash_erase: "map_of (hash_erase k m) = (map_of m)(k := None)"
  by (induction m) (auto simp: hash_erase_def)

lemma hash_ok_erase: "hash_ok m \<Longrightarrow> hash_ok (hash_erase k m)"
  unfolding hash_ok_def hash_erase_def by (rule distinct_map_filter)

interpretation hash_map: container map_of hash_assign hash_erase hash_ok
  by unfold_locales (simp_all add: map_of_hash_assign map_of_hash_erase hash_ok_assign hash_ok_erase)

subsection \<open>Erasing and changing the first element with a property\<close>

text \<open>\<open>std::find_if\<close> followed by \<open>erase\<close> of the element found, or by a change of it in place.\<close>

primrec erase_first :: "('a \<Rightarrow> bool) \<Rightarrow> 'a list \<Rightarrow> 'a list" where
  "erase_first P [] = []"
| "erase_first P (x # xs) = (if P x then xs else x # erase_first P xs)"

primrec update_first :: "('a \<Rightarrow> bool) \<Rightarrow> ('a \<Rightarrow> 'a) \<Rightarrow> 'a list \<Rightarrow> 'a list" where
  "update_first P f [] = []"
| "update_first P f (x # xs) = (if P x then f x # xs else x # update_first P f xs)"

lemma erase_first_absent: "list_all (\<lambda>x. \<not> P x) xs \<Longrightarrow> erase_first P xs = xs"
  by (induction xs) auto

lemma update_first_absent: "list_all (\<lambda>x. \<not> P x) xs \<Longrightarrow> update_first P f xs = xs"
  by (induction xs) auto

lemma erase_first_key:
  "distinct (map f xs) \<Longrightarrow> erase_first (\<lambda>x. f x = k) xs = filter (\<lambda>x. f x \<noteq> k) xs"
proof (induction xs)
  case (Cons x xs)
  then have "f x \<notin> f ` set xs" by simp
  then have "f x = k \<Longrightarrow> filter (\<lambda>x. f x \<noteq> k) xs = xs" by (auto simp: filter_id_iff image_iff)
  with Cons show ?case by simp
qed simp

lemma update_first_key:
  "distinct (map f xs) \<Longrightarrow>
    update_first (\<lambda>x. f x = k) g xs = map (\<lambda>x. if f x = k then g x else x) xs"
proof (induction xs)
  case (Cons x xs)
  then have "f x \<notin> f ` set xs" by simp
  then have "f x = k \<Longrightarrow> map (\<lambda>x. if f x = k then g x else x) xs = xs"
    by (intro map_idI) (auto simp: image_iff)
  with Cons show ?case by simp
qed simp

lemma map_update_first:
  "(\<And>x. P x \<Longrightarrow> f (g x) = f x) \<Longrightarrow> map f (update_first P g xs) = map f xs"
  by (induction xs) auto

end
