(* ===== verification/Std_Text.thy ===== *)
theory Std_Text
  imports Prelude
begin

section \<open>Text: numbers and times as strings\<close>

text \<open>
  \<open>std::to_string\<close> of an integer and the two \<open>strftime\<close> formats of the sources, with the lemmas that
  different numbers and different times give different strings. The broken-down time \<open>struct tm\<close> comes
  from \<open>localtime\<close>, which depends on the time zone of the machine, and is an input of the model.
\<close>

subsection \<open>Decimal digits\<close>

definition digit :: "nat \<Rightarrow> char" where
  "digit d = char_of (48 + d mod 10)"

fun nat_to_string :: "nat \<Rightarrow> string" where
  "nat_to_string n = (if n < 10 then [digit n] else nat_to_string (n div 10) @ [digit n])"

declare nat_to_string.simps [simp del]

definition to_string :: "int \<Rightarrow> string" where
  "to_string i = (if i < 0 then CHR ''-'' # nat_to_string (nat (- i)) else nat_to_string (nat i))"

text \<open>A number printed with a fixed count of digits, zeros in front (\<open>%02d\<close> and the like).\<close>

primrec padded :: "nat \<Rightarrow> nat \<Rightarrow> string" where
  "padded 0 n = []"
| "padded (Suc w) n = padded w (n div 10) @ [digit n]"

definition digit_value :: "char \<Rightarrow> nat" where
  "digit_value c = of_char c - 48"

lemma digit_value [simp]: "digit_value (digit d) = d mod 10"
  by (simp add: digit_value_def digit_def of_char_of)

definition digits_value :: "string \<Rightarrow> nat" where
  "digits_value s = foldl (\<lambda>n c. 10 * n + digit_value c) 0 s"

lemma digits_value_snoc [simp]: "digits_value (s @ [c]) = 10 * digits_value s + digit_value c"
  by (simp add: digits_value_def)

lemma digits_value_Nil [simp]: "digits_value [] = 0"
  by (simp add: digits_value_def)

lemma digits_value_nat_to_string [simp]: "digits_value (nat_to_string n) = n"
proof (induction n rule: nat_to_string.induct)
  case (1 n)
  then show ?case
    using digits_value_snoc [of "[]" "digit n"]
    by (subst nat_to_string.simps) (auto simp del: digits_value_snoc simp: digits_value_snoc)
qed

lemma digits_value_padded: "digits_value (padded w n) = n mod 10 ^ w"
  by (induction w arbitrary: n) (simp_all add: mod_mult2_eq)

lemma length_padded [simp]: "length (padded w n) = w"
  by (induction w arbitrary: n) simp_all

lemma digit_chars [simp]:
  "digit 0 = CHR ''0''" "digit (Suc 0) = CHR ''1''" "digit 2 = CHR ''2''" "digit 3 = CHR ''3''"
  "digit 4 = CHR ''4''" "digit 5 = CHR ''5''" "digit 6 = CHR ''6''" "digit 7 = CHR ''7''"
  "digit 8 = CHR ''8''" "digit 9 = CHR ''9''"
  by code_simp+

lemma of_char_digit: "(of_char (digit d) :: nat) = 48 + d mod 10"
  by (simp add: digit_def of_char_of)

lemma digit_not_special: "digit d \<noteq> CHR ''-''" "digit d \<noteq> CHR 0x00" "digit d \<noteq> CHR ''.''"
proof -
  have "digit d \<noteq> c" if "(of_char c :: nat) < 48" for c
    using that of_char_digit [of d] by (metis not_add_less1)
  then show "digit d \<noteq> CHR ''-''" "digit d \<noteq> CHR 0x00" "digit d \<noteq> CHR ''.''" by simp_all
qed

lemma nat_to_string_digits: "c \<in> set (nat_to_string n) \<Longrightarrow> \<exists>d. c = digit d"
  by (induction n rule: nat_to_string.induct)
    (subst (asm) nat_to_string.simps, auto split: if_splits)

lemma nat_to_string_hd: "hd (nat_to_string n) \<noteq> CHR ''-''" "nat_to_string n \<noteq> []"
proof -
  show ne: "nat_to_string n \<noteq> []" by (subst nat_to_string.simps) simp
  then show "hd (nat_to_string n) \<noteq> CHR ''-''"
    using nat_to_string_digits [OF hd_in_set [OF ne]] digit_not_special by metis
qed

lemma nat_to_string_inj: "nat_to_string m = nat_to_string n \<Longrightarrow> m = n"
  by (metis digits_value_nat_to_string)

lemma to_string_inj: "to_string i = to_string j \<Longrightarrow> i = j"
  using nat_to_string_hd [of "nat i"] nat_to_string_hd [of "nat j"]
    nat_to_string_hd [of "nat (- i)"] nat_to_string_hd [of "nat (- j)"]
  by (auto simp: to_string_def split: if_splits dest!: nat_to_string_inj)
    (metis list.sel(1))+

lemma to_string_no_nul [simp]: "no_nul (to_string i)"
  using nat_to_string_digits digit_not_special
  by (fastforce simp: to_string_def no_nul_def)

subsection \<open>Broken-down times\<close>

text \<open>The fields as \<open>strftime\<close> prints them: the full year, months and days from 1.\<close>

record tm =
  tm_year :: nat
  tm_mon :: nat
  tm_mday :: nat
  tm_hour :: nat
  tm_min :: nat
  tm_sec :: nat

definition tm_ok :: "tm \<Rightarrow> bool" where
  "tm_ok t \<longleftrightarrow> tm_year t < 10000 \<and> tm_mon t < 100 \<and> tm_mday t < 100 \<and> tm_hour t < 100 \<and>
     tm_min t < 100 \<and> tm_sec t < 100"

text \<open>The formats \<open>%Y%m%d%H%M%S\<close> and \<open>%Y-%m-%d %H:%M:%S\<close>, for years of four digits.\<close>

definition compact_time :: "tm \<Rightarrow> string" where
  "compact_time t = padded 4 (tm_year t) @ padded 2 (tm_mon t) @ padded 2 (tm_mday t) @
     padded 2 (tm_hour t) @ padded 2 (tm_min t) @ padded 2 (tm_sec t)"

definition readable_time :: "tm \<Rightarrow> string" where
  "readable_time t = padded 4 (tm_year t) @ ''-'' @ padded 2 (tm_mon t) @ ''-'' @
     padded 2 (tm_mday t) @ '' '' @ padded 2 (tm_hour t) @ '':'' @ padded 2 (tm_min t) @ '':'' @
     padded 2 (tm_sec t)"

lemma length_compact_time: "length (compact_time t) = 14"
  by (simp add: compact_time_def)

lemma padded_inj: "padded w m = padded w n \<Longrightarrow> m < 10 ^ w \<Longrightarrow> n < 10 ^ w \<Longrightarrow> m = n"
  by (metis digits_value_padded mod_less)

lemma padded_append_iff:
  "padded w m @ r = padded w n @ s \<longleftrightarrow> padded w m = padded w n \<and> r = s"
  by simp

lemma padded_inj_digits:
  "padded 4 m = padded 4 n \<Longrightarrow> m < 10000 \<Longrightarrow> n < 10000 \<Longrightarrow> m = n"
  "padded 2 m = padded 2 n \<Longrightarrow> m < 100 \<Longrightarrow> n < 100 \<Longrightarrow> m = n"
  using padded_inj [of 4 m n] padded_inj [of 2 m n] by simp_all

lemma compact_time_inj:
  assumes "compact_time t = compact_time u" "tm_ok t" "tm_ok u"
  shows "t = u"
proof -
  note eqs = assms(1) [unfolded compact_time_def padded_append_iff]
  note bounds = assms(2,3) [unfolded tm_ok_def]
  have "tm_year t = tm_year u" using eqs bounds by (blast intro: padded_inj_digits)
  moreover have "tm_mon t = tm_mon u" using eqs bounds by (blast intro: padded_inj_digits)
  moreover have "tm_mday t = tm_mday u" using eqs bounds by (blast intro: padded_inj_digits)
  moreover have "tm_hour t = tm_hour u" using eqs bounds by (blast intro: padded_inj_digits)
  moreover have "tm_min t = tm_min u" using eqs bounds by (blast intro: padded_inj_digits)
  moreover have "tm_sec t = tm_sec u" using eqs bounds by (blast intro: padded_inj_digits)
  ultimately show ?thesis by (intro tm.equality) simp_all
qed

lemma padded_no_nul [simp]: "no_nul (padded w n)"
  by (induction w arbitrary: n) (use digit_not_special in auto)

lemma compact_time_no_nul [simp]: "no_nul (compact_time t)"
  by (simp add: compact_time_def)

end
