(* ===== verification/Logger.thy ===== *)
theory Logger
  imports Std_Containers Std_Text
begin

section \<open>The logger (rbloger.cpp)\<close>

text \<open>
  \<open>RbmqLogger\<close> writes messages to a file, drops a message that was logged too often within a time
  window, and moves a file that has grown too large to a backup. Time points of the steady clock are
  nanoseconds. What a call reads from the machine is its argument \<open>log_input\<close>: the two readings of
  the steady clock, the local times of a rotation and of a line, and which of the file operations the
  operating system allows.
  The effects are on a \<open>log_world\<close>: the files and the lines printed to the error stream.
  \<open>std::hash\<close> is implementation-defined and a parameter.

  The lemmas show which entries the clean-up keeps, how many copies of a message a window lets
  through, that the log file and its backups lose no line unless two rotations share a second, and
  what each failing file operation leaves behind.
\<close>

subsection \<open>State\<close>

record LogInfo =
  first_time :: int
  count :: i32

record RbmqLogger =
  LogMap :: "(u64 \<times> LogInfo) list"
  log_threshold :: i32
  log_time_window :: i32
  log_filepath :: string
  max_log_size :: size_type

definition new_RbmqLogger :: RbmqLogger where
  "new_RbmqLogger =
     \<lparr>LogMap = [], log_threshold = 5, log_time_window = 10, log_filepath = ''rbmsg.log'',
      max_log_size = 4 * 1024 * 1024\<rparr>"

definition setThreshold :: "i32 \<Rightarrow> i32 \<Rightarrow> RbmqLogger \<Rightarrow> RbmqLogger" where
  "setThreshold threshold time_window lg =
     lg\<lparr>log_threshold := threshold, log_time_window := time_window\<rparr>"

definition setLogFile :: "string \<Rightarrow> RbmqLogger \<Rightarrow> RbmqLogger" where
  "setLogFile filepath lg = lg\<lparr>log_filepath := filepath\<rparr>"

definition setMaxLogSize :: "size_type \<Rightarrow> RbmqLogger \<Rightarrow> RbmqLogger" where
  "setMaxLogSize max_size lg = lg\<lparr>max_log_size := max_size\<rparr>"

subsection \<open>The machine\<close>

datatype inode = File string | Directory

record log_world =
  disk :: "string \<Rightarrow> inode option"
  stderr_lines :: "string list"

record log_input =
  log_clock :: int
  cleanup_clock :: int
  rotate_time :: tm
  line_time :: tm
  can_read :: bool
  directory_tellg :: "size_type option"
  can_stat :: bool
  can_mkdir :: bool
  can_rename :: bool
  can_append :: bool

definition put_cerr :: "string \<Rightarrow> log_world \<Rightarrow> log_world" where
  "put_cerr line w = w\<lparr>stderr_lines := stderr_lines w @ [line]\<rparr>"

text \<open>\<open>std::ifstream\<close> opened at the end of the file: \<open>None\<close> when it does not open, or \<open>tellg\<close>.\<close>

definition tellg_at_end :: "log_input \<Rightarrow> string \<Rightarrow> log_world \<Rightarrow> size_type option" where
  "tellg_at_end inp path w =
     (case disk w path of
        Some (File s) \<Rightarrow> if can_read inp then Some (of_nat (length s)) else None
      | Some Directory \<Rightarrow> directory_tellg inp
      | None \<Rightarrow> None)"

text \<open>\<open>std::rename\<close>: the moved file replaces a file of the new name, not a directory.\<close>

definition os_rename :: "log_input \<Rightarrow> string \<Rightarrow> string \<Rightarrow> log_world \<Rightarrow> log_world option" where
  "os_rename inp old new w =
     (case disk w old of
        None \<Rightarrow> None
      | Some x \<Rightarrow>
          if can_rename inp \<and> disk w new \<noteq> Some Directory
          then Some (w\<lparr>disk := (disk w)(old := None, new \<mapsto> x)\<rparr>)
          else None)"

text \<open>\<open>std::ofstream\<close> in append mode, one insertion and the implicit flush of \<open>std::endl\<close>.\<close>

definition os_append :: "log_input \<Rightarrow> string \<Rightarrow> string \<Rightarrow> log_world \<Rightarrow> log_world option" where
  "os_append inp path line w =
     (if can_append inp then
        case disk w path of
          None \<Rightarrow> Some (w\<lparr>disk := (disk w)(path \<mapsto> File line)\<rparr>)
        | Some (File s) \<Rightarrow> Some (w\<lparr>disk := (disk w)(path \<mapsto> File (s @ line))\<rparr>)
        | Some Directory \<Rightarrow> None
      else None)"

subsection \<open>Dropping expired entries\<close>

text \<open>\<open>duration_cast<seconds>\<close> truncates towards zero.\<close>

definition seconds_between :: "int \<Rightarrow> int \<Rightarrow> int" where
  "seconds_between t u = (t - u) sdiv 1000000000"

primrec erase_expired :: "int \<Rightarrow> i32 \<Rightarrow> (u64 \<times> LogInfo) list \<Rightarrow> (u64 \<times> LogInfo) list" where
  "erase_expired now window [] = []"
| "erase_expired now window (e # m) =
     (if seconds_between now (first_time (snd e)) > sint window then erase_expired now window m
      else e # erase_expired now window m)"

definition cleanupExpiredLogs :: "log_input \<Rightarrow> RbmqLogger \<Rightarrow> RbmqLogger" where
  "cleanupExpiredLogs inp lg =
     lg\<lparr>LogMap := erase_expired (cleanup_clock inp) (log_time_window lg) (LogMap lg)\<rparr>"

subsection \<open>Writing a message to the file\<close>

definition backup_filename :: "log_input \<Rightarrow> string" where
  "backup_filename inp = ''logbak/log_'' @ compact_time (rotate_time inp) @ ''.bak''"

definition log_line :: "log_input \<Rightarrow> string \<Rightarrow> string" where
  "log_line inp message =
     ''['' @ readable_time (line_time inp) @ ''] '' @ message @ [CHR 0x0A]"

text \<open>The check of the backup directory: \<open>False\<close> when \<open>writeLog\<close> returns early.\<close>

definition ensure_logbak :: "log_input \<Rightarrow> log_world \<Rightarrow> bool \<times> log_world" where
  "ensure_logbak inp w =
     (if disk w ''logbak'' = None \<or> \<not> can_stat inp then
        if disk w ''logbak'' \<noteq> None \<or> \<not> can_mkdir inp
        then (False, put_cerr ''Failed to create logbak directory!'' w)
        else (True, w\<lparr>disk := (disk w)(''logbak'' \<mapsto> Directory)\<rparr>)
      else if disk w ''logbak'' \<noteq> Some Directory
        then (False, put_cerr ''logbak is not a directory!'' w)
      else (True, w))"

definition append_line :: "log_input \<Rightarrow> string \<Rightarrow> string \<Rightarrow> log_world \<Rightarrow> log_world" where
  "append_line inp path message w =
     (case os_append inp path (log_line inp message) w of
        None \<Rightarrow> put_cerr (''Failed to open log file: '' @ path) w
      | Some w' \<Rightarrow> w')"

definition writeLog :: "RbmqLogger \<Rightarrow> log_input \<Rightarrow> string \<Rightarrow> log_world \<Rightarrow> log_world" where
  "writeLog lg inp message w =
     (if log_filepath lg = '''' then put_cerr ''Log file path is not set!'' w
      else
        case tellg_at_end inp (log_filepath lg) w of
          Some file_size \<Rightarrow>
            if file_size \<ge> max_log_size lg then
              (case ensure_logbak inp w of
                 (False, w) \<Rightarrow> w
               | (True, w) \<Rightarrow>
                   (case os_rename inp (log_filepath lg) (backup_filename inp) w of
                      None \<Rightarrow> put_cerr ''Failed to rename log file to backup!'' w
                    | Some w \<Rightarrow> append_line inp (log_filepath lg) message w))
            else append_line inp (log_filepath lg) message w
        | None \<Rightarrow> append_line inp (log_filepath lg) message w)"

subsection \<open>Logging a message\<close>

definition Log ::
  "(string \<Rightarrow> u64) \<Rightarrow> log_input \<Rightarrow> string \<Rightarrow> RbmqLogger \<times> log_world \<Rightarrow> RbmqLogger \<times> log_world" where
  "Log hash inp message = (\<lambda>(lg, w).
     let current_time = log_clock inp;
         log_hash = hash message;
         lg = cleanupExpiredLogs inp lg
     in case map_of (LogMap lg) log_hash of
          Some log_info \<Rightarrow>
            if seconds_between current_time (first_time log_info) \<le> sint (log_time_window lg) then
              let log_info = log_info\<lparr>count := count log_info + 1\<rparr>;
                  lg = lg\<lparr>LogMap := hash_assign log_hash log_info (LogMap lg)\<rparr>
              in if log_threshold lg \<le>s count log_info then (lg, w)
                 else (lg, writeLog lg inp message w)
            else
              let log_info = log_info\<lparr>count := 1, first_time := current_time\<rparr>;
                  lg = lg\<lparr>LogMap := hash_assign log_hash log_info (LogMap lg)\<rparr>
              in (lg, writeLog lg inp message w)
        | None \<Rightarrow>
            let lg = lg\<lparr>LogMap := hash_assign log_hash \<lparr>first_time = current_time, count = 1\<rparr> (LogMap lg)\<rparr>
            in (lg, writeLog lg inp message w))"

subsection \<open>The clean-up\<close>

lemma sdiv_seconds_le:
  fixes d :: int
  assumes "0 \<le> W"
  shows "d sdiv 1000000000 \<le> W \<longleftrightarrow> d < (W + 1) * 1000000000"
proof (cases "0 \<le> d")
  case True
  then have "d sdiv 1000000000 = d div 1000000000" by (simp add: signed_divide_int_def sgn_if)
  moreover have "d div 1000000000 \<le> W \<longleftrightarrow> d < (W + 1) * 1000000000"
    using div_mult_mod_eq [of d 1000000000] pos_mod_bound [of 1000000000 d]
      pos_mod_sign [of 1000000000 d] by (simp; linarith)
  ultimately show ?thesis by simp
next
  case False
  then have "d sdiv 1000000000 \<le> 0" by (simp add: signed_divide_int_def sgn_if pos_imp_zdiv_nonneg_iff)
  moreover have "d < (W + 1) * 1000000000" using False assms by (simp; linarith)
  ultimately show ?thesis using assms by simp
qed

lemma seconds_between_le:
  "0 \<le> W \<Longrightarrow> seconds_between t u \<le> W \<longleftrightarrow> t - u < (W + 1) * 1000000000"
  by (simp add: seconds_between_def sdiv_seconds_le)

definition unexpired :: "int \<Rightarrow> i32 \<Rightarrow> LogInfo \<Rightarrow> bool" where
  "unexpired now window info \<longleftrightarrow> seconds_between now (first_time info) \<le> sint window"

lemma erase_expired_filter:
  "erase_expired now window m = filter (\<lambda>e. unexpired now window (snd e)) m"
  by (induction m) (auto simp: unexpired_def)

lemma map_of_filter_distinct:
  "distinct (map fst m) \<Longrightarrow> map_of (filter (\<lambda>e. P (snd e)) m) k =
     (case map_of m k of Some v \<Rightarrow> if P v then Some v else None | None \<Rightarrow> None)"
proof (induction m)
  case (Cons e m)
  then have "map_of m (fst e) = None" by (simp add: map_of_eq_None_iff)
  with Cons show ?case by (auto split: option.splits)
qed simp

lemma lookup_after_cleanup:
  assumes "hash_ok (LogMap lg)"
  shows "map_of (LogMap (cleanupExpiredLogs inp lg)) k =
    (case map_of (LogMap lg) k of
       Some i \<Rightarrow> if unexpired (cleanup_clock inp) (log_time_window lg) i then Some i else None
     | None \<Rightarrow> None)"
  using assms
  by (simp add: cleanupExpiredLogs_def erase_expired_filter hash_ok_def map_of_filter_distinct)

lemma hash_ok_cleanup:
  "hash_ok (LogMap lg) \<Longrightarrow> hash_ok (LogMap (cleanupExpiredLogs inp lg))"
  by (simp add: cleanupExpiredLogs_def erase_expired_filter hash_ok_def distinct_map_filter)

lemma cleanup_fields [simp]:
  "log_threshold (cleanupExpiredLogs inp lg) = log_threshold lg"
  "log_time_window (cleanupExpiredLogs inp lg) = log_time_window lg"
  "log_filepath (cleanupExpiredLogs inp lg) = log_filepath lg"
  "max_log_size (cleanupExpiredLogs inp lg) = max_log_size lg"
  by (simp_all add: cleanupExpiredLogs_def)

subsection \<open>What a call decides\<close>

text \<open>
  The decision of \<open>Log\<close> apart from the writing: the entry it leaves for the message, and whether the
  message goes to \<open>writeLog\<close>.
\<close>

definition next_info :: "log_input \<Rightarrow> RbmqLogger \<Rightarrow> LogInfo option \<Rightarrow> LogInfo" where
  "next_info inp lg found =
     (case found of
        Some info \<Rightarrow>
          if unexpired (log_clock inp) (log_time_window lg) info
          then info\<lparr>count := count info + 1\<rparr> else \<lparr>first_time = log_clock inp, count = 1\<rparr>
      | None \<Rightarrow> \<lparr>first_time = log_clock inp, count = 1\<rparr>)"

definition admits :: "(string \<Rightarrow> u64) \<Rightarrow> log_input \<Rightarrow> string \<Rightarrow> RbmqLogger \<Rightarrow> bool" where
  "admits hash inp m lg =
     (case map_of (LogMap (cleanupExpiredLogs inp lg)) (hash m) of
        Some info \<Rightarrow> unexpired (log_clock inp) (log_time_window lg) info \<longrightarrow>
          \<not> log_threshold lg \<le>s count info + 1
      | None \<Rightarrow> True)"

definition noted :: "(string \<Rightarrow> u64) \<Rightarrow> log_input \<Rightarrow> string \<Rightarrow> RbmqLogger \<Rightarrow> RbmqLogger" where
  "noted hash inp m lg =
     (let entries = LogMap (cleanupExpiredLogs inp lg)
      in lg\<lparr>LogMap := hash_assign (hash m) (next_info inp lg (map_of entries (hash m))) entries\<rparr>)"

lemma writeLog_settings:
  assumes "log_filepath lg = log_filepath lg'" "max_log_size lg = max_log_size lg'"
  shows "writeLog lg = writeLog lg'"
  unfolding writeLog_def assms by (rule refl)

lemma noted_fields [simp]:
  "log_threshold (noted hash inp m lg) = log_threshold lg"
  "log_time_window (noted hash inp m lg) = log_time_window lg"
  "log_filepath (noted hash inp m lg) = log_filepath lg"
  "max_log_size (noted hash inp m lg) = max_log_size lg"
  by (simp_all add: noted_def Let_def)

lemma Log_eq:
  "Log hash inp m (lg, w) =
     (noted hash inp m lg, if admits hash inp m lg then writeLog lg inp m w else w)"
proof -
  have w: "writeLog (lg'\<lparr>LogMap := x\<rparr>) = writeLog lg"
    if "lg' = cleanupExpiredLogs inp lg" for lg' x
    using that by (intro writeLog_settings) simp_all
  have reset: "info\<lparr>count := c, first_time := t\<rparr> = \<lparr>first_time = t, count = c\<rparr>"
    for info :: LogInfo and c t by (cases info) simp
  show ?thesis
    by (auto simp: Log_def reset noted_def admits_def next_info_def unexpired_def Let_def w
        split: option.splits)
qed

lemma hash_ok_noted: "hash_ok (LogMap lg) \<Longrightarrow> hash_ok (LogMap (noted hash inp m lg))"
  by (simp add: noted_def Let_def hash_ok_assign hash_ok_cleanup)

lemma lookup_noted:
  "map_of (LogMap (noted hash inp m lg)) =
     (map_of (LogMap (cleanupExpiredLogs inp lg)))
       (hash m \<mapsto> next_info inp lg (map_of (LogMap (cleanupExpiredLogs inp lg)) (hash m)))"
  by (simp add: noted_def Let_def map_of_hash_assign next_info_def)

subsection \<open>Bursts\<close>

text \<open>A sequence of calls, the calls that reach \<open>writeLog\<close>, and those with a given hash.\<close>

type_synonym log_call = "log_input \<times> string"

definition log_run ::
  "(string \<Rightarrow> u64) \<Rightarrow> log_call list \<Rightarrow> RbmqLogger \<times> log_world \<Rightarrow> RbmqLogger \<times> log_world" where
  "log_run hash = fold (\<lambda>(inp, m). Log hash inp m)"

primrec admitted :: "(string \<Rightarrow> u64) \<Rightarrow> log_call list \<Rightarrow> RbmqLogger \<Rightarrow> log_call list" where
  "admitted hash [] lg = []"
| "admitted hash (c # cs) lg =
     (if admits hash (fst c) (snd c) lg then [c] else []) @
     admitted hash cs (noted hash (fst c) (snd c) lg)"

abbreviation with_hash :: "(string \<Rightarrow> u64) \<Rightarrow> u64 \<Rightarrow> log_call list \<Rightarrow> log_call list" where
  "with_hash hash h \<equiv> filter (\<lambda>c. hash (snd c) = h)"

lemma log_run_world:
  "snd (log_run hash cs (lg, w)) = fold (\<lambda>(inp, m). writeLog lg inp m) (admitted hash cs lg) w"
proof (induction cs arbitrary: lg w)
  case (Cons c cs)
  have "writeLog (noted hash inp m lg) = writeLog lg" for inp m
    by (rule writeLog_settings) simp_all
  with Cons show ?case
    by (auto simp: log_run_def Log_eq split_beta)
qed (simp add: log_run_def)

text \<open>The clocks of a call, read not later than \<open>window\<close> seconds after \<open>t0\<close>, to the second.\<close>

definition in_window :: "int \<Rightarrow> i32 \<Rightarrow> log_call \<Rightarrow> bool" where
  "in_window t0 window c \<longleftrightarrow>
     t0 \<le> log_clock (fst c) \<and>
     log_clock (fst c) < t0 + (sint window + 1) * 1000000000 \<and>
     cleanup_clock (fst c) < t0 + (sint window + 1) * 1000000000"

lemma in_window_unexpired:
  assumes "in_window t0 window c" "0 \<le> sint window" "t0 \<le> first_time info"
  shows "unexpired (log_clock (fst c)) window info" "unexpired (cleanup_clock (fst c)) window info"
  using assms by (auto simp: in_window_def unexpired_def seconds_between_le)

lemma next_count:
  fixes c :: i32
  assumes "sint c + 1 < 2 ^ 31" "0 \<le> sint c"
  shows "sint (c + 1) = sint c + 1"
  using assms by (simp add: sint_word_ariths signed_take_bit_int_eq_self)

lemma burst_counted:
  assumes "hash_ok (LogMap lg)" "0 \<le> sint (log_time_window lg)"
    and "list_all (in_window t0 (log_time_window lg)) cs"
    and "map_of (LogMap lg) h = Some info" "t0 \<le> first_time info"
    and "1 \<le> sint (count info)" "sint (count info) + int (length cs) < 2 ^ 31"
  shows "with_hash hash h (admitted hash cs lg) =
    take (nat (sint (log_threshold lg) - 1 - sint (count info))) (with_hash hash h cs)"
  using assms
proof (induction cs arbitrary: lg info)
  case (Cons c cs)
  let ?lg = "noted hash (fst c) (snd c) lg"
  note live = in_window_unexpired [OF _ Cons.prems(2,5), of c]
  have found: "map_of (LogMap (cleanupExpiredLogs (fst c) lg)) h = Some info"
    using Cons.prems live by (simp add: lookup_after_cleanup)
  note IH = Cons.IH [of ?lg, OF hash_ok_noted [OF Cons.prems(1)]]
  show ?case
  proof (cases "hash (snd c) = h")
    case False
    then have "map_of (LogMap ?lg) h = Some info" by (simp add: lookup_noted found)
    then show ?thesis using IH [of info] Cons.prems False by simp
  next
    case True
    have c: "sint (count info + 1) = sint (count info) + 1"
      using Cons.prems by (intro next_count) simp_all
    have "map_of (LogMap ?lg) h = Some (info\<lparr>count := count info + 1\<rparr>)"
      using live Cons.prems(3) by (simp add: lookup_noted found True next_info_def)
    then have tail: "with_hash hash h (admitted hash cs ?lg) =
        take (nat (sint (log_threshold lg) - 1 - sint (count info) - 1)) (with_hash hash h cs)"
      using IH [of "info\<lparr>count := count info + 1\<rparr>"] Cons.prems c by (simp add: diff_diff_eq)
    have "admits hash (fst c) (snd c) lg \<longleftrightarrow> sint (count info) + 1 < sint (log_threshold lg)"
      using live Cons.prems(3) c by (simp add: admits_def found True word_sle_eq not_le)
    moreover have "nat (sint (log_threshold lg) - 1 - sint (count info)) =
        (if sint (count info) + 1 < sint (log_threshold lg)
         then Suc (nat (sint (log_threshold lg) - 1 - sint (count info) - 1)) else 0)"
      by auto
    ultimately show ?thesis
      using tail True by simp
  qed
qed simp

lemma burst_fresh:
  assumes "hash_ok (LogMap lg)" "0 \<le> sint (log_time_window lg)"
    and "list_all (in_window t0 (log_time_window lg)) cs"
    and "map_of (LogMap lg) h = None" "length cs < 2 ^ 31"
  shows "with_hash hash h (admitted hash cs lg) =
    take (max 1 (nat (sint (log_threshold lg) - 1))) (with_hash hash h cs)"
  using assms
proof (induction cs arbitrary: lg)
  case (Cons c cs)
  let ?lg = "noted hash (fst c) (snd c) lg"
  have found: "map_of (LogMap (cleanupExpiredLogs (fst c) lg)) h = None"
    using Cons.prems by (simp add: lookup_after_cleanup)
  show ?case
  proof (cases "hash (snd c) = h")
    case False
    then have "map_of (LogMap ?lg) h = None" by (simp add: lookup_noted found)
    then show ?thesis
      using Cons.IH [of ?lg, OF hash_ok_noted [OF Cons.prems(1)]] Cons.prems False by simp
  next
    case True
    let ?info = "\<lparr>first_time = log_clock (fst c), count = 1\<rparr> :: LogInfo"
    have t0: "t0 \<le> log_clock (fst c)" using Cons.prems by (simp add: in_window_def)
    have "map_of (LogMap ?lg) h = Some ?info"
      by (simp add: lookup_noted found True next_info_def)
    then have "with_hash hash h (admitted hash cs ?lg) =
        take (nat (sint (log_threshold lg) - 2)) (with_hash hash h cs)"
      using burst_counted [of ?lg t0 cs h ?info hash, OF hash_ok_noted [OF Cons.prems(1)]] Cons.prems
        t0 by simp
    moreover have "max 1 (nat (sint (log_threshold lg) - 1)) = Suc (nat (sint (log_threshold lg) - 2))"
      by (simp add: max_def) linarith
    ultimately show ?thesis
      using True found by (simp add: admits_def)
  qed
qed simp

subsection \<open>The log file\<close>

definition file_size :: "string \<Rightarrow> log_world \<Rightarrow> nat" where
  "file_size path w = (case disk w path of Some (File s) \<Rightarrow> length s | _ \<Rightarrow> 0)"

lemma put_cerr_fields [simp]:
  "disk (put_cerr l w) = disk w" "stderr_lines (put_cerr l w) = stderr_lines w @ [l]"
  by (simp_all add: put_cerr_def)

lemma file_size_put_cerr [simp]: "file_size path (put_cerr l w) = file_size path w"
  by (simp add: file_size_def)

lemma append_line_cases:
  obtains (refused) "append_line inp path m w = put_cerr (''Failed to open log file: '' @ path) w"
  | (created) "disk w path = None"
      "append_line inp path m w = w\<lparr>disk := (disk w)(path \<mapsto> File (log_line inp m))\<rparr>"
  | (appended) s where "disk w path = Some (File s)"
      "append_line inp path m w = w\<lparr>disk := (disk w)(path \<mapsto> File (s @ log_line inp m))\<rparr>"
proof (cases "can_append inp")
  case False
  then show ?thesis by (intro refused) (simp add: append_line_def os_append_def)
next
  case True
  consider (missing) "disk w path = None" | (folder) "disk w path = Some Directory"
    | (regular) s where "disk w path = Some (File s)"
    by (metis inode.exhaust option.exhaust)
  then show ?thesis
  proof cases
    case missing
    with True show ?thesis by (intro created) (simp_all add: append_line_def os_append_def)
  next
    case folder
    with True show ?thesis by (intro refused) (simp add: append_line_def os_append_def)
  next
    case regular
    with True show ?thesis by (intro appended) (simp_all add: append_line_def os_append_def)
  qed
qed

lemma file_size_append_line:
  "file_size path (append_line inp path m w) \<le> file_size path w + length (log_line inp m)"
  by (cases rule: append_line_cases [of inp path m w]) (auto simp: file_size_def)

text \<open>What the check of the backup directory can have done to the world.\<close>

definition made_logbak :: "log_world \<Rightarrow> log_world \<Rightarrow> bool" where
  "made_logbak w w' \<longleftrightarrow>
     w' = w \<or> disk w ''logbak'' = None \<and> w' = w\<lparr>disk := (disk w)(''logbak'' \<mapsto> Directory)\<rparr>"

lemma ensure_logbak_cases:
  obtains (refused) l where "ensure_logbak inp w = (False, put_cerr l w)"
  | (ready) w' where "ensure_logbak inp w = (True, w')" "made_logbak w w'"
proof (cases "ensure_logbak inp w")
  case (Pair b w1)
  then have "b \<and> made_logbak w w1 \<or> \<not> b \<and> (\<exists>l. w1 = put_cerr l w)"
    by (auto simp: ensure_logbak_def made_logbak_def split: if_splits)
  with Pair show ?thesis by (cases b) (use refused ready in auto)
qed

lemma made_logbak_size: "made_logbak w w' \<Longrightarrow> file_size path w' = file_size path w"
  by (auto simp: made_logbak_def file_size_def)

lemma made_logbak_stderr: "made_logbak w w' \<Longrightarrow> stderr_lines w' = stderr_lines w"
  by (auto simp: made_logbak_def)

lemma os_rename_gone:
  assumes "os_rename inp path new w = Some w'"
  shows "path \<noteq> new \<Longrightarrow> disk w' path = None" "stderr_lines w' = stderr_lines w"
  using assms by (auto simp: os_rename_def split: option.splits if_splits)

text \<open>The branches of \<open>writeLog\<close>, with the worlds they go through.\<close>

definition oversized :: "RbmqLogger \<Rightarrow> log_input \<Rightarrow> log_world \<Rightarrow> bool" where
  "oversized lg inp w \<longleftrightarrow>
     (case tellg_at_end inp (log_filepath lg) w of Some n \<Rightarrow> max_log_size lg \<le> n | None \<Rightarrow> False)"

lemma writeLog_small:
  "log_filepath lg \<noteq> [] \<Longrightarrow> \<not> oversized lg inp w \<Longrightarrow>
    writeLog lg inp m w = append_line inp (log_filepath lg) m w"
  by (auto simp: writeLog_def oversized_def split: option.splits)

lemma writeLog_oversized:
  "log_filepath lg \<noteq> [] \<Longrightarrow> oversized lg inp w \<Longrightarrow>
    writeLog lg inp m w =
      (case ensure_logbak inp w of
         (False, w1) \<Rightarrow> w1
       | (True, w1) \<Rightarrow>
           (case os_rename inp (log_filepath lg) (backup_filename inp) w1 of
              None \<Rightarrow> put_cerr ''Failed to rename log file to backup!'' w1
            | Some w2 \<Rightarrow> append_line inp (log_filepath lg) m w2))"
  by (auto simp: writeLog_def oversized_def split: option.splits)

lemma writeLog_cases:
  obtains (refused) l w1 where "writeLog lg inp m w = put_cerr l w1" "made_logbak w w1"
  | (small) "\<not> oversized lg inp w" "writeLog lg inp m w = append_line inp (log_filepath lg) m w"
  | (rotated) w1 w2 where "made_logbak w w1"
      "os_rename inp (log_filepath lg) (backup_filename inp) w1 = Some w2"
      "writeLog lg inp m w = append_line inp (log_filepath lg) m w2"
proof (cases "log_filepath lg = []")
  case True
  show ?thesis
    by (rule refused [of "''Log file path is not set!''" w])
      (simp_all add: writeLog_def True made_logbak_def)
next
  case path: False
  show ?thesis
  proof (cases "oversized lg inp w")
    case False
    with path show ?thesis using small writeLog_small by blast
  next
    case True
    note large = writeLog_oversized [OF path True, of m]
    show ?thesis
    proof (cases rule: ensure_logbak_cases [of inp w])
      case (refused l)
      then show ?thesis using that(1) [of l w] large by (simp add: made_logbak_def)
    next
      case (ready w1)
      then show ?thesis
        using that(1) [of "''Failed to rename log file to backup!''" w1] that(3) [of w1] large
        by (cases "os_rename inp (log_filepath lg) (backup_filename inp) w1") simp_all
    qed
  qed
qed

section \<open>Properties of the logger\<close>

definition sample_tm :: tm where
  "sample_tm =
     \<lparr>tm_year = 2025, tm_mon = 4, tm_mday = 2, tm_hour = 12, tm_min = 30, tm_sec = 5\<rparr>"

definition sample_input :: "int \<Rightarrow> log_input" where
  "sample_input t =
     \<lparr>log_clock = t, cleanup_clock = t, rotate_time = sample_tm, line_time = sample_tm,
      can_read = True, directory_tellg = None, can_stat = True, can_mkdir = True, can_rename = True,
      can_append = True\<rparr>"

definition sample_hash :: "string \<Rightarrow> u64" where
  "sample_hash s = of_nat (length s)"

text \<open>
  C33: A run of \<open>Log\<close> calls on any messages writes exactly its admitted calls, in order. Of the calls
  with one hash, when none is on record at the start and all clocks stay within the time window, the
  admitted ones are the first \<open>max 1 (log_threshold - 1)\<close>: a threshold of 5 lets 4 copies through.
\<close>

theorem log_burst_limited:
  assumes "hash_ok (LogMap lg)" and "0 \<le> sint (log_time_window lg)"
    and "list_all (in_window t0 (log_time_window lg)) calls"
    and "map_of (LogMap lg) h = None" and "length calls < 2 ^ 31"
  shows "snd (log_run hash calls (lg, w)) =
      fold (\<lambda>(inp, m). writeLog lg inp m) (admitted hash calls lg) w \<and>
    with_hash hash h (admitted hash calls lg) =
      take (max 1 (nat (sint (log_threshold lg) - 1))) (with_hash hash h calls)"
  using burst_fresh [OF assms] by (simp add: log_run_world)

theorem log_burst_limited_witness:
  "length (with_hash sample_hash 5
    (admitted sample_hash (replicate 9 (sample_input 7, ''hello'')) new_RbmqLogger)) = 4"
proof -
  have "length (with_hash sample_hash 5 (admitted sample_hash
      (replicate 9 (sample_input 7, ''hello'')) new_RbmqLogger)) =
    length (take (max 1 (nat (sint (log_threshold new_RbmqLogger) - 1)))
      (with_hash sample_hash 5 (replicate 9 (sample_input 7, ''hello''))))"
    by (rule arg_cong [where f = length], rule conjunct2 [OF log_burst_limited [where ?t0.0 = 7]])
      (simp_all add: new_RbmqLogger_def in_window_def sample_input_def list_all_iff)
  also have "\<dots> = 4"
    by (simp add: new_RbmqLogger_def sample_hash_def numeral_eq_Suc)
  finally show ?thesis .
qed

text \<open>
  The clean-up removes exactly the entries older than the time window and changes no other entry,
  whatever the order of the map.
\<close>

lemma cleanup_removes_expired:
  assumes "hash_ok (LogMap lg)"
  shows "map_of (LogMap (cleanupExpiredLogs inp lg)) k = Some info \<longleftrightarrow>
      map_of (LogMap lg) k = Some info \<and>
      seconds_between (cleanup_clock inp) (first_time info) \<le> sint (log_time_window lg)"
  using assms by (auto simp: lookup_after_cleanup unexpired_def hash_ok_cleanup split: option.splits)

text \<open>
  The branch of \<open>Log\<close> that resets an entry older than the window is never taken when the clock
  does not run backwards between its two readings: the clean-up has already removed such entries.
\<close>

lemma reset_branch_unreachable:
  assumes "hash_ok (LogMap lg)" and "log_clock inp \<le> cleanup_clock inp"
    and "0 \<le> sint (log_time_window lg)"
    and "map_of (LogMap (cleanupExpiredLogs inp lg)) k = Some info"
  shows "seconds_between (log_clock inp) (first_time info) \<le> sint (log_time_window lg)"
  using assms
  by (auto simp: lookup_after_cleanup unexpired_def seconds_between_le split: option.splits if_splits)

text \<open>
  C32: As long as the log file can be opened for reading, it never grows past the maximum by more than one
  line, whichever of the other file operations fail: a write that finds it at the maximum moves it away
  first or writes nothing. (When it cannot be opened for reading the code skips the check and appends.)
\<close>

theorem log_size_bounded:
  assumes "can_read inp" and "file_size (log_filepath lg) w < 2 ^ 64"
    and "file_size (log_filepath lg) w < unat (max_log_size lg) + bound"
    and "length (log_line inp m) < bound"
    and "log_filepath lg \<noteq> backup_filename inp"
  shows "file_size (log_filepath lg) (writeLog lg inp m w) < unat (max_log_size lg) + bound"
proof (cases rule: writeLog_cases [of lg inp m w])
  case (refused l w1)
  with assms show ?thesis by (simp add: made_logbak_size)
next
  case small
  have "file_size (log_filepath lg) w < unat (max_log_size lg) \<or>
      file_size (log_filepath lg) w = 0 \<and> append_line inp (log_filepath lg) m w = put_cerr (''Failed to open log file: '' @ log_filepath lg) w \<or>
      disk w (log_filepath lg) = None"
    using small(1) assms(1,2)
    by (auto simp: oversized_def tellg_at_end_def file_size_def not_le word_less_nat_alt unat_of_nat
        append_line_def os_append_def split: option.splits inode.splits)
  then show ?thesis
    using small(2) file_size_append_line [of "log_filepath lg" inp m w] assms
    by (auto simp: file_size_def split: option.splits inode.splits)
next
  case (rotated w1 w2)
  have "file_size (log_filepath lg) w2 = 0"
    using os_rename_gone(1) [OF rotated(2)] assms(5) by (simp add: file_size_def)
  then show ?thesis
    using rotated(3) file_size_append_line [of "log_filepath lg" inp m w2] assms by simp
qed

definition sample_world :: log_world where
  "sample_world =
     \<lparr>disk = [''rbmsg.log'' \<mapsto> File ''first'', ''logbak'' \<mapsto> Directory], stderr_lines = []\<rparr>"

lemma length_log_line: "length (log_line inp m) = 23 + length m"
  by (simp add: log_line_def readable_time_def)

lemma backup_filename_differs: "backup_filename inp \<noteq> ''rbmsg.log''" "backup_filename inp \<noteq> ''logbak''"
  by (simp_all add: backup_filename_def)

theorem log_size_bounded_witness:
  "file_size ''rbmsg.log'' (writeLog (new_RbmqLogger\<lparr>max_log_size := 5\<rparr>) (sample_input 0) ''hello''
    sample_world) < 5 + 40"
proof -
  let ?lg = "new_RbmqLogger\<lparr>max_log_size := 5\<rparr>"
  have "file_size (log_filepath ?lg) (writeLog ?lg (sample_input 0) ''hello'' sample_world) <
      unat (max_log_size ?lg) + 40"
  proof (rule log_size_bounded)
    show "length (log_line (sample_input 0) ''hello'') < 40" by (simp add: length_log_line)
    show "log_filepath ?lg \<noteq> backup_filename (sample_input 0)"
      using backup_filename_differs by (simp add: new_RbmqLogger_def eq_commute)
  qed (simp_all add: sample_input_def new_RbmqLogger_def sample_world_def file_size_def)
  then show ?thesis by (simp add: new_RbmqLogger_def)
qed

text \<open>
  C39: When the file operations succeed and there is no backup of the present second yet, no logged line
  is lost: a file below the maximum gets the new line at its end, and a file at the maximum becomes the
  backup of that second, whole, in the backup directory, which is made if it is missing, while the new
  file starts with the line. Every other file stays as it is.
\<close>

theorem log_rotation:
  assumes "disk w (log_filepath lg) = Some (File s)" and "length s < 2 ^ 64"
    and "disk w ''logbak'' = None \<or> disk w ''logbak'' = Some Directory" and "log_filepath lg \<noteq> ''''"
    and "disk w (backup_filename inp) = None"
    and "can_read inp" "can_stat inp" "can_mkdir inp" "can_rename inp" "can_append inp"
  shows "writeLog lg inp m w =
    w\<lparr>disk := if length s < unat (max_log_size lg)
       then (disk w)(log_filepath lg \<mapsto> File (s @ log_line inp m))
       else (disk w)(''logbak'' \<mapsto> Directory, backup_filename inp \<mapsto> File s,
         log_filepath lg \<mapsto> File (log_line inp m))\<rparr>"
proof -
  have size: "oversized lg inp w \<longleftrightarrow> \<not> length s < unat (max_log_size lg)"
    using assms(1,2,6)
    by (simp add: oversized_def tellg_at_end_def not_less word_le_nat_alt unat_of_nat)
  show ?thesis
  proof (cases "length s < unat (max_log_size lg)")
    case True
    then show ?thesis
      using assms size by (simp add: writeLog_small append_line_def os_append_def)
  next
    case False
    let ?w = "w\<lparr>disk := (disk w)(''logbak'' \<mapsto> Directory)\<rparr>"
    have logbak: "ensure_logbak inp w = (True, ?w)"
      using assms(3,7,8) by (auto simp: ensure_logbak_def fun_upd_idem)
    have "log_filepath lg \<noteq> ''logbak''" "log_filepath lg \<noteq> backup_filename inp"
      using assms(1,3,5) by auto
    then show ?thesis
      using assms size False logbak backup_filename_differs(2) [of inp]
      by (simp add: writeLog_oversized os_rename_def append_line_def os_append_def fun_upd_twist)
  qed
qed

theorem log_rotation_witness:
  "disk (writeLog (new_RbmqLogger\<lparr>max_log_size := 5\<rparr>) (sample_input 0) ''hello'' sample_world)
     (backup_filename (sample_input 0)) = Some (File ''first'')"
proof -
  let ?lg = "new_RbmqLogger\<lparr>max_log_size := 5\<rparr>"
  have "writeLog ?lg (sample_input 0) ''hello'' sample_world =
      sample_world\<lparr>disk := if length ''first'' < unat (max_log_size ?lg)
        then (disk sample_world)(log_filepath ?lg \<mapsto> File (''first'' @ log_line (sample_input 0) ''hello''))
        else (disk sample_world)(''logbak'' \<mapsto> Directory, backup_filename (sample_input 0) \<mapsto> File ''first'',
          log_filepath ?lg \<mapsto> File (log_line (sample_input 0) ''hello''))\<rparr>"
  proof (rule log_rotation)
    show "disk sample_world (backup_filename (sample_input 0)) = None"
      using backup_filename_differs [of "sample_input 0"] by (simp add: sample_world_def eq_commute)
  qed (simp_all add: sample_input_def new_RbmqLogger_def sample_world_def)
  then show ?thesis using backup_filename_differs by (simp add: new_RbmqLogger_def)
qed

text \<open>
  Two rotations use the same backup file exactly when they fall into the same second of local
  time; then the second one replaces the first backup, and the lines it held are gone.
\<close>

lemma same_second_backup:
  assumes "tm_ok (rotate_time inp)" and "tm_ok (rotate_time inp')"
  shows "backup_filename inp = backup_filename inp' \<longleftrightarrow> rotate_time inp = rotate_time inp'"
  using compact_time_inj [OF _ assms] by (auto simp: backup_filename_def)

text \<open>
  A call that reaches \<open>writeLog\<close> either puts the line at the end of the log file and prints
  nothing, or reports one line on the error stream and leaves every file but the backup directory and
  a finished rotation as it was; no failure is silent.
\<close>

lemma written_or_reported:
  "(\<exists>s. disk (writeLog lg inp m w) (log_filepath lg) = Some (File (s @ log_line inp m)) \<and>
      stderr_lines (writeLog lg inp m w) = stderr_lines w) \<or>
   (\<exists>l w1. writeLog lg inp m w = put_cerr l w1 \<and> stderr_lines w1 = stderr_lines w \<and>
      (made_logbak w w1 \<or> (\<exists>w0. made_logbak w w0 \<and>
        os_rename inp (log_filepath lg) (backup_filename inp) w0 = Some w1)))"
proof -
  have append: "(\<exists>s. disk (append_line inp p m v) p = Some (File (s @ log_line inp m)) \<and>
      stderr_lines (append_line inp p m v) = stderr_lines v) \<or>
    (\<exists>l. append_line inp p m v = put_cerr l v)" for p v
    by (cases rule: append_line_cases [of inp p m v]) auto
  show ?thesis
  proof (cases rule: writeLog_cases [of lg inp m w])
    case (refused l w1)
    then show ?thesis using made_logbak_stderr by metis
  next
    case small
    then show ?thesis using append [of "log_filepath lg" w] by (auto simp: made_logbak_def)
  next
    case (rotated w1 w2)
    then have "stderr_lines w2 = stderr_lines w"
      by (simp add: os_rename_gone(2) made_logbak_stderr)
    with rotated append [of "log_filepath lg" w2] show ?thesis by metis
  qed
qed

end
