(* ===== verification/Client_State.thy ===== *)
theory Client_State
  imports Int_Props Std_Containers Std_Text
begin

section \<open>The client's state and its surroundings\<close>

text \<open>
  The members of \<open>RabbitMQWrapper\<close> (\<open>include/rabbitmqclient.h\<close>), its static members, and what the
  member functions are written in: the events they cause, in order, and the answers of the rabbitmq-c
  library, the operating system and the build, which are not part of the sources. The answer of an
  outside call is a parameter, a function of all events so far, so that every behaviour of the
  outside is some value of the parameter. \<open>logger.Log\<close> is the event \<open>Logged\<close>; theory \<open>Logger\<close>
  models what it does with the message.
\<close>

subsection \<open>Constants and small types\<close>

text \<open>
  \<open>ExchangeType\<close>, with a constructor for the values that no enumerator names; the code has branches
  for them.
\<close>

datatype ExchangeType = p2ptype | topictype | broadcasttype | Unlisted_exchange_type i32

fun exchange_type_value :: "ExchangeType \<Rightarrow> int" where
  "exchange_type_value p2ptype = 0"
| "exchange_type_value topictype = 1"
| "exchange_type_value broadcasttype = 2"
| "exchange_type_value (Unlisted_exchange_type i) = sint i"

definition MAX_HEARTBEAT_TM :: i32 where "MAX_HEARTBEAT_TM = 60"
definition MAX_HEARTBEAT_ERR :: i32 where "MAX_HEARTBEAT_ERR = 3"

definition P2P_CHAHNEL :: amqp_channel_t where "P2P_CHAHNEL = 1"
definition TOPIC_CHANNEL :: amqp_channel_t where "TOPIC_CHANNEL = 2"
definition BROADCAST_CHANNEL :: amqp_channel_t where "BROADCAST_CHANNEL = 3"

definition RBMQ_P2P_EXCHG :: string where "RBMQ_P2P_EXCHG = ''ght.p2p.exchange''"
definition RBMQ_TOPIC_EXCHG :: string where "RBMQ_TOPIC_EXCHG = ''ght.topic.exchange''"
definition RBMQ_BROAD_EXCHG :: string where "RBMQ_BROAD_EXCHG = ''ght.broadcast.exchange''"

definition RBMQ_P2P_QUE_PRE :: string where "RBMQ_P2P_QUE_PRE = ''p2pmsgque''"
definition RBMQ_TOPIC_QUE_PRE :: string where "RBMQ_TOPIC_QUE_PRE = ''topicmsgque''"
definition RBMQ_BROAD_QUE_PRE :: string where "RBMQ_BROAD_QUE_PRE = ''broadcastmsgque''"

text \<open>A client's function, known by an identity the model compares and records.\<close>

type_synonym function_id = nat
type_synonym address = u64

subsection \<open>Callbacks of the point-to-point interface (include/rmMidLib.h)\<close>

record MID_CLIENT_HANDLER =
  m_cbRequest :: "function_id pointer"
  m_cbRequestTimeout :: "function_id pointer"
  m_cbRespFinal :: "function_id pointer"
  m_cbRespTimeout :: "function_id pointer"
  m_cbNotify :: "function_id pointer"
  m_cbNotifyTimeout :: "function_id pointer"
  m_cbReport :: "function_id pointer"
  m_cbRespTemp :: "function_id pointer"

text \<open>A call of a client's function with its arguments, in the order of the declarations.\<close>

datatype callback_call =
    CB_TOPIC function_id string string string string
      \<comment> \<open>routing key, message, sender, transparent data\<close>
  | CB_REQUEST function_id string string string i32 string address
      \<comment> \<open>server, source, message name, request id, body, the value the out argument points to\<close>
  | CB_REQUEST_TIMEOUT function_id string string string i32 address
      \<comment> \<open>server, destination, message name, request id, in argument\<close>
  | CB_RESP_TEMP function_id string string string i32 string string string address
      \<comment> \<open>server, destination, message name, request id, code, description, body, in argument\<close>
  | CB_RESP_FINAL function_id string string string i32 string string string address
  | CB_NOTIFY function_id string string string string
      \<comment> \<open>server, source, message name, body\<close>
  | CB_NOTIFY_TIMEOUT function_id string string string i32 address
  | CB_REPORT function_id string string string string

text \<open>The calls that the timer thread makes; the others are made by the receiving thread.\<close>

definition is_timeout :: "callback_call \<Rightarrow> bool" where
  "is_timeout c \<longleftrightarrow>
     (case c of CB_REQUEST_TIMEOUT f srv dst name i a \<Rightarrow> True | CB_NOTIFY_TIMEOUT f srv dst name i a \<Rightarrow> True
      | _ \<Rightarrow> False)"

lemma is_timeout_simps [simp]:
  "is_timeout (CB_REQUEST_TIMEOUT f srv dst name i a)" "is_timeout (CB_NOTIFY_TIMEOUT f srv dst name i a)"
  "\<not> is_timeout (CB_TOPIC f k m who tr)" "\<not> is_timeout (CB_REQUEST f srv src name i b a)"
  "\<not> is_timeout (CB_RESP_TEMP f srv dst name i c d b a)"
  "\<not> is_timeout (CB_RESP_FINAL f srv dst name i c d b a)"
  "\<not> is_timeout (CB_NOTIFY f srv src name b)" "\<not> is_timeout (CB_REPORT f srv src name b)"
  by (simp_all add: is_timeout_def)

subsection \<open>Timer tasks\<close>

text \<open>\<open>struct TimerTask\<close>; the expiry is a time point of the steady clock in nanoseconds.\<close>

record TimerTask =
  task_id :: i32
  task_routing_key :: string
  task_message :: string
  task_interval :: i32
  task_props :: int_props_st
  expire_time :: int

definition expiry :: "int \<Rightarrow> i32 \<Rightarrow> int" where
  "expiry now seconds = now + sint seconds * 1000000000"

definition new_TimerTask :: "int \<Rightarrow> i32 \<Rightarrow> string \<Rightarrow> string \<Rightarrow> i32 \<Rightarrow> int_props_st \<Rightarrow> TimerTask" where
  "new_TimerTask now idx k msg val props =
     \<lparr>task_id = idx, task_routing_key = k, task_message = msg, task_interval = val,
      task_props = props, expire_time = expiry now val\<rparr>"

subsection \<open>Events\<close>

datatype mutex = instanceMutex | conn_mutex | handle_mutex | timer_mutex

datatype client_thread = Send_thread | Receive_thread | Timer_thread

text \<open>The calls of the library, with the connection and channel they are made on.\<close>

datatype library_call =
    Amqp_new_connection
  | Amqp_tcp_socket_new "amqp_connection_state_t pointer"
  | Amqp_socket_open "amqp_socket_t pointer" string i32
  | Amqp_login "amqp_connection_state_t pointer" string i32 i32 i32 amqp_sasl_method_enum string string
      \<comment> \<open>virtual host, channel limit, frame limit, heartbeat, mechanism, user, password\<close>
  | Amqp_rpc "amqp_connection_state_t pointer" amqp_channel_t amqp_rpc
  | Amqp_get_rpc_reply "amqp_connection_state_t pointer"
  | Amqp_basic_publish "amqp_connection_state_t pointer" amqp_channel_t amqp_bytes_t amqp_bytes_t
      amqp_boolean_t amqp_boolean_t amqp_basic_properties_t amqp_bytes_t
      \<comment> \<open>exchange, routing key, mandatory, immediate, properties, body\<close>
  | Amqp_connection_close "amqp_connection_state_t pointer" i32
  | Amqp_destroy_connection "amqp_connection_state_t pointer"
  | Amqp_get_sockfd "amqp_connection_state_t pointer"
  | Amqp_maybe_release_buffers "amqp_connection_state_t pointer"
  | Amqp_consume_message "amqp_connection_state_t pointer"
  | Amqp_destroy_envelope

datatype event =
    Lock mutex
  | Unlock mutex
  | Library library_call
  | Called callback_call
  | Logged string
  | Printed string
  | Slept nat \<comment> \<open>milliseconds\<close>
  | Started client_thread
  | Joined client_thread
  | Read_clock

subsection \<open>The outside\<close>

record environment =
  cstring_bytes :: "string \<Rightarrow> amqp_bytes_t"
  empty_bytes :: amqp_bytes_t
  empty_table :: amqp_table_t
  new_connection :: "event list \<Rightarrow> amqp_connection_state_t pointer"
  new_tcp_socket :: "event list \<Rightarrow> amqp_socket_t pointer"
  open_status :: "event list \<Rightarrow> i32"
  login_reply :: "event list \<Rightarrow> amqp_rpc_reply_t"
  last_reply :: "event list \<Rightarrow> amqp_rpc_reply_t"
  sockfd :: "event list \<Rightarrow> i32"
  consumed :: "event list \<Rightarrow> amqp_rpc_reply_t \<times> amqp_envelope_t"
  error_string2 :: "i32 \<Rightarrow> string"
  steady_now :: "event list \<Rightarrow> int"
  realtime :: "event list \<Rightarrow> i64 \<times> i64" \<comment> \<open>seconds and nanoseconds\<close>
  host_name :: string
  process_id :: i32
  local_now :: "event list \<Rightarrow> tm"
  uninit_entries :: "nat \<Rightarrow> amqp_table_entry_t"
  uninit_count :: i32
  uninit_properties :: amqp_basic_properties_t
  uninit_props :: int_props_st
  uninit_handler :: MID_CLIENT_HANDLER
  build_strings :: "string \<times> string \<times> string \<times> string"
    \<comment> \<open>the macros \<open>VERSION\<close>, \<open>CMP_IPADDR\<close>, \<open>BUILD_TIME\<close> and \<open>ARCH_TYPE\<close>\<close>
  other_regex :: "string \<Rightarrow> string \<Rightarrow> bool"
    \<comment> \<open>\<open>std::regex\<close> on expressions outside the grammar of theory \<open>Topic_Match\<close>\<close>

subsection \<open>The state\<close>

text \<open>
  The members of the class, the statics \<open>instance\<close> (whether it is set) and \<open>instanceType\<close>, and the
  history. A \<open>std::thread\<close> is represented by whether it is joinable.
\<close>

record RabbitMQWrapper =
  instance_set :: bool
  instanceType :: ExchangeType
  connection :: "amqp_connection_state_t pointer"
  socket :: "amqp_socket_t pointer"
  channel :: amqp_channel_t
  stopThreads :: bool
  initialized :: bool
  heartbeaterr :: i32
  send_thread :: bool
  recv_thread :: bool
  timer_thread :: bool
  m_host :: string
  m_port :: i32
  m_username :: string
  m_password :: string
  m_module_name :: string
  exchange_type :: ExchangeType
  queue_name :: string
  queue_name_self :: string
  exchange_name :: string
  rbmq_exchange_type :: string
  stClientCBHandle :: MID_CLIENT_HANDLER
  bound_routing_keys_share :: "string std_set"
  bound_routing_keys_self :: "string std_set"
  routing_key_callbacks :: "(string, function_id) std_map"
  timer_tasks :: "TimerTask list"
  m_next_timer_id :: i32
  trace :: "event list"

type_synonym 'a op = "(RabbitMQWrapper, 'a) state"

subsection \<open>Steps\<close>

definition emit :: "event \<Rightarrow> unit op" where
  "emit e = modify (\<lambda>s. s\<lparr>trace := trace s @ [e]\<rparr>)"

definition log :: "string \<Rightarrow> unit op" where
  "log m = emit (Logged m)"

text \<open>A scope with a \<open>std::lock_guard\<close>: the mutex is released when the scope ends.\<close>

definition locked :: "mutex \<Rightarrow> 'a op \<Rightarrow> 'a op" where
  "locked m scope = do { emit (Lock m); x \<leftarrow> scope; emit (Unlock m); ret x }"

text \<open>
  A call of a client's function. What the function does is not part of the sources: the code that calls
  it has an argument \<open>call\<close> for it, which may be any operation. \<open>silent\<close> is a function that does
  not call back into the client; theory \<open>User_Code\<close> has those that do.
\<close>

definition silent :: "callback_call \<Rightarrow> unit op" where
  "silent c = emit (Called c)"

text \<open>A call of the library, and one with the library's answer to it.\<close>

definition library :: "library_call \<Rightarrow> unit op" where
  "library c = emit (Library c)"

definition ask :: "library_call \<Rightarrow> (event list \<Rightarrow> 'a) \<Rightarrow> 'a op" where
  "ask c answer = do { library c; gets (\<lambda>s. answer (trace s)) }"

definition rpc :: "amqp_rpc \<Rightarrow> unit op" where
  "rpc r = do { s \<leftarrow> State_Monad.get; library (Amqp_rpc (connection s) (channel s) r) }"

definition amqp_get_rpc_reply :: "environment \<Rightarrow> amqp_rpc_reply_t op" where
  "amqp_get_rpc_reply env =
     do { s \<leftarrow> State_Monad.get; ask (Amqp_get_rpc_reply (connection s)) (last_reply env) }"

text \<open>\<open>std::chrono::steady_clock::now()\<close>, and \<open>clock_gettime\<close> with the conversion to milliseconds.\<close>

definition now :: "environment \<Rightarrow> int op" where
  "now env = do { emit Read_clock; gets (\<lambda>s. steady_now env (trace s)) }"

definition timestamp_ms :: "environment \<Rightarrow> i64 op" where
  "timestamp_ms env = do {
     emit Read_clock;
     (sec, nsec) \<leftarrow> gets (\<lambda>s. realtime env (trace s));
     ret (sec * 1000 + word_of_int (sint nsec sdiv 1000000))
   }"

text \<open>\<open>amqp_cstring_bytes(s.c_str())\<close>.\<close>

definition cbytes :: "environment \<Rightarrow> string \<Rightarrow> amqp_bytes_t" where
  "cbytes env s = cstring_bytes env (c_str s)"

lemma run_emit [simp, run_simps]: "run_state (emit e) s = ((), s\<lparr>trace := trace s @ [e]\<rparr>)"
  by (simp add: emit_def)

lemma run_silent [simp, run_simps]: "run_state (silent c) s = ((), s\<lparr>trace := trace s @ [Called c]\<rparr>)"
  by (simp add: silent_def)

lemma run_log [simp, run_simps]: "run_state (log m) s = ((), s\<lparr>trace := trace s @ [Logged m]\<rparr>)"
  by (simp add: log_def)

lemma run_library [simp, run_simps]:
  "run_state (library c) s = ((), s\<lparr>trace := trace s @ [Library c]\<rparr>)"
  by (simp add: library_def)

lemma run_ask [simp, run_simps]:
  "run_state (ask c answer) s =
     (answer (trace s @ [Library c]), s\<lparr>trace := trace s @ [Library c]\<rparr>)"
  by (simp add: ask_def)

lemma run_rpc [simp, run_simps]:
  "run_state (rpc r) s =
     ((), s\<lparr>trace := trace s @ [Library (Amqp_rpc (connection s) (channel s) r)]\<rparr>)"
  by (simp add: rpc_def)

lemma run_get_rpc_reply [simp, run_simps]:
  "run_state (amqp_get_rpc_reply env) s =
     (last_reply env (trace s @ [Library (Amqp_get_rpc_reply (connection s))]),
      s\<lparr>trace := trace s @ [Library (Amqp_get_rpc_reply (connection s))]\<rparr>)"
  by (simp add: amqp_get_rpc_reply_def)

lemma run_now [simp, run_simps]:
  "run_state (now env) s =
     (steady_now env (trace s @ [Read_clock]), s\<lparr>trace := trace s @ [Read_clock]\<rparr>)"
  by (simp add: now_def)

lemma state_after_timestamp [simp, run_simps]:
  "state_after (timestamp_ms env) s = s\<lparr>trace := trace s @ [Read_clock]\<rparr>"
  by (simp add: timestamp_ms_def split_beta)

lemma run_locked [simp, run_simps]:
  "run_state (locked m scope) s =
     (let (x, t) = run_state scope (s\<lparr>trace := trace s @ [Lock m]\<rparr>)
      in (x, t\<lparr>trace := trace t @ [Unlock m]\<rparr>))"
  by (simp add: locked_def split_beta Let_def)

text \<open>A loop of calls: the library sees one call per element, in order.\<close>

lemma run_for_each_rpc [simp, run_simps]:
  "run_state (for_each xs (\<lambda>x. rpc (f x))) s =
     ((), s\<lparr>trace := trace s @
       map (\<lambda>x. Library (Amqp_rpc (connection s) (channel s) (f x))) xs\<rparr>)"
  by (induction xs arbitrary: s) simp_all

text \<open>Properties after \<open>memset(&props, 0, sizeof(props))\<close>.\<close>

definition no_bytes :: amqp_bytes_t where
  "no_bytes = \<lparr>len = 0, bytes = None\<rparr>"

definition zero_properties :: amqp_basic_properties_t where
  "zero_properties =
     \<lparr>flags = 0, content_type = no_bytes, content_encoding = no_bytes, headers = Amqp_table 0 [],
      delivery_mode = 0, priority = 0, correlation_id = no_bytes, reply_to = no_bytes,
      expiration = no_bytes, message_id = no_bytes, prop_timestamp = 0, prop_type = no_bytes,
      user_id = no_bytes, app_id = no_bytes, cluster_id = no_bytes\<rparr>"

subsection \<open>Reading a history: locks\<close>

text \<open>
  The mutexes held at the end of a history of one thread, the last one taken in front, and the lock
  discipline: a mutex is taken only while every mutex held ranks below it, and released in the
  opposite order. \<open>None\<close> is a violation; taking a held mutex is one.
\<close>

fun mutex_rank :: "mutex \<Rightarrow> nat" where
  "mutex_rank handle_mutex = 0"
| "mutex_rank timer_mutex = 1"
| "mutex_rank instanceMutex = 2"
| "mutex_rank conn_mutex = 3"

instantiation mutex :: linorder
begin

definition less_eq_mutex :: "mutex \<Rightarrow> mutex \<Rightarrow> bool" where
  "less_eq_mutex m n \<longleftrightarrow> mutex_rank m \<le> mutex_rank n"

definition less_mutex :: "mutex \<Rightarrow> mutex \<Rightarrow> bool" where
  "less_mutex m n \<longleftrightarrow> mutex_rank m < mutex_rank n"

instance
proof
  fix m n :: mutex
  show "m \<le> n \<Longrightarrow> n \<le> m \<Longrightarrow> m = n"
    by (cases m; cases n) (simp_all add: less_eq_mutex_def)
qed (auto simp: less_eq_mutex_def less_mutex_def)

end

lemmas mutex_order = less_eq_mutex_def less_mutex_def

fun lock_step :: "mutex list option \<Rightarrow> event \<Rightarrow> mutex list option" where
  "lock_step (Some hs) (Lock m) = (if list_all (\<lambda>h. h < m) hs then Some (m # hs) else None)"
| "lock_step (Some hs) (Unlock m) =
     (case hs of [] \<Rightarrow> None | h # hs' \<Rightarrow> if h = m then Some hs' else None)"
| "lock_step hs e = hs"

definition locks :: "mutex list \<Rightarrow> event list \<Rightarrow> mutex list option" where
  "locks hs es = foldl lock_step (Some hs) es"

lemma lock_step_None [simp]: "foldl lock_step None es = None"
  by (induction es) simp_all

lemma locks_append:
  "locks hs (es @ fs) = (case locks hs es of None \<Rightarrow> None | Some hs' \<Rightarrow> locks hs' fs)"
  by (simp add: locks_def split: option.splits)

lemma locks_Nil [simp]: "locks hs [] = Some hs"
  by (simp add: locks_def)

lemma locks_Cons:
  "locks hs (e # es) = (case lock_step (Some hs) e of None \<Rightarrow> None | Some hs' \<Rightarrow> locks hs' es)"
  by (simp add: locks_def split: option.splits)

definition held :: "event list \<Rightarrow> mutex list" where
  "held es = (case locks [] es of Some hs \<Rightarrow> hs | None \<Rightarrow> [])"

definition is_lock_event :: "event \<Rightarrow> bool" where
  "is_lock_event e \<longleftrightarrow> (case e of Lock m \<Rightarrow> True | Unlock m \<Rightarrow> True | _ \<Rightarrow> False)"

lemma is_lock_event_simps [simp]:
  "is_lock_event (Lock m)" "is_lock_event (Unlock m)" "\<not> is_lock_event (Library c)"
  "\<not> is_lock_event (Called b)" "\<not> is_lock_event (Logged l)" "\<not> is_lock_event (Printed l)"
  "\<not> is_lock_event (Slept n)" "\<not> is_lock_event (Started t)" "\<not> is_lock_event (Joined t)"
  "\<not> is_lock_event Read_clock"
  by (simp_all add: is_lock_event_def)

lemma locks_skip [simp]: "\<not> is_lock_event e \<Longrightarrow> locks hs (e # es) = locks hs es"
  by (cases e) (simp_all add: locks_Cons)

lemma locks_Lock [simp]:
  "locks hs (Lock m # es) = (if list_all (\<lambda>h. h < m) hs then locks (m # hs) es else None)"
  by (simp add: locks_Cons)

lemma locks_Unlock [simp]: "locks (m # hs) (Unlock m # es) = locks hs es"
  by (simp add: locks_Cons)

lemma locks_only_skipped: "list_all (\<lambda>e. \<not> is_lock_event e) es \<Longrightarrow> locks hs es = Some hs"
  by (induction es) simp_all

subsection \<open>Reading a history: the callbacks made\<close>

fun called :: "event list \<Rightarrow> callback_call list" where
  "called [] = []"
| "called (Called b # es) = b # called es"
| "called (e # es) = called es"

lemma called_append [simp]: "called (es @ fs) = called es @ called fs"
  by (induction es rule: called.induct) simp_all

lemma called_map_Called [simp]: "called (map Called bs) = bs"
  by (induction bs) simp_all

lemma called_map_Library [simp]: "called (map (\<lambda>x. Library (f x)) xs) = []"
  by (induction xs) simp_all

subsection \<open>Reading a history: the queue bindings of the session\<close>

text \<open>
  The bindings (queue, exchange, routing key) that the client has requested since the connection was
  made, and not requested to remove. They need not be the broker's: it may refuse a request, and the
  code looks at no reply to a declaration, a binding or its removal.
\<close>

type_synonym binding = "amqp_bytes_t \<times> amqp_bytes_t \<times> amqp_bytes_t"

fun bind_step :: "binding set \<Rightarrow> event \<Rightarrow> binding set" where
  "bind_step B (Library Amqp_new_connection) = {}"
| "bind_step B (Library (Amqp_rpc c ch (Topology (Rpc_queue_bind q x k t)))) = insert (q, x, k) B"
| "bind_step B (Library (Amqp_rpc c ch (Topology (Rpc_queue_unbind q x k t)))) = B - {(q, x, k)}"
| "bind_step B e = B"

definition session_bindings :: "event list \<Rightarrow> binding set" where
  "session_bindings es = foldl bind_step {} es"

lemma session_bindings_append: "session_bindings (es @ fs) = foldl bind_step (session_bindings es) fs"
  by (simp add: session_bindings_def)

text \<open>
  The bindings the broker has, by the same history. Which requests it accepts is a parameter: a
  predicate on the history before a request and the request. That a broker accepts the requests of a
  history is the hypothesis \<open>binds_accepted\<close>.
\<close>

definition bind_request :: "event \<Rightarrow> bool" where
  "bind_request e \<longleftrightarrow> (case e of
     Library (Amqp_rpc c ch (Topology (Rpc_queue_bind q x k t))) \<Rightarrow> True
   | Library (Amqp_rpc c ch (Topology (Rpc_queue_unbind q x k t))) \<Rightarrow> True
   | _ \<Rightarrow> False)"

type_synonym broker = "event list \<Rightarrow> event \<Rightarrow> bool"

fun broker_step :: "broker \<Rightarrow> event list \<times> binding set \<Rightarrow> event \<Rightarrow> event list \<times> binding set" where
  "broker_step accepts (h, B) e =
     (h @ [e], if bind_request e \<and> \<not> accepts h e then B else bind_step B e)"

definition broker_bindings :: "broker \<Rightarrow> event list \<Rightarrow> binding set" where
  "broker_bindings accepts es = snd (foldl (broker_step accepts) ([], {}) es)"

definition binds_accepted :: "broker \<Rightarrow> event list \<Rightarrow> bool" where
  "binds_accepted accepts es \<longleftrightarrow> (\<forall>h e h'. es = h @ e # h' \<and> bind_request e \<longrightarrow> accepts h e)"

lemma broker_history: "fst (foldl (broker_step accepts) ([], {}) es) = es"
  by (induction es rule: rev_induct) (simp_all split: prod.splits, metis broker_step.simps fst_conv prod.collapse)

lemma broker_bindings_snoc:
  "broker_bindings accepts (es @ [e]) =
    (if bind_request e \<and> \<not> accepts es e then broker_bindings accepts es
     else bind_step (broker_bindings accepts es) e)"
  using broker_history [of accepts es]
  by (cases "foldl (broker_step accepts) ([], {}) es") (simp add: broker_bindings_def)

lemma broker_bindings_accepted:
  "binds_accepted accepts es \<Longrightarrow> broker_bindings accepts es = session_bindings es"
proof (induction es rule: rev_induct)
  case Nil
  then show ?case by (simp add: broker_bindings_def session_bindings_def)
next
  case (snoc e es)
  have "binds_accepted accepts es"
    unfolding binds_accepted_def
  proof (intro allI impI)
    fix h e' h'
    assume "es = h @ e' # h' \<and> bind_request e'"
    then show "accepts h e'"
      using snoc.prems [unfolded binds_accepted_def, rule_format, of h e' "h' @ [e]"] by simp
  qed
  moreover have "bind_request e \<Longrightarrow> accepts es e"
    using snoc.prems [unfolded binds_accepted_def, rule_format, of es e "[]"] by simp
  ultimately show ?case
    using snoc.IH by (auto simp: broker_bindings_snoc session_bindings_append)
qed

text \<open>A broker that accepts no such request binds nothing.\<close>

lemma broker_refuses_all:
  "(\<And>h e. bind_request e \<Longrightarrow> \<not> accepts h e) \<Longrightarrow> broker_bindings accepts es = {}"
proof (induction es rule: rev_induct)
  case (snoc e es)
  then show ?case
    by (cases "({} :: binding set, e)" rule: bind_step.cases) (auto simp: broker_bindings_snoc bind_request_def)
qed (simp add: broker_bindings_def)

lemma foldl_bind_loop:
  "foldl bind_step B
     (map (\<lambda>k. Library (Amqp_rpc c ch (Topology (Rpc_queue_bind q x (f k) t)))) ks) =
   B \<union> (\<lambda>k. (q, x, f k)) ` set ks"
  by (induction ks arbitrary: B) auto

subsection \<open>A sample outside\<close>

text \<open>A library and machine on which every call succeeds, for the witnesses.\<close>

definition sample_method :: amqp_method_t where
  "sample_method = \<lparr>id_number = 0, decoded = 0\<rparr>"

definition sample_reply :: "amqp_response_type_enum \<Rightarrow> amqp_rpc_reply_t" where
  "sample_reply r = \<lparr>reply_type = r, reply = sample_method, library_error = 0\<rparr>"

definition no_handler :: MID_CLIENT_HANDLER where
  "no_handler =
     \<lparr>m_cbRequest = None, m_cbRequestTimeout = None, m_cbRespFinal = None, m_cbRespTimeout = None,
      m_cbNotify = None, m_cbNotifyTimeout = None, m_cbReport = None, m_cbRespTemp = None\<rparr>"

definition full_handler :: MID_CLIENT_HANDLER where
  "full_handler =
     \<lparr>m_cbRequest = Some 1, m_cbRequestTimeout = Some 2, m_cbRespFinal = Some 3,
      m_cbRespTimeout = Some 4, m_cbNotify = Some 5, m_cbNotifyTimeout = Some 6,
      m_cbReport = Some 7, m_cbRespTemp = Some 8\<rparr>"

definition sample_pool :: amqp_pool_t where
  "sample_pool =
     \<lparr>pagesize = 4096, pages = \<lparr>num_blocks = 0, blocklist = []\<rparr>,
      large_blocks = \<lparr>num_blocks = 0, blocklist = []\<rparr>, next_page = 0, alloc_block = 0,
      alloc_used = 0\<rparr>"

definition sample_envelope :: amqp_envelope_t where
  "sample_envelope =
     \<lparr>env_channel = 1, consumer_tag = plain_cstring_bytes ''share'', delivery_tag = 1,
      redelivered = 0, exchange = plain_cstring_bytes RBMQ_P2P_EXCHG,
      routing_key = plain_cstring_bytes ''module'',
      message = \<lparr>properties = zero_properties, body = plain_cstring_bytes ''body'',
        pool = sample_pool\<rparr>\<rparr>"

definition sample_env :: environment where
  "sample_env =
     \<lparr>cstring_bytes = plain_cstring_bytes, empty_bytes = no_bytes, empty_table = Amqp_table 0 [],
      new_connection = (\<lambda>_. Some 1), new_tcp_socket = (\<lambda>_. Some 1), open_status = (\<lambda>_. 0),
      login_reply = (\<lambda>_. sample_reply AMQP_RESPONSE_NORMAL),
      last_reply = (\<lambda>_. sample_reply AMQP_RESPONSE_NORMAL), sockfd = (\<lambda>_. 5),
      consumed = (\<lambda>_. (sample_reply AMQP_RESPONSE_NORMAL, sample_envelope)),
      error_string2 = (\<lambda>_. ''error''), steady_now = (\<lambda>h. int (length h)),
      realtime = (\<lambda>_. (1, 2000000)), host_name = ''host'', process_id = 42,
      local_now = (\<lambda>_. \<lparr>tm_year = 2025, tm_mon = 4, tm_mday = 2, tm_hour = 1, tm_min = 2, tm_sec = 3\<rparr>),
      uninit_entries = (\<lambda>_. void_entry), uninit_count = 0, uninit_properties = zero_properties, uninit_props = sample_props, uninit_handler = no_handler,
      build_strings = (''1.0'', ''ip'', ''time'', ''arch''),
      other_regex = (\<lambda>_ _. False)\<rparr>"

text \<open>A connected client of each type.\<close>

definition sample_client :: "ExchangeType \<Rightarrow> RabbitMQWrapper" where
  "sample_client t =
     \<lparr>instance_set = True, instanceType = t, connection = Some 1, socket = Some 1, channel = 1,
      stopThreads = False, initialized = True, heartbeaterr = 0, send_thread = True,
      recv_thread = True, timer_thread = True, m_host = ''localhost'', m_port = 5672,
      m_username = ''guest'', m_password = ''guest'', m_module_name = ''module'', exchange_type = t,
      queue_name = ''module-queue'', queue_name_self = ''module-self'', exchange_name = ''exchange'',
      rbmq_exchange_type = ''direct'', stClientCBHandle = full_handler,
      bound_routing_keys_share = [], bound_routing_keys_self = [], routing_key_callbacks = [],
      timer_tasks = [], m_next_timer_id = 0, trace = []\<rparr>"

lemma sample_client_fields [simp]:
  "instance_set (sample_client t)" "instanceType (sample_client t) = t"
  "connection (sample_client t) = Some 1" "socket (sample_client t) = Some 1"
  "channel (sample_client t) = 1" "\<not> stopThreads (sample_client t)" "initialized (sample_client t)"
  "heartbeaterr (sample_client t) = 0" "send_thread (sample_client t)" "recv_thread (sample_client t)"
  "timer_thread (sample_client t)" "m_module_name (sample_client t) = ''module''"
  "exchange_type (sample_client t) = t" "queue_name (sample_client t) = ''module-queue''"
  "queue_name_self (sample_client t) = ''module-self''"
  "exchange_name (sample_client t) = ''exchange''"
  "stClientCBHandle (sample_client t) = full_handler"
  "bound_routing_keys_share (sample_client t) = []" "bound_routing_keys_self (sample_client t) = []"
  "routing_key_callbacks (sample_client t) = []" "timer_tasks (sample_client t) = []"
  "m_next_timer_id (sample_client t) = 0" "trace (sample_client t) = []"
  by (simp_all add: sample_client_def)

lemma sample_env_fields [simp]:
  "cstring_bytes sample_env = plain_cstring_bytes"
  "new_connection sample_env = (\<lambda>_. Some 1)" "new_tcp_socket sample_env = (\<lambda>_. Some 1)"
  "open_status sample_env = (\<lambda>_. 0)"
  "login_reply sample_env = (\<lambda>_. sample_reply AMQP_RESPONSE_NORMAL)"
  "last_reply sample_env = (\<lambda>_. sample_reply AMQP_RESPONSE_NORMAL)"
  "sockfd sample_env = (\<lambda>_. 5)" "steady_now sample_env = (\<lambda>h. int (length h))"
  "consumed sample_env = (\<lambda>_. (sample_reply AMQP_RESPONSE_NORMAL, sample_envelope))"
  by (simp_all add: sample_env_def)

lemma sample_reply_fields [simp]:
  "reply_type (sample_reply r) = r" "reply (sample_reply r) = sample_method"
  "library_error (sample_reply r) = 0"
  by (simp_all add: sample_reply_def)

end
