(* ===== verification/Connection.thy ===== *)
theory Connection
  imports Client_State
begin

section \<open>The instance and its connection\<close>

text \<open>
  Creating the single instance, connecting, declaring exchange and queues, reconnecting, starting and
  freeing the client: \<open>getInstance\<close>, the constructor, \<open>rabbitmq_init\<close>, \<open>ConnectInit\<close>,
  \<open>SetupExchgQueChannel\<close>, \<open>ReconnectProc\<close> and \<open>rabbitmq_free\<close> of \<open>src/rabbitmqclient.cpp\<close>.
  The lemmas show the result and the effect of each on every branch, that the instance keeps one type,
  that a reconnection gives the broker the bindings the client has recorded, and which failures the
  client cannot leave.
\<close>

subsection \<open>The single instance\<close>

definition GetVersion :: "environment \<Rightarrow> string" where
  "GetVersion env =
     (case build_strings env of (version, ipaddr, build_time, arch) \<Rightarrow>
        version @ '' '' @ ipaddr @ '' '' @ build_time @ '' '' @ arch)"

text \<open>
  The constructor. The strings, containers and threads start empty; \<open>m_port\<close> is set before it is
  read, while \<open>stClientCBHandle\<close> keeps what its memory held until \<open>p2pSetCallback\<close>.
\<close>

definition construct :: "environment \<Rightarrow> ExchangeType \<Rightarrow> unit op" where
  "construct env type = do {
     modify (\<lambda>s. s\<lparr>exchange_type := type, m_host := '''', m_username := '''', m_password := '''',
       m_module_name := '''', queue_name := '''', queue_name_self := '''', exchange_name := '''',
       rbmq_exchange_type := '''', stClientCBHandle := uninit_handler env,
       bound_routing_keys_share := [], bound_routing_keys_self := [], routing_key_callbacks := [],
       timer_tasks := [], send_thread := False, recv_thread := False, timer_thread := False\<rparr>);
     modify (\<lambda>s. s\<lparr>stopThreads := False, connection := None, socket := None, channel := - 1,
       initialized := False, m_next_timer_id := 0, heartbeaterr := 0\<rparr>);
     log (''start use RabbitMQWrapper: '' @ to_string (exchange_type_value type) @ '', '' @
       GetVersion env)
   }"

definition getInstance :: "environment \<Rightarrow> ExchangeType \<Rightarrow> unit result op" where
  "getInstance env type = locked instanceMutex (do {
     s \<leftarrow> State_Monad.get;
     if instance_set s then
       if instanceType s \<noteq> type then
         ret (Inl (Runtime_error ''RabbitMQWrapper instance already created with a different type!''))
       else ret (Inr ())
     else do {
       construct env type;
       modify (\<lambda>s. s\<lparr>instance_set := True\<rparr>);
       modify (\<lambda>s. s\<lparr>instanceType := type\<rparr>);
       ret (Inr ())
     }
   })"

definition GetInstanceType :: "ExchangeType op" where
  "GetInstanceType = gets instanceType"

definition GetModuleName :: "string op" where
  "GetModuleName = gets m_module_name"

definition GetExchangeName :: "string op" where
  "GetExchangeName = gets exchange_name"

definition GetBoundRoutingShare :: "string std_set op" where
  "GetBoundRoutingShare = locked conn_mutex (gets bound_routing_keys_share)"

definition GetBoundRoutingSelf :: "string std_set op" where
  "GetBoundRoutingSelf = locked conn_mutex (gets bound_routing_keys_self)"

subsection \<open>Exchange, queues and channel\<close>

definition topicCrtSelfQueName :: "environment \<Rightarrow> string op" where
  "topicCrtSelfQueName env = do {
     emit Read_clock;
     tm_info \<leftarrow> gets (\<lambda>s. local_now env (trace s));
     ret (c_str (host_name env) @ ''-'' @ to_string (sint (process_id env)) @ ''-'' @
       compact_time tm_info)
   }"

definition amqp_queue_bind :: "environment \<Rightarrow> string \<Rightarrow> string \<Rightarrow> amqp_bytes_t \<Rightarrow> unit op" where
  "amqp_queue_bind env queue exchg routing =
     rpc (Topology (Rpc_queue_bind (cbytes env queue) (cbytes env exchg) routing (empty_table env)))"

definition amqp_queue_declare :: "environment \<Rightarrow> string \<Rightarrow> unit op" where
  "amqp_queue_declare env queue =
     rpc (Topology (Rpc_queue_declare (cbytes env queue) 0 0 0 1 (empty_table env)))"

text \<open>The \<open>switch\<close> at the start of \<open>SetupExchgQueChannel\<close>; \<open>False\<close> is its default branch.\<close>

definition name_queues :: "environment \<Rightarrow> bool op" where
  "name_queues env = do {
     s \<leftarrow> State_Monad.get;
     case exchange_type s of
       p2ptype \<Rightarrow> do {
         modify (\<lambda>s. s\<lparr>channel := P2P_CHAHNEL,
           queue_name := m_module_name s @ ''-'' @ RBMQ_P2P_QUE_PRE,
           exchange_name := RBMQ_P2P_EXCHG, rbmq_exchange_type := ''direct''\<rparr>);
         ret True
       }
     | topictype \<Rightarrow> do {
         modify (\<lambda>s. s\<lparr>channel := TOPIC_CHANNEL,
           queue_name := m_module_name s @ ''-'' @ RBMQ_TOPIC_QUE_PRE\<rparr>);
         only_if (queue_name_self s = '''') (do {
           unique \<leftarrow> topicCrtSelfQueName env;
           modify (\<lambda>s. s\<lparr>queue_name_self := m_module_name s @ ''-'' @ unique\<rparr>)
         });
         modify (\<lambda>s. s\<lparr>exchange_name := RBMQ_TOPIC_EXCHG, rbmq_exchange_type := ''topic''\<rparr>);
         ret True
       }
     | broadcasttype \<Rightarrow> do {
         modify (\<lambda>s. s\<lparr>channel := BROADCAST_CHANNEL,
           queue_name := m_module_name s @ ''-'' @ RBMQ_BROAD_QUE_PRE,
           exchange_name := RBMQ_BROAD_EXCHG, rbmq_exchange_type := ''fanout''\<rparr>);
         ret True
       }
     | Unlisted_exchange_type i \<Rightarrow> do { log ''Unknown exchange type''; ret False }
   }"

definition SetupExchgQueChannel :: "environment \<Rightarrow> bool op" where
  "SetupExchgQueChannel env = do {
     known \<leftarrow> name_queues env;
     if \<not> known then ret False
     else do {
       rpc (Topology Rpc_channel_open);
       r \<leftarrow> amqp_get_rpc_reply env;
       if reply_type r \<noteq> AMQP_RESPONSE_NORMAL then do { log ''Failed to open channel''; ret False }
       else do {
         s \<leftarrow> State_Monad.get;
         amqp_queue_declare env (queue_name s);
         only_if (exchange_type s = topictype) (amqp_queue_declare env (queue_name_self s));
         rpc (Topology (Rpc_exchange_declare (cbytes env (exchange_name s))
           (cbytes env (rbmq_exchange_type s)) 0 1 0 0 (empty_table env)));
         (if exchange_type s = p2ptype then do {
            amqp_queue_bind env (queue_name s) (exchange_name s) (cbytes env (m_module_name s));
            modify (\<lambda>s. s\<lparr>bound_routing_keys_share :=
              set_insert (m_module_name s) (bound_routing_keys_share s)\<rparr>)
          }
          else if exchange_type s = broadcasttype then
            amqp_queue_bind env (queue_name s) (exchange_name s) (empty_bytes env)
          else ret ());
         ret True
       }
     }
   }"

subsection \<open>Connecting and reconnecting\<close>

definition ConnectInit :: "environment \<Rightarrow> bool op" where
  "ConnectInit env = do {
     s \<leftarrow> State_Monad.get;
     if connection s \<noteq> None then do {
       log ''RabbitMQWrapper has already been connected!'';
       ret False
     }
     else do {
       c \<leftarrow> ask Amqp_new_connection (new_connection env);
       modify (\<lambda>s. s\<lparr>connection := c\<rparr>);
       k \<leftarrow> ask (Amqp_tcp_socket_new c) (new_tcp_socket env);
       modify (\<lambda>s. s\<lparr>socket := k\<rparr>);
       status \<leftarrow> ask (Amqp_socket_open k (c_str (m_host s)) (m_port s)) (open_status env);
       if status \<noteq> status_value AMQP_STATUS_OK then do { log ''Error opening socket''; ret False }
       else do {
         r \<leftarrow> ask (Amqp_login c ''/'' 0 131072 MAX_HEARTBEAT_TM AMQP_SASL_METHOD_PLAIN
           (c_str (m_username s)) (c_str (m_password s))) (login_reply env);
         if reply_type r \<noteq> AMQP_RESPONSE_NORMAL then do { log ''Login failed!''; ret False }
         else SetupExchgQueChannel env
       }
     }
   }"

text \<open>Closing the connection, as \<open>ReconnectProc\<close> and \<open>rabbitmq_free\<close> do.\<close>

definition close_connection :: "unit op" where
  "close_connection = do {
     s \<leftarrow> State_Monad.get;
     library (Amqp_connection_close (connection s) (constant_value AMQP_REPLY_SUCCESS));
     library (Amqp_destroy_connection (connection s));
     modify (\<lambda>s. s\<lparr>connection := None\<rparr>)
   }"

definition rebind :: "environment \<Rightarrow> unit op" where
  "rebind env = do {
     s \<leftarrow> State_Monad.get;
     case exchange_type s of
       topictype \<Rightarrow> do {
         for_each (bound_routing_keys_share s) (\<lambda>k.
           amqp_queue_bind env (queue_name s) (exchange_name s) (cbytes env k));
         for_each (bound_routing_keys_self s) (\<lambda>k.
           amqp_queue_bind env (queue_name_self s) (exchange_name s) (cbytes env k))
       }
     | p2ptype \<Rightarrow>
         amqp_queue_bind env (queue_name s) (exchange_name s) (cbytes env (m_module_name s))
     | broadcasttype \<Rightarrow>
         amqp_queue_bind env (queue_name s) (exchange_name s) (empty_bytes env)
     | _ \<Rightarrow> ret ()
   }"

text \<open>
  \<open>ReconnectProc\<close> returns nothing. The model returns whether it returns at all: a thread that already
  holds \<open>conn_mutex\<close> waits for itself.
\<close>

definition reconnect_locked :: "environment \<Rightarrow> unit op" where
  "reconnect_locked env = do {
     s \<leftarrow> State_Monad.get;
     only_if (connection s \<noteq> None) close_connection;
     connected \<leftarrow> ConnectInit env;
     if \<not> connected then ret ()
     else do {
       rebind env;
       log ''reconnect proc complete.''
     }
   }"

definition ReconnectProc :: "environment \<Rightarrow> bool op" where
  "ReconnectProc env = do {
     log ''reconnect proc...'';
     s \<leftarrow> State_Monad.get;
     if conn_mutex \<in> set (held (trace s)) then do {
       emit (Lock conn_mutex);
       ret False
     }
     else do {
       locked conn_mutex (reconnect_locked env);
       ret True
     }
   }"

subsection \<open>Starting and freeing the client\<close>

text \<open>
  The joins of \<open>rabbitmq_free\<close> are events of its history here; that they wait for the threads is
  modelled in theory \<open>Shutdown\<close>, which cuts the operation at them.
\<close>

definition rabbitmq_init ::
  "environment \<Rightarrow> string \<Rightarrow> i32 \<Rightarrow> string \<Rightarrow> string \<Rightarrow> string \<Rightarrow> bool op" where
  "rabbitmq_init env host port username password module_name = do {
     s \<leftarrow> State_Monad.get;
     if initialized s then do {
       log ''RabbitMQWrapper has already been initialized!'';
       ret False
     }
     else do {
       modify (\<lambda>s. s\<lparr>m_host := host, m_port := port, m_username := username,
         m_password := password, m_module_name := module_name\<rparr>);
       connected \<leftarrow> ConnectInit env;
       if \<not> connected then ret False
       else do {
         emit (Started Send_thread);
         emit (Started Receive_thread);
         emit (Started Timer_thread);
         modify (\<lambda>s. s\<lparr>send_thread := True, recv_thread := True, timer_thread := True\<rparr>);
         modify (\<lambda>s. s\<lparr>initialized := True\<rparr>);
         ret True
       }
     }
   }"

definition rabbitmq_free :: "unit op" where
  "rabbitmq_free = do {
     s \<leftarrow> State_Monad.get;
     only_if (initialized s) (do {
       emit (Printed ''start wrapper destroy.'');
       log ''start wrapper destroy.'';
       modify (\<lambda>s. s\<lparr>stopThreads := True\<rparr>);
       only_if (send_thread s) (do {
         emit (Joined Send_thread); modify (\<lambda>s. s\<lparr>send_thread := False\<rparr>) });
       log ''send_thread complete.'';
       only_if (recv_thread s) (do {
         emit (Joined Receive_thread); modify (\<lambda>s. s\<lparr>recv_thread := False\<rparr>) });
       log ''recv_thread complete.'';
       only_if (timer_thread s) (do {
         emit (Joined Timer_thread); modify (\<lambda>s. s\<lparr>timer_thread := False\<rparr>) });
       log ''timer_thread complete.'';
       only_if (connection s \<noteq> None) (locked conn_mutex close_connection);
       log ''close socket and destroy connect complete.'';
       modify (\<lambda>s. s\<lparr>initialized := False\<rparr>);
       emit (Printed ''wrapper destroy complete.'');
       log ''RabbitMQWrapper destroy complete.''
     })
   }"

subsection \<open>Runs of the parts\<close>

definition known_type :: "ExchangeType \<Rightarrow> bool" where
  "known_type t \<longleftrightarrow> (case t of Unlisted_exchange_type i \<Rightarrow> False | _ \<Rightarrow> True)"

lemma known_type_simps [simp]:
  "known_type p2ptype" "known_type topictype" "known_type broadcasttype"
  "\<not> known_type (Unlisted_exchange_type i)"
  by (simp_all add: known_type_def)

lemma run_bind [simp, run_simps]:
  "run_state (amqp_queue_bind env q x k) s =
     ((), s\<lparr>trace := trace s @ [Library (Amqp_rpc (connection s) (channel s)
       (Topology (Rpc_queue_bind (cbytes env q) (cbytes env x) k (empty_table env))))]\<rparr>)"
  by (simp add: amqp_queue_bind_def)

lemma run_declare [simp, run_simps]:
  "run_state (amqp_queue_declare env q) s =
     ((), s\<lparr>trace := trace s @ [Library (Amqp_rpc (connection s) (channel s)
       (Topology (Rpc_queue_declare (cbytes env q) 0 0 0 1 (empty_table env))))]\<rparr>)"
  by (simp add: amqp_queue_declare_def)

lemma run_self_name [simp, run_simps]:
  "run_state (topicCrtSelfQueName env) s =
     (c_str (host_name env) @ ''-'' @ to_string (sint (process_id env)) @ ''-'' @
        compact_time (local_now env (trace s @ [Read_clock])), s\<lparr>trace := trace s @ [Read_clock]\<rparr>)"
  by (simp add: topicCrtSelfQueName_def)

lemma name_queues_result:
  "result_of (name_queues env) s = known_type (exchange_type s)"
  by (simp add: name_queues_def split: ExchangeType.splits)

lemma name_queues_state:
  "let t = state_after (name_queues env) s in
     (\<exists>es. trace t = trace s @ es \<and> list_all (\<lambda>e. \<not> is_lock_event e) es \<and>
        (\<forall>B. foldl bind_step B es = B) \<and> called es = []) \<and>
     exchange_type t = exchange_type s \<and> connection t = connection s \<and>
     bound_routing_keys_share t = bound_routing_keys_share s \<and>
     bound_routing_keys_self t = bound_routing_keys_self s \<and> m_module_name t = m_module_name s"
  by (simp add: name_queues_def Let_def split: ExchangeType.splits)

text \<open>
  The bindings that connecting alone requests, and those a connected client should have by what it has
  recorded. Neither is code: they say what the bindings that a history leaves are compared with.
\<close>

definition connect_bindings :: "environment \<Rightarrow> RabbitMQWrapper \<Rightarrow> binding set" where
  "connect_bindings env s =
     (case exchange_type s of
        p2ptype \<Rightarrow> {(cbytes env (queue_name s), cbytes env (exchange_name s), cbytes env (m_module_name s))}
      | broadcasttype \<Rightarrow> {(cbytes env (queue_name s), cbytes env (exchange_name s), empty_bytes env)}
      | _ \<Rightarrow> {})"

definition expected_bindings :: "environment \<Rightarrow> RabbitMQWrapper \<Rightarrow> binding set" where
  "expected_bindings env s =
     (if exchange_type s = topictype then
        (\<lambda>k. (cbytes env (queue_name s), cbytes env (exchange_name s), cbytes env k)) `
          set (bound_routing_keys_share s) \<union>
        (\<lambda>k. (cbytes env (queue_name_self s), cbytes env (exchange_name s), cbytes env k)) `
          set (bound_routing_keys_self s)
      else connect_bindings env s)"

lemma connect_bindings_expected:
  "connect_bindings env s \<union> expected_bindings env s = expected_bindings env s"
  by (auto simp: expected_bindings_def connect_bindings_def)

text \<open>
  \<open>adds P s t\<close>: from \<open>s\<close> to \<open>t\<close> the history grows by events that make no callback and take no lock,
  and whose effect on the bindings is \<open>P\<close>.
\<close>

definition adds :: "(binding set \<Rightarrow> binding set) \<Rightarrow> RabbitMQWrapper \<Rightarrow> RabbitMQWrapper \<Rightarrow> bool" where
  "adds P s t \<longleftrightarrow>
     (\<exists>es. trace t = trace s @ es \<and> list_all (\<lambda>e. \<not> is_lock_event e) es \<and> called es = [] \<and>
       (\<forall>B. foldl bind_step B es = P B))"

lemma adds_refl: "adds (\<lambda>B. B) s s"
  by (simp add: adds_def)

lemma adds_trans: "adds P s t \<Longrightarrow> adds Q t u \<Longrightarrow> adds (\<lambda>B. Q (P B)) s u"
  unfolding adds_def
  by (elim exE conjE) (rule exI, intro conjI, assumption | simp)+

lemma adds_events:
  "trace t = trace s @ es \<Longrightarrow> list_all (\<lambda>e. \<not> is_lock_event e) es \<Longrightarrow> called es = [] \<Longrightarrow>
    (\<And>B. foldl bind_step B es = P B) \<Longrightarrow> adds P s t"
  by (auto simp: adds_def)

lemma adds_locks: "adds P s t \<Longrightarrow> locks hs (trace t) = locks hs (trace s)"
  by (auto simp: adds_def locks_append locks_only_skipped split: option.splits)

lemma adds_called: "adds P s t \<Longrightarrow> called (trace t) = called (trace s)"
  by (auto simp: adds_def)

lemma adds_bindings: "adds P s t \<Longrightarrow> session_bindings (trace t) = P (session_bindings (trace s))"
  by (auto simp: adds_def session_bindings_append)

text \<open>The histories on which the outside decides how a connection attempt goes on.\<close>

definition open_history :: "environment \<Rightarrow> RabbitMQWrapper \<Rightarrow> event list" where
  "open_history env s =
     (let h = trace s @ [Library Amqp_new_connection]; c = new_connection env h;
          h = h @ [Library (Amqp_tcp_socket_new c)]; k = new_tcp_socket env h
      in h @ [Library (Amqp_socket_open k (c_str (m_host s)) (m_port s))])"

definition login_history :: "environment \<Rightarrow> RabbitMQWrapper \<Rightarrow> event list" where
  "login_history env s =
     (let c = new_connection env (trace s @ [Library Amqp_new_connection])
      in open_history env s @ [Library (Amqp_login c ''/'' 0 131072 MAX_HEARTBEAT_TM
        AMQP_SASL_METHOD_PLAIN (c_str (m_username s)) (c_str (m_password s)))])"

definition channel_history :: "environment \<Rightarrow> RabbitMQWrapper \<Rightarrow> event list" where
  "channel_history env s =
     (let t = state_after (name_queues env) s
      in trace t @ [Library (Amqp_rpc (connection t) (channel t) (Topology Rpc_channel_open)),
           Library (Amqp_get_rpc_reply (connection t))])"

definition channel_opened :: "environment \<Rightarrow> RabbitMQWrapper \<Rightarrow> bool" where
  "channel_opened env s \<longleftrightarrow> known_type (exchange_type s) \<and>
     reply_type (last_reply env (channel_history env s)) = AMQP_RESPONSE_NORMAL"

lemma Setup_result: "result_of (SetupExchgQueChannel env) s \<longleftrightarrow> channel_opened env s"
proof (cases "run_state (name_queues env) s")
  case (Pair known t)
  then have "known = known_type (exchange_type s)" using name_queues_result [of env s] by simp
  then show ?thesis
    using Pair by (simp add: SetupExchgQueChannel_def channel_opened_def channel_history_def)
qed

text \<open>The fields that connecting and closing leave alone.\<close>

definition kept :: "RabbitMQWrapper \<Rightarrow> RabbitMQWrapper \<Rightarrow> bool" where
  "kept s t \<longleftrightarrow>
     instance_set t = instance_set s \<and> instanceType t = instanceType s \<and>
     stopThreads t = stopThreads s \<and> initialized t = initialized s \<and>
     heartbeaterr t = heartbeaterr s \<and> send_thread t = send_thread s \<and>
     recv_thread t = recv_thread s \<and> timer_thread t = timer_thread s \<and>
     m_host t = m_host s \<and> m_port t = m_port s \<and> m_username t = m_username s \<and>
     m_password t = m_password s \<and> m_module_name t = m_module_name s \<and>
     exchange_type t = exchange_type s \<and> stClientCBHandle t = stClientCBHandle s \<and>
     bound_routing_keys_self t = bound_routing_keys_self s \<and>
     routing_key_callbacks t = routing_key_callbacks s \<and> timer_tasks t = timer_tasks s \<and>
     m_next_timer_id t = m_next_timer_id s"

definition setup_summary :: "environment \<Rightarrow> RabbitMQWrapper \<Rightarrow> RabbitMQWrapper \<Rightarrow> bool \<Rightarrow> bool" where
  "setup_summary env s t success \<longleftrightarrow> kept s t \<and>
     bound_routing_keys_share t =
       (if success \<and> exchange_type s = p2ptype
        then set_insert (m_module_name s) (bound_routing_keys_share s)
        else bound_routing_keys_share s)"

lemma kept_trans: "kept s t \<Longrightarrow> kept t u \<Longrightarrow> kept s u"
  by (simp add: kept_def)

lemma name_queues_kept: "kept s (state_after (name_queues env) s)"
  by (simp add: name_queues_def kept_def split: ExchangeType.splits)

lemma Setup_summary:
  assumes "run_state (SetupExchgQueChannel env) s = (success, t)"
  shows "setup_summary env s t success \<and> connection t = connection s \<and>
    adds (\<lambda>B. if success then B \<union> connect_bindings env t else B) s t"
proof (cases "run_state (name_queues env) s")
  case (Pair known u)
  have u: "adds (\<lambda>B. B) s u" "exchange_type u = exchange_type s" "connection u = connection s"
    "bound_routing_keys_share u = bound_routing_keys_share s"
    "bound_routing_keys_self u = bound_routing_keys_self s" "m_module_name u = m_module_name s"
    "kept s u"
    using name_queues_state [of env s] name_queues_kept [of s env] Pair
    by (auto simp: adds_def Let_def)
  have t: "setup_summary env u t success \<and> connection t = connection u \<and>
      adds (\<lambda>B. if success then B \<union> connect_bindings env t else B) u t"
    using assms Pair
    by (auto simp: SetupExchgQueChannel_def setup_summary_def kept_def connect_bindings_def
        split: if_splits ExchangeType.splits intro: adds_refl intro!: adds_events)
  from t u adds_trans [OF u(1)] show ?thesis by (auto simp: setup_summary_def kept_def)
qed

subsection \<open>Connecting\<close>

text \<open>The state in which \<open>SetupExchgQueChannel\<close> starts.\<close>

definition logged_in :: "environment \<Rightarrow> RabbitMQWrapper \<Rightarrow> RabbitMQWrapper" where
  "logged_in env s =
     (let h = trace s @ [Library Amqp_new_connection]; c = new_connection env h;
          h = h @ [Library (Amqp_tcp_socket_new c)]; k = new_tcp_socket env h
      in s\<lparr>connection := c, socket := k, trace := login_history env s\<rparr>)"

lemma ConnectInit_connected:
  "connection s \<noteq> None \<Longrightarrow> run_state (ConnectInit env) s =
     (False, s\<lparr>trace := trace s @ [Logged ''RabbitMQWrapper has already been connected!'']\<rparr>)"
  by (simp add: ConnectInit_def)

lemma ConnectInit_run:
  assumes "connection s = None"
  shows "run_state (ConnectInit env) s =
    (if open_status env (open_history env s) \<noteq> 0 then
       (False, (logged_in env s)\<lparr>trace := open_history env s @ [Logged ''Error opening socket'']\<rparr>)
     else if reply_type (login_reply env (login_history env s)) \<noteq> AMQP_RESPONSE_NORMAL then
       (False, (logged_in env s)\<lparr>trace := login_history env s @ [Logged ''Login failed!'']\<rparr>)
     else run_state (SetupExchgQueChannel env) (logged_in env s))"
  using assms
  by (simp add: ConnectInit_def Let_def open_history_def login_history_def logged_in_def)

lemma logged_in_fields [simp]:
  "exchange_type (logged_in env s) = exchange_type s"
  "m_module_name (logged_in env s) = m_module_name s"
  "instance_set (logged_in env s) = instance_set s"
  "instanceType (logged_in env s) = instanceType s"
  "stopThreads (logged_in env s) = stopThreads s"
  "initialized (logged_in env s) = initialized s"
  "heartbeaterr (logged_in env s) = heartbeaterr s"
  "send_thread (logged_in env s) = send_thread s"
  "recv_thread (logged_in env s) = recv_thread s"
  "timer_thread (logged_in env s) = timer_thread s"
  "m_host (logged_in env s) = m_host s"
  "m_port (logged_in env s) = m_port s"
  "m_username (logged_in env s) = m_username s"
  "m_password (logged_in env s) = m_password s"
  "stClientCBHandle (logged_in env s) = stClientCBHandle s"
  "routing_key_callbacks (logged_in env s) = routing_key_callbacks s"
  "timer_tasks (logged_in env s) = timer_tasks s"
  "m_next_timer_id (logged_in env s) = m_next_timer_id s"
  "bound_routing_keys_self (logged_in env s) = bound_routing_keys_self s"
  "bound_routing_keys_share (logged_in env s) = bound_routing_keys_share s"
  "connection (logged_in env s) = new_connection env (trace s @ [Library Amqp_new_connection])"
  "trace (logged_in env s) = login_history env s"
  by (simp_all add: logged_in_def Let_def)

lemma history_adds:
  "adds (\<lambda>B. {}) s (t\<lparr>trace := open_history env s @ [Logged l]\<rparr>)"
  "adds (\<lambda>B. {}) s (t\<lparr>trace := login_history env s @ [Logged l]\<rparr>)"
  "adds (\<lambda>B. {}) s (logged_in env s)"
  by (rule adds_events, simp add: open_history_def login_history_def Let_def, simp, simp, simp)+

lemma ConnectInit_summary:
  assumes "run_state (ConnectInit env) s = (success, t)"
  shows "setup_summary env s t success \<and>
    adds (\<lambda>B. if connection s \<noteq> None then B
              else if success then connect_bindings env t else {}) s t \<and>
    (success \<longrightarrow> connection s = None) \<and>
    (connection t = None \<longrightarrow>
      new_connection env (trace s @ [Library Amqp_new_connection]) = None)"
proof (cases "connection s = None")
  case False
  with assms show ?thesis
    by (auto simp: ConnectInit_connected setup_summary_def kept_def intro: adds_events)
next
  case True
  note run = assms [unfolded ConnectInit_run [OF True]]
  consider (refused) "success = False" "setup_summary env s t False" "adds (\<lambda>B. {}) s t"
      "connection t = connection (logged_in env s)"
    | (go_on) "run_state (SetupExchgQueChannel env) (logged_in env s) = (success, t)"
    using run history_adds(1,2) [where s = s and env = env and t = "logged_in env s"]
    by (auto simp: setup_summary_def kept_def split: if_splits)
  then show ?thesis
  proof cases
    case refused
    with True show ?thesis by simp
  next
    case go_on
    note sum = Setup_summary [OF go_on]
    then have "adds (\<lambda>B. if success then {} \<union> connect_bindings env t else {}) s t"
      using adds_trans [OF history_adds(3)] by blast
    with sum True show ?thesis by (cases "success") (simp_all add: setup_summary_def kept_def)
  qed
qed

lemma ConnectInit_result:
  "result_of (ConnectInit env) s \<longleftrightarrow> connection s = None \<and>
    open_status env (open_history env s) = 0 \<and>
    reply_type (login_reply env (login_history env s)) = AMQP_RESPONSE_NORMAL \<and>
    channel_opened env (logged_in env s)"
  by (cases "connection s = None")
    (simp_all add: ConnectInit_connected ConnectInit_run Setup_result)

subsection \<open>Reconnecting\<close>

lemma rebind_summary:
  "setup_summary env s (state_after (rebind env) s) False \<and>
   connection (state_after (rebind env) s) = connection s \<and>
   expected_bindings env (state_after (rebind env) s) = expected_bindings env s \<and>
   adds (\<lambda>B. B \<union> expected_bindings env s) s (state_after (rebind env) s)"
proof (cases "exchange_type s")
  case topictype
  let ?bind = "\<lambda>q k. Library (Amqp_rpc (connection s) (channel s) (Topology (Rpc_queue_bind
    (cbytes env q) (cbytes env (exchange_name s)) (cbytes env k) (empty_table env))))"
  have "trace (state_after (rebind env) s) = trace s @
      map (?bind (queue_name s)) (bound_routing_keys_share s) @
      map (?bind (queue_name_self s)) (bound_routing_keys_self s)"
    by (simp add: rebind_def topictype amqp_queue_bind_def)
  then have "adds (\<lambda>B. B \<union> expected_bindings env s) s (state_after (rebind env) s)"
    by (rule adds_events)
      (auto simp: list_all_iff expected_bindings_def topictype foldl_bind_loop)
  then show ?thesis
    by (simp add: rebind_def topictype amqp_queue_bind_def setup_summary_def kept_def expected_bindings_def)
qed (auto simp: rebind_def setup_summary_def kept_def expected_bindings_def connect_bindings_def
    intro!: adds_events)

lemma close_summary:
  "setup_summary env s (state_after close_connection s) False \<and>
   connection (state_after close_connection s) = None \<and>
   adds (\<lambda>B. B) s (state_after close_connection s)"
  by (auto simp: close_connection_def setup_summary_def kept_def intro!: adds_events)

lemma setup_summary_trans:
  "setup_summary env s t False \<Longrightarrow> setup_summary env t u b \<Longrightarrow> setup_summary env s u b"
  "setup_summary env s t b \<Longrightarrow> setup_summary env t u False \<Longrightarrow> setup_summary env s u b"
  by (auto simp: setup_summary_def kept_def)

text \<open>The state in which a reconnection calls \<open>ConnectInit\<close>: the old connection is closed.\<close>

definition closed :: "RabbitMQWrapper \<Rightarrow> RabbitMQWrapper" where
  "closed s = (if connection s \<noteq> None then state_after close_connection s else s)"

lemma closed_summary:
  "setup_summary env s (closed s) False \<and> connection (closed s) = None \<and>
   adds (\<lambda>B. B) s (closed s)"
  using close_summary [of env s] by (simp add: closed_def setup_summary_def kept_def adds_refl)

lemma reconnect_locked_eq:
  "state_after (reconnect_locked env) s =
     (if result_of (ConnectInit env) (closed s)
      then state_after (do { rebind env; log ''reconnect proc complete.'' })
             (state_after (ConnectInit env) (closed s))
      else state_after (ConnectInit env) (closed s))"
  by (simp add: reconnect_locked_def closed_def split_beta)

lemma reconnect_locked_summary:
  assumes "t = state_after (reconnect_locked env) s" and "ok = result_of (ConnectInit env) (closed s)"
  shows "setup_summary env s t ok \<and>
    adds (\<lambda>B. if ok then expected_bindings env t else {}) s t"
proof -
  define u where "u = state_after (ConnectInit env) (closed s)"
  have u: "setup_summary env s u ok" "adds (\<lambda>B. if ok then connect_bindings env u else {}) s u"
    using ConnectInit_summary [of env "closed s" ok u] closed_summary [of env s] assms(2)
      adds_trans setup_summary_trans(1)
    by (auto simp: u_def split: if_splits)
  show ?thesis
  proof (cases ok)
    case False
    then show ?thesis using assms u by (simp add: reconnect_locked_eq u_def)
  next
    case True
    define v where "v = state_after (rebind env) u"
    have v: "setup_summary env s v ok" "expected_bindings env v = expected_bindings env u"
      "adds (\<lambda>B. expected_bindings env v) s v"
      using rebind_summary [of env u] u True setup_summary_trans(2)
        adds_trans [of "\<lambda>B. connect_bindings env u" s u "\<lambda>B. B \<union> expected_bindings env u" v]
      by (auto simp: v_def connect_bindings_expected)
    have t: "t = v\<lparr>trace := trace v @ [Logged ''reconnect proc complete.'']\<rparr>"
      using assms True by (simp add: reconnect_locked_eq u_def v_def split_beta)
    then have "adds (\<lambda>B. B) v t"
      by (intro adds_events [where es = "[Logged ''reconnect proc complete.'']"]) simp_all
    moreover have "expected_bindings env t = expected_bindings env v"
      using t by (simp add: expected_bindings_def connect_bindings_def split: ExchangeType.splits)
    ultimately show ?thesis
      using v(1) t True adds_trans [OF v(3), of "\<lambda>B. B" t] by (simp add: setup_summary_def kept_def)
  qed
qed

text \<open>A reconnection by a thread that does not hold the mutex.\<close>

lemma held_log: "held (h @ [Logged l]) = held h"
  by (simp add: held_def locks_append split: option.splits)

lemma ReconnectProc_run:
  assumes "conn_mutex \<notin> set (held (trace s))"
    and "u = state_after (reconnect_locked env)
      (s\<lparr>trace := trace s @ [Logged ''reconnect proc...'', Lock conn_mutex]\<rparr>)"
  shows "run_state (ReconnectProc env) s = (True, u\<lparr>trace := trace u @ [Unlock conn_mutex]\<rparr>)"
  using assms by (simp add: ReconnectProc_def held_log split_beta Let_def)

lemma ReconnectProc_stuck:
  "conn_mutex \<in> set (held (trace s)) \<Longrightarrow> run_state (ReconnectProc env) s =
    (False, s\<lparr>trace := trace s @ [Logged ''reconnect proc...'', Lock conn_mutex]\<rparr>)"
  by (simp add: ReconnectProc_def held_log)

lemma ReconnectProc_kept: "kept s (state_after (ReconnectProc env) s)"
proof (cases "conn_mutex \<in> set (held (trace s))")
  case True
  then show ?thesis by (simp add: ReconnectProc_stuck kept_def)
next
  case False
  show ?thesis
    using reconnect_locked_summary [OF refl refl, of env
        "s\<lparr>trace := trace s @ [Logged ''reconnect proc...'', Lock conn_mutex]\<rparr>"]
    by (simp add: ReconnectProc_run [OF False refl] setup_summary_def kept_def)
qed

section \<open>Properties of the instance and its connection\<close>

lemma getInstance_set:
  "instance_set s \<Longrightarrow> run_state (getInstance env type) s =
    (if instanceType s = type then Inr ()
     else Inl (Runtime_error ''RabbitMQWrapper instance already created with a different type!''),
     s\<lparr>trace := trace s @ [Lock instanceMutex, Unlock instanceMutex]\<rparr>)"
  by (simp add: getInstance_def)

lemma getInstance_Inr:
  assumes "run_state (getInstance env type) s = (Inr (), t)"
  shows "instance_set t \<and> instanceType t = type"
  using assms by (auto simp: getInstance_def construct_def split: if_splits)

text \<open>
  \<open>ConnectInit\<close> succeeds exactly when there is no connection yet and each step of the outside
  succeeds in turn: opening the socket, the login, and opening the channel of a known exchange type.
\<close>

lemma connect_succeeds_iff:
  "result_of (ConnectInit env) s \<longleftrightarrow>
     connection s = None \<and>
     open_status env (open_history env s) = status_value AMQP_STATUS_OK \<and>
     reply_type (login_reply env (login_history env s)) = AMQP_RESPONSE_NORMAL \<and>
     (exchange_type s = p2ptype \<or> exchange_type s = topictype \<or> exchange_type s = broadcasttype) \<and>
     reply_type (last_reply env (channel_history env (logged_in env s))) = AMQP_RESPONSE_NORMAL"
  by (cases "exchange_type s") (auto simp: ConnectInit_result channel_opened_def)

text \<open>
  C15: After a reconnection that connects, the bindings made in the new session are exactly those the
  client has recorded: its shared and own routing keys for a topic client, its module name for a
  point-to-point client, the unkeyed binding for a broadcast client. When it fails no binding is left.
  What the client has recorded stays, except that a point-to-point client records its module name.
\<close>

theorem reconnect_restores_bindings:
  assumes "conn_mutex \<notin> set (held (trace s))"
    and "t = state_after (ReconnectProc env) s"
    and "connected = result_of (ConnectInit env)
      (closed (s\<lparr>trace := trace s @ [Logged ''reconnect proc...'', Lock conn_mutex]\<rparr>))"
  shows "session_bindings (trace t) = (if connected then expected_bindings env t else {}) \<and>
    bound_routing_keys_self t = bound_routing_keys_self s \<and>
    bound_routing_keys_share t =
      (if connected \<and> exchange_type s = p2ptype
       then set_insert (m_module_name s) (bound_routing_keys_share s)
       else bound_routing_keys_share s)"
proof -
  let ?s = "s\<lparr>trace := trace s @ [Logged ''reconnect proc...'', Lock conn_mutex]\<rparr>"
  define u where "u = state_after (reconnect_locked env) ?s"
  have t: "t = u\<lparr>trace := trace u @ [Unlock conn_mutex]\<rparr>"
    using assms(2) by (simp add: ReconnectProc_run [OF assms(1) u_def])
  note sum = reconnect_locked_summary [OF u_def assms(3)]
  have "expected_bindings env t = expected_bindings env u"
    unfolding t by (simp add: expected_bindings_def connect_bindings_def split: ExchangeType.splits)
  moreover have "session_bindings (trace t) = session_bindings (trace u)"
    unfolding t by (simp add: session_bindings_append)
  ultimately show ?thesis
    using adds_bindings [OF conjunct2 [OF sum]] conjunct1 [OF sum] t
    by (simp add: setup_summary_def kept_def)
qed

theorem reconnect_restores_bindings_witness:
  "session_bindings (trace (state_after (ReconnectProc sample_env)
      (sample_client topictype\<lparr>bound_routing_keys_share := [''a.*'']\<rparr>))) \<noteq> {}"
proof -
  let ?s = "sample_client topictype\<lparr>bound_routing_keys_share := [''a.*'']\<rparr>"
  let ?t = "state_after (ReconnectProc sample_env) ?s"
  have free: "conn_mutex \<notin> set (held (trace ?s))" by (simp add: held_def)
  have up: "result_of (ConnectInit sample_env)
      (closed (?s\<lparr>trace := trace ?s @ [Logged ''reconnect proc...'', Lock conn_mutex]\<rparr>))"
    by (simp add: ConnectInit_result channel_opened_def closed_def close_connection_def)
  note post = reconnect_restores_bindings [OF free refl [of ?t] refl]
  have "exchange_type ?t = topictype"
    using ReconnectProc_kept [of ?s sample_env] by (simp add: kept_def)
  with post up show ?thesis by (auto simp: expected_bindings_def)
qed

text \<open>
  \<open>ReconnectProc\<close> called by a thread that holds \<open>conn_mutex\<close> does not return: it waits for the
  mutex that only it can release, having success nothing but log.
\<close>

lemma reconnect_blocks_holder:
  "if conn_mutex \<in> set (held (trace s))
   then run_state (ReconnectProc env) s =
     (False, s\<lparr>trace := trace s @ [Logged ''reconnect proc...'', Lock conn_mutex]\<rparr>)
   else result_of (ReconnectProc env) s"
  by (simp add: ReconnectProc_stuck ReconnectProc_run [OF _ refl])

text \<open>Attempts to start or to free the client, and what those to start it return, in order.\<close>

datatype attempt = Init_again environment string i32 string string string | Free_again

primrec attempts :: "attempt list \<Rightarrow> bool list op" where
  "attempts [] = ret []"
| "attempts (a # as) =
     (case a of
        Init_again env host port user password module_name \<Rightarrow> do {
          ok \<leftarrow> rabbitmq_init env host port user password module_name;
          oks \<leftarrow> attempts as;
          ret (ok # oks)
        }
      | Free_again \<Rightarrow> do { rabbitmq_free; attempts as })"

lemma refused_for_ever:
  assumes "connection t \<noteq> None" "\<not> initialized t"
  shows "set (result_of (attempts as) t) \<subseteq> {False} \<and>
    connection (state_after (attempts as) t) = connection t \<and> \<not> initialized (state_after (attempts as) t)"
  using assms
proof (induction as arbitrary: t)
  case (Cons a as)
  show ?case
  proof (cases a)
    case (Init_again env host port user password name)
    let ?u = "t\<lparr>m_host := host, m_port := port, m_username := user, m_password := password,
      m_module_name := name, trace := trace t @ [Logged ''RabbitMQWrapper has already been connected!'']\<rparr>"
    have "run_state (rabbitmq_init env host port user password name) t = (False, ?u)"
      using Cons.prems by (simp add: rabbitmq_init_def ConnectInit_def)
    then show ?thesis using Cons.IH [of ?u] Cons.prems by (simp add: Init_again split_beta)
  next
    case Free_again
    have "run_state rabbitmq_free t = ((), t)" using Cons.prems by (simp add: rabbitmq_free_def)
    then show ?thesis using Cons.IH [OF Cons.prems] by (simp add: Free_again)
  qed
qed simp

text \<open>
  C38: A connection attempt of \<open>rabbitmq_init\<close>, made without a connection, that got a
  connection object and failed later leaves the client where nothing helps: in every sequence of further
  calls of \<open>rabbitmq_init\<close> and \<open>rabbitmq_free\<close>, whatever their arguments and
  whatever the library answers, each \<open>rabbitmq_init\<close> is refused, the connection stays set and
  the client uninitialized; the first \<open>rabbitmq_free\<close> already does nothing.
\<close>

theorem failed_init_is_final:
  assumes "run_state (rabbitmq_init env host port user password module_name) s = (False, t)"
    and "\<not> initialized s" and "connection s = None"
    and "new_connection env (trace s @ [Library Amqp_new_connection]) \<noteq> None"
  shows "set (result_of (attempts as) t) \<subseteq> {False} \<and>
    connection (state_after (attempts as) t) = connection t \<and> connection t \<noteq> None \<and>
    \<not> initialized (state_after (attempts as) t) \<and> state_after rabbitmq_free t = t"
proof -
  let ?s = "s\<lparr>m_host := host, m_port := port, m_username := user, m_password := password,
    m_module_name := module_name\<rparr>"
  from assms(1,2) have "run_state (ConnectInit env) ?s = (False, t)"
    by (cases "run_state (ConnectInit env) ?s") (simp add: rabbitmq_init_def split: if_splits)
  note run = ConnectInit_summary [OF this]
  then have "connection t \<noteq> None" using assms(3,4) by auto
  moreover have "\<not> initialized t" using run assms(2) by (simp add: setup_summary_def kept_def)
  ultimately show ?thesis
    using refused_for_ever [of t as] by (simp add: rabbitmq_free_def)
qed

lemma init_fails_run:
  assumes "\<not> initialized s" and "run_state (ConnectInit env) (s\<lparr>m_host := host, m_port := port,
      m_username := user, m_password := password, m_module_name := module_name\<rparr>) = (False, t)"
  shows "run_state (rabbitmq_init env host port user password module_name) s = (False, t)"
  using assms by (simp add: rabbitmq_init_def)

theorem failed_init_is_final_witness:
  "\<exists>t. run_state (rabbitmq_init (sample_env\<lparr>open_status := (\<lambda>_. 1)\<rparr>) ''host'' 5672 ''user'' ''pw'' ''m'')
      (sample_client p2ptype\<lparr>initialized := False, connection := None\<rparr>) = (False, t) \<and>
    result_of (attempts [Free_again, Init_again sample_env ''host'' 5672 ''user'' ''pw'' ''m'']) t = [False]"
proof -
  let ?env = "sample_env\<lparr>open_status := (\<lambda>_. 1)\<rparr>"
  let ?s = "sample_client p2ptype\<lparr>initialized := False, connection := None\<rparr>"
  obtain t where t: "run_state (rabbitmq_init ?env ''host'' 5672 ''user'' ''pw'' ''m'') ?s = (False, t)"
    by (simp add: rabbitmq_init_def ConnectInit_run)
  let ?as = "[Free_again, Init_again sample_env ''host'' 5672 ''user'' ''pw'' ''m'']"
  have "set (result_of (attempts ?as) t) \<subseteq> {False}"
    by (rule conjunct1 [OF failed_init_is_final [OF t]]) simp_all
  then have "result_of (attempts ?as) t = [False]" by (simp add: split_beta)
  with t show ?thesis by blast
qed

lemma init_uninitialized:
  assumes "\<not> initialized s"
    and "run_state (rabbitmq_init env host port user password module_name) s = (ok, t)"
  shows "ok = result_of (ConnectInit env) (s\<lparr>m_host := host, m_port := port, m_username := user,
        m_password := password, m_module_name := module_name\<rparr>) \<and>
      initialized t = ok \<and> m_host t = host \<and> m_port t = port \<and> m_username t = user \<and>
      m_password t = password \<and> m_module_name t = module_name \<and> stopThreads t = stopThreads s \<and>
      (ok \<longrightarrow> send_thread t \<and> recv_thread t \<and> timer_thread t)"
proof -
  let ?s = "s\<lparr>m_host := host, m_port := port, m_username := user, m_password := password,
    m_module_name := module_name\<rparr>"
  obtain success u where u: "run_state (ConnectInit env) ?s = (success, u)" by fastforce
  have "kept ?s u" using ConnectInit_summary [OF u] by (simp add: setup_summary_def)
  then have "m_host u = host \<and> m_port u = port \<and> m_username u = user \<and> m_password u = password \<and>
      m_module_name u = module_name \<and> stopThreads u = stopThreads s \<and> \<not> initialized u"
    using assms(1) by (simp add: kept_def)
  then show ?thesis
    using assms u by (cases "success") (simp_all add: rabbitmq_init_def, auto)
qed

text \<open>
  \<open>rabbitmq_init\<close> runs once: while the client is initialized it is refused and changes nothing;
  otherwise it succeeds exactly when connecting does, and then the three threads run and the client
  is initialized with the given host, port, user, password and module name.
\<close>

lemma init_starts_client:
  assumes "run_state (rabbitmq_init env host port user password module_name) s = (ok, t)"
  shows "if initialized s
    then \<not> ok \<and> t = s\<lparr>trace := trace s @ [Logged ''RabbitMQWrapper has already been initialized!'']\<rparr>
    else ok = result_of (ConnectInit env) (s\<lparr>m_host := host, m_port := port, m_username := user,
        m_password := password, m_module_name := module_name\<rparr>) \<and>
      initialized t = ok \<and> m_host t = host \<and> m_port t = port \<and> m_username t = user \<and>
      m_password t = password \<and> m_module_name t = module_name \<and> stopThreads t = stopThreads s \<and>
      (ok \<longrightarrow> send_thread t \<and> recv_thread t \<and> timer_thread t)"
  using assms init_uninitialized [OF _ assms] by (auto simp: rabbitmq_init_def)

lemma init_keeps_stop:
  "stopThreads (state_after (rabbitmq_init env host port user password module_name) s) = stopThreads s"
proof (cases "initialized s")
  case True
  then show ?thesis by (simp add: rabbitmq_init_def)
next
  case False
  then show ?thesis
    using init_uninitialized [OF False surjective_pairing] by simp
qed

lemma free_trace:
  assumes "initialized s"
  shows "trace (state_after rabbitmq_free s) = trace s @
    [Printed ''start wrapper destroy.'', Logged ''start wrapper destroy.''] @
    (if send_thread s then [Joined Send_thread] else []) @ [Logged ''send_thread complete.''] @
    (if recv_thread s then [Joined Receive_thread] else []) @ [Logged ''recv_thread complete.''] @
    (if timer_thread s then [Joined Timer_thread] else []) @ [Logged ''timer_thread complete.''] @
    (if connection s \<noteq> None then
       [Lock conn_mutex, Library (Amqp_connection_close (connection s) (constant_value AMQP_REPLY_SUCCESS)),
        Library (Amqp_destroy_connection (connection s)), Unlock conn_mutex] else []) @
    [Logged ''close socket and destroy connect complete.'', Printed ''wrapper destroy complete.'',
     Logged ''RabbitMQWrapper destroy complete.'']"
  by (cases "send_thread s"; cases "recv_thread s"; cases "timer_thread s"; cases "connection s")
    (simp_all add: rabbitmq_free_def close_connection_def assms)

lemma free_fields:
  assumes "initialized s"
  shows "\<not> initialized (state_after rabbitmq_free s)" "connection (state_after rabbitmq_free s) = None"
    "stopThreads (state_after rabbitmq_free s)" "\<not> send_thread (state_after rabbitmq_free s)"
    "\<not> recv_thread (state_after rabbitmq_free s)" "\<not> timer_thread (state_after rabbitmq_free s)"
  by (simp_all add: rabbitmq_free_def close_connection_def assms)

text \<open>
  Freeing an initialized client joins exactly the threads that run, closes and forgets the
  connection and leaves the client uninitialized, with \<open>stopThreads\<close> set for good: the following
  \<open>rabbitmq_init\<close> starts its threads with \<open>stopThreads\<close> still set. Freeing again changes nothing.
\<close>

lemma free_releases_client:
  assumes "initialized s" and "t = state_after rabbitmq_free s"
  shows "\<not> initialized t \<and> connection t = None \<and> stopThreads t \<and>
    \<not> send_thread t \<and> \<not> recv_thread t \<and> \<not> timer_thread t \<and>
    filter (\<lambda>e. \<exists>th. e = Joined th) (drop (length (trace s)) (trace t)) =
      (if send_thread s then [Joined Send_thread] else []) @
      (if recv_thread s then [Joined Receive_thread] else []) @
      (if timer_thread s then [Joined Timer_thread] else []) \<and>
    state_after rabbitmq_free t = t \<and>
    stopThreads (state_after (rabbitmq_init env host port user password module_name) t)"
proof -
  have stop: "\<not> initialized t \<and> stopThreads t"
    using assms by (simp add: free_fields)
  then have "stopThreads (state_after (rabbitmq_init env host port user password module_name) t)"
    by (simp add: init_keeps_stop)
  moreover have "state_after rabbitmq_free t = t" using stop by (simp add: rabbitmq_free_def)
  ultimately show ?thesis
    using stop unfolding assms(2) by (simp add: free_fields free_trace assms(1))
qed

end
