(* ===== verification/Topic_Match.thy ===== *)
theory Topic_Match
  imports Prelude
begin

section \<open>Matching routing keys against patterns (MatchRoutingKey)\<close>

text \<open>
  \<open>MatchRoutingKey\<close> of \<open>src/rabbitmqclient.cpp\<close> rewrites a topic pattern to a regular expression and
  matches the key with \<open>std::regex_match\<close>. The rewriting loops are modelled on the string; of the
  ECMAScript grammar of \<open>std::regex\<close> the model has what the rewriting can produce from patterns of
  ordinary characters, dots, stars and hashes. A pattern with another special character gives \<open>None\<close>.

  The lemmas show that the loops replace every occurrence, that the matcher decides the language of the
  expression, and how the result compares with the word-wise matching of AMQP topic exchanges.
\<close>

subsection \<open>The rewriting loops\<close>

text \<open>\<open>s.find(c, pos)\<close>, \<open>None\<close> for \<open>npos\<close>.\<close>

primrec find_char :: "char \<Rightarrow> nat \<Rightarrow> string \<Rightarrow> nat option" where
  "find_char c pos [] = None"
| "find_char c pos (x # s) =
     (case pos of
        0 \<Rightarrow> if x = c then Some 0 else map_option Suc (find_char c 0 s)
      | Suc pos' \<Rightarrow> map_option Suc (find_char c pos' s))"

lemma find_char_Some:
  "find_char c pos s = Some p \<Longrightarrow> pos \<le> p \<and> p < length s \<and> s ! p = c \<and> c \<notin> set (take (p - pos) (drop pos s))"
proof (induction s arbitrary: pos p)
  case (Cons x s)
  show ?case
  proof (cases pos)
    case 0
    with Cons.prems Cons.IH [of 0] show ?thesis by (auto split: if_splits)
  next
    case (Suc pos')
    with Cons.prems Cons.IH [of pos'] show ?thesis by auto
  qed
qed simp

lemma find_char_None: "find_char c pos s = None \<longleftrightarrow> c \<notin> set (drop pos s)"
proof (induction s arbitrary: pos)
  case (Cons x s)
  then show ?case by (cases pos) auto
qed simp

text \<open>
  \<open>while ((pos = s.find(c, pos)) != npos) { s.replace(pos, 1, r); pos += |r|; }\<close>
\<close>

function replace_loop :: "char \<Rightarrow> string \<Rightarrow> nat \<Rightarrow> string \<Rightarrow> string" where
  "replace_loop c r pos s =
     (case find_char c pos s of
        None \<Rightarrow> s
      | Some p \<Rightarrow> replace_loop c r (p + length r) (take p s @ r @ drop (Suc p) s))"
  by pat_completeness auto
termination
proof (relation "measure (\<lambda>(c, r, pos, s). length s - pos)")
  fix c pos s p and r :: string
  assume "find_char c pos s = Some p"
  then have "pos \<le> p" "p < length s" using find_char_Some by blast+
  then show "((c, r, p + length r, take p s @ r @ drop (Suc p) s), (c, r, pos, s))
      \<in> measure (\<lambda>(c, r, pos, s). length s - pos)"
    by auto
qed simp

declare replace_loop.simps [simp del]

definition substitute :: "char \<Rightarrow> string \<Rightarrow> string \<Rightarrow> string" where
  "substitute c r s = concat (map (\<lambda>x. if x = c then r else [x]) s)"

lemma substitute_append: "substitute c r (s @ t) = substitute c r s @ substitute c r t"
  by (simp add: substitute_def)

lemma substitute_absent: "c \<notin> set s \<Longrightarrow> substitute c r s = s"
  by (induction s) (auto simp: substitute_def)

lemma replace_loop_substitute:
  "pos \<le> length s \<Longrightarrow> replace_loop c r pos s = take pos s @ substitute c r (drop pos s)"
proof (induction c r pos s rule: replace_loop.induct)
  case (1 c r pos s)
  show ?case
  proof (cases "find_char c pos s")
    case None
    then have "c \<notin> set (drop pos s)" by (simp add: find_char_None)
    with None show ?thesis by (subst replace_loop.simps) (simp add: substitute_absent)
  next
    case (Some p)
    have p: "pos \<le> p" "p < length s" "s ! p = c" and fresh: "c \<notin> set (take (p - pos) (drop pos s))"
      using find_char_Some [OF Some] by blast+
    let ?t = "take p s @ r @ drop (Suc p) s"
    have "drop pos s = take (p - pos) (drop pos s) @ c # drop (Suc p) s"
    proof -
      have "drop pos s = take (p - pos) (drop pos s) @ drop (p - pos) (drop pos s)"
        by (rule append_take_drop_id [symmetric])
      also have "drop (p - pos) (drop pos s) = drop p s" using p(1) by simp
      also have "\<dots> = c # drop (Suc p) s" using p by (metis Cons_nth_drop_Suc)
      finally show ?thesis .
    qed
    then have "substitute c r (drop pos s) = substitute c r (take (p - pos) (drop pos s)) @
        substitute c r (c # drop (Suc p) s)"
      by (metis substitute_append)
    then have "substitute c r (drop pos s) =
        take (p - pos) (drop pos s) @ r @ substitute c r (drop (Suc p) s)"
      using substitute_absent [OF fresh] by (simp add: substitute_def)
    moreover have "take p s = take pos s @ take (p - pos) (drop pos s)"
      using p(1) by (metis le_add_diff_inverse take_add)
    moreover have "replace_loop c r (p + length r) ?t =
        take (p + length r) ?t @ substitute c r (drop (p + length r) ?t)"
      using 1(1) [OF Some] p by simp
    ultimately show ?thesis
      using Some p by (subst replace_loop.simps) simp
  qed
qed

subsection \<open>Regular expressions\<close>

text \<open>
  The elements the rewriting produces: an ordinary character, \<open>.\<close>, \<open>[^\.]+\<close> and \<open>.*\<close>. In the
  ECMAScript grammar \<open>.\<close> stands for any character but a line terminator.
\<close>

datatype regex_atom = Literal char | Any_char | Not_dot_plus | Any_star

definition any_char :: "char \<Rightarrow> bool" where
  "any_char c \<longleftrightarrow> c \<noteq> CHR 0x0A \<and> c \<noteq> CHR 0x0D"

definition special_chars :: string where
  "special_chars = CHR 0x5C # ''[](){}+?|^$*''"

text \<open>The six characters \<open>[^\.]+\<close>; the backslash is written by its code.\<close>

definition not_dot_text :: string where
  "not_dot_text = ''[^'' @ [CHR 0x5C] @ ''.]+''"

text \<open>
  Reading an expression: the texts of \<open>[^\.]+\<close> and \<open>.*\<close> are recognised as written by the
  rewriting; any other special character is outside the modelled grammar.
\<close>

fun parse_atoms :: "string \<Rightarrow> regex_atom list option" where
  "parse_atoms [] = Some []"
| "parse_atoms (c # s) =
     (if c = CHR ''['' then
        if take 5 s = tl not_dot_text then map_option ((#) Not_dot_plus) (parse_atoms (drop 5 s)) else None
      else if c = CHR ''.'' then
        if take 1 s = ''*'' then map_option ((#) Any_star) (parse_atoms (drop 1 s))
        else map_option ((#) Any_char) (parse_atoms s)
      else if c \<in> set special_chars then None
      else map_option ((#) (Literal c)) (parse_atoms s))"

text \<open>The whole expression is anchored: \<open>^\<close>, the elements, \<open>$\<close>.\<close>

definition parse_regex :: "string \<Rightarrow> regex_atom list option" where
  "parse_regex s =
     (if 2 \<le> length s \<and> hd s = CHR ''^'' \<and> last s = CHR ''$'' then parse_atoms (butlast (tl s))
      else None)"

text \<open>\<open>std::regex_match\<close>: the expression matches the whole string.\<close>

function regex_match :: "regex_atom list \<Rightarrow> string \<Rightarrow> bool" where
  "regex_match [] s \<longleftrightarrow> s = []"
| "regex_match (Literal c # r) s \<longleftrightarrow> (case s of [] \<Rightarrow> False | x # s' \<Rightarrow> x = c \<and> regex_match r s')"
| "regex_match (Any_char # r) s \<longleftrightarrow> (case s of [] \<Rightarrow> False | x # s' \<Rightarrow> any_char x \<and> regex_match r s')"
| "regex_match (Not_dot_plus # r) s \<longleftrightarrow>
     (case s of [] \<Rightarrow> False
      | x # s' \<Rightarrow> x \<noteq> CHR ''.'' \<and> (regex_match r s' \<or> regex_match (Not_dot_plus # r) s'))"
| "regex_match (Any_star # r) s \<longleftrightarrow>
     regex_match r s \<or> (case s of [] \<Rightarrow> False | x # s' \<Rightarrow> any_char x \<and> regex_match (Any_star # r) s')"
  by pat_completeness auto
termination
  by (relation "measures [\<lambda>(r, s). length s, \<lambda>(r, s). length r]") auto

declare regex_match.simps(4,5) [simp del]

lemma regex_match_repeat [simp]:
  "\<not> regex_match (Not_dot_plus # r) []"
  "regex_match (Not_dot_plus # r) (x # s) \<longleftrightarrow>
     x \<noteq> CHR ''.'' \<and> (regex_match r s \<or> regex_match (Not_dot_plus # r) s)"
  "regex_match (Any_star # r) [] \<longleftrightarrow> regex_match r []"
  "regex_match (Any_star # r) (x # s) \<longleftrightarrow>
     regex_match r (x # s) \<or> any_char x \<and> regex_match (Any_star # r) s"
  by (subst regex_match.simps; simp)+

definition regex_pattern :: "string \<Rightarrow> string" where
  "regex_pattern pattern = replace_loop CHR ''#'' ''.*'' 0 (replace_loop CHR ''*'' not_dot_text 0 pattern)"

definition MatchRoutingKey :: "string \<Rightarrow> string \<Rightarrow> bool option" where
  "MatchRoutingKey pattern routing =
     map_option (\<lambda>r. regex_match r routing) (parse_regex (''^'' @ regex_pattern pattern @ ''$''))"

subsection \<open>From patterns to expressions\<close>

definition ordinary :: "char \<Rightarrow> bool" where
  "ordinary c \<longleftrightarrow> c \<notin> set special_chars \<and> c \<noteq> CHR ''.'' \<and> c \<noteq> CHR ''#''"

definition plain_pattern :: "string \<Rightarrow> bool" where
  "plain_pattern p \<longleftrightarrow> (\<forall>c \<in> set p. ordinary c \<or> c = CHR ''.'' \<or> c = CHR ''#'' \<or> c = CHR ''*'')"

fun atom_of :: "char \<Rightarrow> regex_atom" where
  "atom_of c = (if c = CHR ''*'' then Not_dot_plus else if c = CHR ''#'' then Any_star
     else if c = CHR ''.'' then Any_char else Literal c)"

declare atom_of.simps [simp del]

lemma atom_of_chars [simp]:
  "atom_of CHR ''*'' = Not_dot_plus" "atom_of CHR ''#'' = Any_star" "atom_of CHR ''.'' = Any_char"
  by (simp_all add: atom_of.simps)

lemma atom_of_ordinary [simp]: "ordinary c \<Longrightarrow> atom_of c = Literal c"
  by (auto simp: atom_of.simps ordinary_def special_chars_def)

text \<open>The text that stands for one character of the pattern.\<close>

definition atom_text :: "char \<Rightarrow> string" where
  "atom_text c = (if c = CHR ''*'' then not_dot_text else if c = CHR ''#'' then ''.*'' else [c])"

lemma not_dot_text_no_hash: "CHR ''#'' \<notin> set not_dot_text"
  by (simp add: not_dot_text_def)

lemma regex_pattern_concat: "regex_pattern p = concat (map atom_text p)"
proof -
  have "substitute CHR ''#'' ''.*'' (substitute CHR ''*'' not_dot_text p) = concat (map atom_text p)"
  proof (induction p)
    case (Cons c p)
    have "substitute CHR ''*'' not_dot_text (c # p) =
        (if c = CHR ''*'' then not_dot_text else [c]) @ substitute CHR ''*'' not_dot_text p"
      by (simp add: substitute_def)
    then have "substitute CHR ''#'' ''.*'' (substitute CHR ''*'' not_dot_text (c # p)) =
        substitute CHR ''#'' ''.*'' (if c = CHR ''*'' then not_dot_text else [c]) @
        concat (map atom_text p)"
      using Cons by (simp add: substitute_append)
    moreover have "substitute CHR ''#'' ''.*'' (if c = CHR ''*'' then not_dot_text else [c]) = atom_text c"
      using substitute_absent [OF not_dot_text_no_hash]
      by (simp add: atom_text_def) (simp add: substitute_def)
    ultimately show ?case by simp
  qed (simp add: substitute_def)
  then show ?thesis by (simp add: regex_pattern_def replace_loop_substitute)
qed

lemma atom_text_first: "concat (map atom_text p) = x # t \<Longrightarrow> x \<noteq> CHR ''*''"
  by (cases p) (auto simp: atom_text_def not_dot_text_def split: if_splits)

lemma parse_atom_text:
  assumes "ordinary c \<or> c = CHR ''.'' \<or> c = CHR ''#'' \<or> c = CHR ''*''" and "take 1 t \<noteq> ''*''"
  shows "parse_atoms (atom_text c @ t) = map_option ((#) (atom_of c)) (parse_atoms t)"
proof -
  consider "c = CHR ''*''" | "c = CHR ''#''" | "c = CHR ''.''" | (other) "ordinary c"
    using assms(1) by blast
  then show ?thesis
  proof cases
    case other
    then show ?thesis
      using atom_of_ordinary [OF other] by (simp add: atom_text_def ordinary_def special_chars_def)
  qed (use assms(2) in \<open>simp_all add: atom_text_def not_dot_text_def\<close>)
qed

lemma parse_plain:
  "plain_pattern p \<Longrightarrow> parse_atoms (concat (map atom_text p)) = Some (map atom_of p)"
proof (induction p)
  case (Cons c p)
  have "take 1 (concat (map atom_text p)) \<noteq> ''*''"
    using atom_text_first [of p]
    by (cases "concat (map atom_text p)") (auto simp del: concat_eq_Nil_conv)
  moreover have "ordinary c \<or> c = CHR ''.'' \<or> c = CHR ''#'' \<or> c = CHR ''*''" "plain_pattern p"
    using Cons.prems by (auto simp: plain_pattern_def)
  ultimately show ?case
    using Cons.IH parse_atom_text by simp
qed simp

lemma MatchRoutingKey_plain:
  assumes "plain_pattern p"
  shows "MatchRoutingKey p k = Some (regex_match (map atom_of p) k)"
  using parse_plain [OF assms]
  by (simp add: MatchRoutingKey_def parse_regex_def regex_pattern_concat)

subsection \<open>The language of an expression\<close>

fun atom_lang :: "regex_atom \<Rightarrow> string set" where
  "atom_lang (Literal c) = {[c]}"
| "atom_lang Any_char = {[x] |x. any_char x}"
| "atom_lang Not_dot_plus = {w. w \<noteq> [] \<and> CHR ''.'' \<notin> set w}"
| "atom_lang Any_star = {w. \<forall>x \<in> set w. any_char x}"

fun regex_lang :: "regex_atom list \<Rightarrow> string set" where
  "regex_lang [] = {[]}"
| "regex_lang (a # r) = {u @ v |u v. u \<in> atom_lang a \<and> v \<in> regex_lang r}"

lemma regex_lang_append:
  "s \<in> regex_lang (q @ r) \<longleftrightarrow> (\<exists>u v. s = u @ v \<and> u \<in> regex_lang q \<and> v \<in> regex_lang r)"
proof (induction q arbitrary: s)
  case (Cons a q)
  show ?case by (simp add: Cons.IH) (metis append.assoc)
qed simp

lemma regex_lang_ConsI: "u \<in> atom_lang a \<Longrightarrow> v \<in> regex_lang r \<Longrightarrow> u @ v \<in> regex_lang (a # r)"
  by auto

lemma regex_lang_ConsE:
  assumes "s \<in> regex_lang (a # r)"
  obtains u v where "s = u @ v" "u \<in> atom_lang a" "v \<in> regex_lang r"
  using assms by auto

lemma char_lang_Cons:
  "s \<in> regex_lang (Literal c # r) \<longleftrightarrow> (\<exists>s'. s = c # s' \<and> s' \<in> regex_lang r)"
  "s \<in> regex_lang (Any_char # r) \<longleftrightarrow> (\<exists>x s'. s = x # s' \<and> any_char x \<and> s' \<in> regex_lang r)"
  subgoal by simp
  subgoal by (simp, metis append_Cons append_Nil)
  done

lemma star_lang_Cons:
  "s \<in> regex_lang (Any_star # r) \<longleftrightarrow> s \<in> regex_lang r \<or>
    (\<exists>x s'. s = x # s' \<and> any_char x \<and> s' \<in> regex_lang (Any_star # r))" (is "?l \<longleftrightarrow> ?r")
proof
  assume ?l
  then obtain u v where "s = u @ v" "u \<in> atom_lang Any_star" "v \<in> regex_lang r"
    by (rule regex_lang_ConsE)
  then show ?r by (cases u) auto
next
  assume ?r
  then show ?l
  proof
    assume "s \<in> regex_lang r"
    then show ?l using regex_lang_ConsI [of "[]" Any_star s r] by simp
  next
    assume "\<exists>x s'. s = x # s' \<and> any_char x \<and> s' \<in> regex_lang (Any_star # r)"
    then obtain x u v where "s = x # u @ v" "any_char x" "u \<in> atom_lang Any_star" "v \<in> regex_lang r"
      by (auto elim!: regex_lang_ConsE)
    then show ?l using regex_lang_ConsI [of "x # u" Any_star v r] by simp
  qed
qed

lemma plus_lang_Cons:
  "s \<in> regex_lang (Not_dot_plus # r) \<longleftrightarrow>
    (\<exists>x s'. s = x # s' \<and> x \<noteq> CHR ''.'' \<and> (s' \<in> regex_lang r \<or> s' \<in> regex_lang (Not_dot_plus # r)))"
proof
  assume "s \<in> regex_lang (Not_dot_plus # r)"
  then obtain u v where s: "s = u @ v" "u \<noteq> []" "CHR ''.'' \<notin> set u" "v \<in> regex_lang r" by auto
  then obtain x u' where u: "u = x # u'" by (cases u) auto
  then show "\<exists>x s'. s = x # s' \<and> x \<noteq> CHR ''.'' \<and> (s' \<in> regex_lang r \<or> s' \<in> regex_lang (Not_dot_plus # r))"
    using s by (cases "u' = []") auto
next
  assume "\<exists>x s'. s = x # s' \<and> x \<noteq> CHR ''.'' \<and> (s' \<in> regex_lang r \<or> s' \<in> regex_lang (Not_dot_plus # r))"
  then obtain x s' where s: "s = x # s'" "x \<noteq> CHR ''.''"
    "s' \<in> regex_lang r \<or> s' \<in> regex_lang (Not_dot_plus # r)" by blast
  from s(3) obtain u v where "s' = u @ v" "CHR ''.'' \<notin> set u" "v \<in> regex_lang r"
    by auto (metis append.left_neutral empty_iff list.set(1))
  then show "s \<in> regex_lang (Not_dot_plus # r)"
    using s regex_lang_ConsI [of "x # u" Not_dot_plus v r] by simp
qed

lemma regex_match_lang: "regex_match r s \<longleftrightarrow> s \<in> regex_lang r"
proof (induction r s rule: regex_match.induct)
  case (4 r s)
  then show ?case using plus_lang_Cons [of s r] by (cases s) (simp_all del: regex_lang.simps)
next
  case (5 r s)
  then show ?case using star_lang_Cons [of s r] by (cases s) (simp_all del: regex_lang.simps)
next
  case (2 c r s)
  then show ?case using char_lang_Cons(1) [of s c r] by (cases s) (simp_all del: regex_lang.simps)
next
  case (3 r s)
  then show ?case using char_lang_Cons(2) [of s r] by (cases s) (simp_all del: regex_lang.simps)
qed simp

subsection \<open>Words, and the matching of AMQP topic exchanges\<close>

text \<open>
  A topic exchange compares word by word: \<open>*\<close> stands for one word, \<open>#\<close> for zero or more. The
  argument \<open>least\<close> of the model is the number of words a hash needs: 0 in AMQP.
\<close>

fun words :: "string \<Rightarrow> string list" where
  "words [] = [[]]"
| "words (c # s) = (if c = CHR ''.'' then [] # words s else (c # hd (words s)) # tl (words s))"

fun join_words :: "string list \<Rightarrow> string" where
  "join_words [] = []"
| "join_words [w] = w"
| "join_words (w # v # ws) = w @ CHR ''.'' # join_words (v # ws)"

lemma words_not_Nil [simp]: "words s \<noteq> []"
  by (cases s) auto

lemma join_words_Cons: "ws \<noteq> [] \<Longrightarrow> join_words (w # ws) = w @ CHR ''.'' # join_words ws"
  by (cases ws) auto

lemma join_words_words [simp]: "join_words (words s) = s"
proof (induction s)
  case (Cons c s)
  obtain w ws where w: "words s = w # ws" using words_not_Nil [of s] by (cases "words s") auto
  show ?case
  proof (cases "c = CHR ''.''")
    case True
    then show ?thesis using Cons by (simp add: join_words_Cons)
  next
    case False
    then show ?thesis using Cons w by (cases ws) auto
  qed
qed simp

lemma words_no_dot: "w \<in> set (words s) \<Longrightarrow> CHR ''.'' \<notin> set w"
proof (induction s arbitrary: w)
  case (Cons c s)
  obtain v vs where "words s = v # vs" using words_not_Nil [of s] by (cases "words s") auto
  with Cons show ?case by (auto split: if_splits)
qed simp

lemma set_words: "w \<in> set (words s) \<Longrightarrow> set w \<subseteq> set s"
proof (induction s arbitrary: w)
  case (Cons x s)
  obtain v vs where v: "words s = v # vs" using words_not_Nil [of s] by (cases "words s") auto
  then have "set v \<subseteq> set s" by (intro Cons.IH) simp
  with v Cons.IH [of w] Cons.prems show ?case by (cases "x = CHR ''.''") auto
qed simp

fun topic_match :: "nat \<Rightarrow> string list \<Rightarrow> string list \<Rightarrow> bool" where
  "topic_match least [] ws \<longleftrightarrow> ws = []"
| "topic_match least (p # ps) ws \<longleftrightarrow>
     (if p = ''#'' then list_ex (\<lambda>n. topic_match least ps (drop n ws)) [least..<Suc (length ws)]
      else case ws of
        [] \<Rightarrow> False
      | w # ws' \<Rightarrow> (p = ''*'' \<or> p = w) \<and> topic_match least ps ws')"

text \<open>A pattern whose words are \<open>*\<close>, \<open>#\<close> or ordinary text.\<close>

definition word_ok :: "string \<Rightarrow> bool" where
  "word_ok w \<longleftrightarrow> w = ''*'' \<or> w = ''#'' \<or> (\<forall>c \<in> set w. ordinary c)"

definition topic_pattern :: "string \<Rightarrow> bool" where
  "topic_pattern p \<longleftrightarrow> (\<forall>w \<in> set (words p). word_ok w)"

lemma set_join_words: "set (join_words ws) \<subseteq> insert CHR ''.'' (\<Union> (set ` set ws))"
  by (induction ws rule: join_words.induct) auto

lemma topic_pattern_plain: "topic_pattern p \<Longrightarrow> plain_pattern p"
proof -
  have ok: "ordinary c \<or> c = CHR ''#'' \<or> c = CHR ''*''" if "word_ok w" "c \<in> set w" for c w
    using that by (auto simp: word_ok_def)
  have "plain_pattern (join_words ws)" if "\<forall>w \<in> set ws. word_ok w" for ws
    unfolding plain_pattern_def using set_join_words [of ws] that ok by blast
  from this [of "words p"] show "topic_pattern p \<Longrightarrow> plain_pattern p"
    by (simp add: topic_pattern_def)
qed

definition word_atoms :: "string \<Rightarrow> regex_atom list" where
  "word_atoms w = map atom_of w"

lemma map_atom_of_join:
  "ws \<noteq> [] \<Longrightarrow> map atom_of (join_words (w # ws)) = word_atoms w @ Any_char # map atom_of (join_words ws)"
  by (simp add: join_words_Cons word_atoms_def)

subsection \<open>Words against expressions\<close>

lemma word_lang:
  assumes "word_ok p" "p \<noteq> ''#''"
  shows "regex_lang (word_atoms p) = (if p = ''*'' then {w. w \<noteq> [] \<and> CHR ''.'' \<notin> set w} else {p})"
proof (cases "p = ''*''")
  case True
  then show ?thesis by (simp add: word_atoms_def)
next
  case False
  then have "\<forall>c \<in> set p. ordinary c" using assms by (simp add: word_ok_def)
  then have "regex_lang (map atom_of p) = {p}"
  proof (induction p)
    case (Cons c p)
    then show ?case by simp
  qed simp
  with False show ?thesis by (simp add: word_atoms_def)
qed

lemma hash_atoms: "word_atoms ''#'' = [Any_star]"
  by (simp add: word_atoms_def)

lemma join_words_append:
  "us \<noteq> [] \<Longrightarrow> vs \<noteq> [] \<Longrightarrow> join_words (us @ vs) = join_words us @ CHR ''.'' # join_words vs"
  by (induction us rule: join_words.induct) (auto simp: join_words_Cons)

lemma topic_match_words_left: "topic_match 1 ps ws \<Longrightarrow> ps \<noteq> [] \<Longrightarrow> ws \<noteq> []"
  by (cases ps) (auto split: if_splits list.splits)

lemma join_words_any_char:
  assumes "\<forall>w \<in> set ws. \<forall>c \<in> set w. any_char c"
  shows "\<forall>c \<in> set (join_words ws). any_char c"
proof
  fix c
  assume "c \<in> set (join_words ws)"
  then have "c = CHR ''.'' \<or> (\<exists>w \<in> set ws. c \<in> set w)" using set_join_words [of ws] by blast
  then show "any_char c" using assms by (auto simp: any_char_def)
qed

text \<open>A dot of the pattern matches a dot of the key between two matching parts.\<close>

lemma lang_dot:
  assumes "u \<in> regex_lang q" "v \<in> regex_lang r"
  shows "u @ CHR ''.'' # v \<in> regex_lang (q @ Any_char # r)"
proof -
  have "CHR ''.'' # v \<in> regex_lang (Any_char # r)"
    using assms(2) by (simp only: char_lang_Cons) (simp add: any_char_def)
  with assms(1) show ?thesis unfolding regex_lang_append by blast
qed

lemma topic_match_lang:
  assumes "topic_match 1 ps ws" "ps \<noteq> []" "\<forall>p \<in> set ps. word_ok p"
    and "\<forall>w \<in> set ws. w \<noteq> [] \<and> CHR ''.'' \<notin> set w \<and> (\<forall>c \<in> set w. any_char c)"
  shows "join_words ws \<in> regex_lang (map atom_of (join_words ps))"
  using assms
proof (induction ps arbitrary: ws)
  case (Cons p ps)
  have "\<exists>us vs. ws = us @ vs \<and> us \<noteq> [] \<and> topic_match 1 ps vs \<and> join_words us \<in> regex_lang (word_atoms p)"
  proof (cases "p = ''#''")
    case True
    with Cons.prems(1) obtain n where n: "1 \<le> n" "n \<le> length ws" "topic_match 1 ps (drop n ws)"
      by (auto simp: list_ex_iff)
    have "\<forall>c \<in> set (join_words (take n ws)). any_char c"
      using Cons.prems(4) by (intro join_words_any_char) (meson in_set_takeD)
    then have "join_words (take n ws) \<in> regex_lang (word_atoms p)" by (simp add: True hash_atoms)
    moreover have "take n ws \<noteq> []" using n by auto
    ultimately show ?thesis using n(3) by (metis append_take_drop_id)
  next
    case False
    with Cons.prems(1) obtain w vs where w: "ws = w # vs" "p = ''*'' \<or> p = w" "topic_match 1 ps vs"
      by (auto split: list.splits)
    moreover have "w \<in> regex_lang (word_atoms p)"
      using word_lang [of p] False Cons.prems(3,4) w by auto
    ultimately show ?thesis by (intro exI [of _ "[w]"] exI [of _ vs]) simp
  qed
  then obtain us vs where uv: "ws = us @ vs" "us \<noteq> []" "topic_match 1 ps vs"
    "join_words us \<in> regex_lang (word_atoms p)" by blast
  show ?case
  proof (cases "ps = []")
    case True
    then show ?thesis using uv by (simp add: word_atoms_def)
  next
    case False
    then have vs: "vs \<noteq> []" using topic_match_words_left uv(3) by blast
    have "join_words vs \<in> regex_lang (map atom_of (join_words ps))"
      by (rule Cons.IH [OF uv(3) False]) (use uv(1) Cons.prems(3,4) in auto)
    then show ?thesis
      using lang_dot [OF uv(4)] unfolding uv(1)
      by (simp only: map_atom_of_join [OF False] join_words_append [OF uv(2) vs])
  qed
qed simp

subsection \<open>Counting dots\<close>

text \<open>An element that is neither a hash nor a literal dot; and one of a word without wildcards.\<close>

definition dot_safe :: "regex_atom \<Rightarrow> bool" where
  "dot_safe a \<longleftrightarrow> a \<noteq> Any_star \<and> a \<noteq> Literal CHR ''.''"

lemma dot_safe_Any_char: "dot_safe Any_char"
  by (simp add: dot_safe_def)

lemma count_dots_lang:
  "s \<in> regex_lang r \<Longrightarrow> list_all dot_safe r \<Longrightarrow> count_list s CHR ''.'' \<le> count_list r Any_char"
proof (induction r arbitrary: s)
  case (Cons a r)
  from Cons.prems(1) obtain u v where uv: "s = u @ v" "u \<in> atom_lang a" "v \<in> regex_lang r"
    by (rule regex_lang_ConsE)
  have "count_list u CHR ''.'' \<le> count_list [a] Any_char"
    using uv(2) Cons.prems(2) by (cases a) (auto simp: dot_safe_def count_list_0_iff)
  moreover have "count_list v CHR ''.'' \<le> count_list r Any_char"
    using Cons.IH [OF uv(3)] Cons.prems by simp
  ultimately show ?case using uv(1) by (simp add: count_list_append split: if_splits)
qed simp

lemma count_dots_join:
  "\<forall>w \<in> set ws. CHR ''.'' \<notin> set w \<Longrightarrow> ws \<noteq> [] \<Longrightarrow>
    count_list (join_words ws) CHR ''.'' = length ws - 1"
  by (induction ws rule: join_words.induct) (auto simp: count_list_append count_list_0_iff)

lemma atoms_of_word:
  assumes "word_ok p" "p \<noteq> ''#''"
  shows "list_all (\<lambda>a. dot_safe a \<and> a \<noteq> Any_char) (map atom_of p)"
proof (cases "p = ''*''")
  case False
  then have "\<forall>c \<in> set p. ordinary c" using assms by (simp add: word_ok_def)
  then show ?thesis
    by (induction p) (auto simp: dot_safe_def, simp add: ordinary_def)
qed (simp add: dot_safe_def)

lemma count_safe: "list_all (\<lambda>a. dot_safe a \<and> a \<noteq> Any_char) r \<Longrightarrow> count_list r Any_char = 0 \<and> list_all dot_safe r"
  by (induction r) auto

lemma atoms_of_words:
  assumes "list_all (\<lambda>p. word_ok p \<and> p \<noteq> ''#'') ps" "ps \<noteq> []"
  shows "count_list (map atom_of (join_words ps)) Any_char = length ps - 1 \<and>
    list_all dot_safe (map atom_of (join_words ps))"
  using assms
proof (induction ps rule: join_words.induct)
  case (2 w)
  then show ?case using count_safe [OF atoms_of_word [of w]] by simp
next
  case (3 w v ws)
  have "count_list (map atom_of w) Any_char = 0 \<and> list_all dot_safe (map atom_of w)"
    using count_safe [OF atoms_of_word [of w]] 3(2) by simp
  with 3 show ?case by (simp add: count_list_append dot_safe_Any_char)
qed simp

lemma first_dot_unique:
  assumes "a @ CHR ''.'' # b = w @ CHR ''.'' # c" "CHR ''.'' \<notin> set a" "CHR ''.'' \<notin> set w"
  shows "a = w \<and> b = c"
proof -
  have "takeWhile (\<lambda>x. x \<noteq> CHR ''.'') (u @ CHR ''.'' # v) = u" if "CHR ''.'' \<notin> set u" for u v
    using that by (induction u) auto
  from this [OF assms(2), of b] this [OF assms(3), of c] assms(1) show ?thesis by simp
qed

lemma lang_topic_match:
  assumes "list_all (\<lambda>p. word_ok p \<and> p \<noteq> ''#'') ps" "\<forall>w \<in> set ws. CHR ''.'' \<notin> set w"
    and "length ps = length ws" "ps \<noteq> []"
    and "join_words ws \<in> regex_lang (map atom_of (join_words ps))"
  shows "topic_match 0 ps ws"
  using assms
proof (induction ps arbitrary: ws)
  case (Cons p ps)
  then obtain w vs where ws: "ws = w # vs" by (cases ws) auto
  have p: "word_ok p" "p \<noteq> ''#''" using Cons.prems by auto
  show ?case
  proof (cases "ps = []")
    case True
    then have "w \<in> regex_lang (word_atoms p)" using Cons.prems ws by (simp add: word_atoms_def)
    then show ?thesis using word_lang [OF p] p True ws Cons.prems(3) by (auto split: if_splits)
  next
    case False
    then have vs: "vs \<noteq> []" using Cons.prems(3) ws by auto
    have "w @ CHR ''.'' # join_words vs \<in>
        regex_lang (word_atoms p @ Any_char # map atom_of (join_words ps))"
      using Cons.prems(5) unfolding ws map_atom_of_join [OF False] join_words_Cons [OF vs] .
    then obtain a t where t: "w @ CHR ''.'' # join_words vs = a @ t"
      "a \<in> regex_lang (word_atoms p)" "t \<in> regex_lang (Any_char # map atom_of (join_words ps))"
      unfolding regex_lang_append by blast
    then obtain x b where "t = x # b" "b \<in> regex_lang (map atom_of (join_words ps))"
      using char_lang_Cons(2) [THEN iffD1, OF t(3)] by blast
    with t have s: "w @ CHR ''.'' # join_words vs = a @ x # b"
      "a \<in> regex_lang (word_atoms p)" "b \<in> regex_lang (map atom_of (join_words ps))"
      by simp_all
    have a: "CHR ''.'' \<notin> set a"
      using count_dots_lang [OF s(2)] count_safe [OF atoms_of_word [OF p]]
      by (simp add: word_atoms_def count_list_0_iff)
    have "count_list b CHR ''.'' \<le> length ps - 1"
      using count_dots_lang [OF s(3)] atoms_of_words [of ps] Cons.prems(1) False by simp
    moreover have "count_list (w @ CHR ''.'' # join_words vs) CHR ''.'' = length ps"
      using count_dots_join [of vs] vs Cons.prems(2,3) ws
      by (simp add: count_list_append count_list_0_iff)
    ultimately have "count_list b CHR ''.'' < count_list (a @ x # b) CHR ''.''"
      using False unfolding s(1) by (cases ps) simp_all
    then have x: "x = CHR ''.''"
      using a by (cases "x = CHR ''.''") (auto simp: count_list_append count_list_0_iff)
    then have ab: "a = w" "b = join_words vs"
      using first_dot_unique [of a b w "join_words vs"] s(1) a Cons.prems(2) ws by simp_all
    have "p = ''*'' \<or> p = w"
      using s(2) word_lang [OF p] ab by (cases "p = ''*''") simp_all
    moreover have "topic_match 0 ps vs"
      by (rule Cons.IH) (use Cons.prems False s(3) ab ws in simp_all)
    ultimately show ?thesis using p ws by simp
  qed
qed simp

lemma topic_match_no_hash: "''#'' \<notin> set ps \<Longrightarrow> topic_match m ps ws \<longleftrightarrow> topic_match n ps ws"
  by (induction ps arbitrary: ws) (auto split: list.splits)

lemma match_language: "plain_pattern p \<Longrightarrow> MatchRoutingKey p k = Some (k \<in> regex_lang (map atom_of p))"
  by (simp add: MatchRoutingKey_plain regex_match_lang)

lemma match_covers:
  assumes "topic_pattern p" "topic_match 1 (words p) (words k)"
    and "list_all (\<lambda>w. w \<noteq> []) (words k)" "list_all any_char k"
  shows "MatchRoutingKey p k = Some True"
proof -
  have "w \<noteq> [] \<and> CHR ''.'' \<notin> set w \<and> (\<forall>c \<in> set w. any_char c)" if "w \<in> set (words k)" for w
    using that words_no_dot [OF that] set_words [OF that] assms(3,4) by (auto simp: list_all_iff)
  then have "join_words (words k) \<in> regex_lang (map atom_of (join_words (words p)))"
    using assms(1,2) by (intro topic_match_lang) (auto simp: topic_pattern_def)
  then show ?thesis by (simp add: match_language [OF topic_pattern_plain [OF assms(1)]])
qed

section \<open>Properties of routing key matching\<close>

text \<open>
  The rewriting loop ends and replaces every occurrence of the character and nothing else, also
  when the replacement contains the character: it continues behind the text it has put in.
\<close>

lemma replace_loop_replaces_all:
  "replace_loop c r 0 s = concat (map (\<lambda>x. if x = c then r else [x]) s)"
  using replace_loop_substitute [of 0 s c r] by (simp add: substitute_def)

text \<open>
  C16: For a pattern of ordinary characters, dots, stars and hashes \<open>MatchRoutingKey\<close> gives an answer,
  and it is whether the key is in the language of the pattern: a star stands for one or more
  characters other than a dot, a hash for any characters of one line, a dot for any one character.
\<close>

theorem match_decides_language:
  assumes "plain_pattern p"
  shows "MatchRoutingKey p k = Some (k \<in> regex_lang (map atom_of p))"
  by (rule match_language [OF assms])

lemma sample_pattern_plain: "plain_pattern ''a.*.#''"
  by (simp add: plain_pattern_def ordinary_def special_chars_def)

theorem match_decides_language_witness:
  "MatchRoutingKey ''a.*.#'' ''a.b.c'' = Some (''a.b.c'' \<in> regex_lang (map atom_of ''a.*.#''))"
  by (rule match_decides_language [OF sample_pattern_plain])

text \<open>
  Every key that a topic exchange routes to the pattern with each hash standing for at least one
  word is matched: the callback registered for a binding gets its messages.
\<close>

lemma match_covers_topic_routing:
  assumes "topic_pattern p" and "topic_match 1 (words p) (words k)"
    and "list_all (\<lambda>w. w \<noteq> []) (words k)" and "list_all any_char k"
  shows "MatchRoutingKey p k = Some True"
  by (rule match_covers [OF assms])

text \<open>
  For a pattern without hash and a key with as many words as the pattern, \<open>MatchRoutingKey\<close>
  agrees exactly with the routing of a topic exchange.
\<close>

lemma match_exact_on_equal_length:
  assumes "topic_pattern p" and "''#'' \<notin> set (words p)" and "length (words p) = length (words k)"
    and "list_all (\<lambda>w. w \<noteq> []) (words k)" and "list_all any_char k"
  shows "MatchRoutingKey p k = Some (topic_match 0 (words p) (words k))"
proof (cases "topic_match 0 (words p) (words k)")
  case True
  then have "topic_match 1 (words p) (words k)"
    using topic_match_no_hash [OF assms(2)] by blast
  with True show ?thesis using match_covers [OF assms(1) _ assms(4,5)] by simp
next
  case False
  have "list_all (\<lambda>p. word_ok p \<and> p \<noteq> ''#'') (words p)"
    using assms(1,2) by (auto simp: topic_pattern_def list_all_iff)
  then have "k \<notin> regex_lang (map atom_of p)"
    using False lang_topic_match [of "words p" "words k"] assms(3) words_no_dot by auto
  with False show ?thesis
    by (simp add: match_language [OF topic_pattern_plain [OF assms(1)]])
qed

definition literal_matches :: "char \<Rightarrow> char \<Rightarrow> bool" where
  "literal_matches c x \<longleftrightarrow> (if c = CHR ''.'' then any_char x else x = c)"

text \<open>
  Without wildcards the comparison is character by character, and the dots between the words of the
  pattern are not compared: each stands for any one character.
\<close>

lemma literal_match_ignores_dots:
  assumes "list_all (\<lambda>c. ordinary c \<or> c = CHR ''.'') p"
  shows "MatchRoutingKey p k =
    Some (list_all2 literal_matches p k)"
proof -
  have "regex_match (map atom_of p) k \<longleftrightarrow>
      list_all2 literal_matches p k"
    using assms
  proof (induction p arbitrary: k)
    case (Cons c p)
    have "\<not> ordinary CHR ''.''" by (simp add: ordinary_def)
    then have "literal_matches c x \<longleftrightarrow> (if c = CHR ''.'' then any_char x else x = c)"
      and "ordinary c \<Longrightarrow> c \<noteq> CHR ''.''" for x
      by (auto simp: literal_matches_def)
    with Cons show ?case by (cases k) auto
  qed simp
  moreover have "plain_pattern p" using assms by (auto simp: plain_pattern_def list_all_iff)
  ultimately show ?thesis by (simp add: MatchRoutingKey_plain)
qed

text \<open>
  C34: A trailing hash does not stand for zero words: a key \<open>w\<close> is not matched by \<open>w.#\<close>, although a
  topic exchange routes it, so the queue receives the message and no callback gets it.
\<close>

theorem trailing_hash_needs_a_word:
  assumes "list_all (\<lambda>c. ordinary c \<or> c = CHR ''.'') w"
  shows "MatchRoutingKey (w @ ''.#'') w = Some False \<and>
    topic_match 0 (words (w @ ''.#'')) (words w)"
proof -
  have len: "length s = length u" if "s \<in> regex_lang (map atom_of u)"
    "list_all (\<lambda>c. ordinary c \<or> c = CHR ''.'') u" for s u
    using that
  proof (induction u arbitrary: s)
    case (Cons c u)
    from Cons.prems(1) obtain a b where s: "s = a @ b" "a \<in> atom_lang (atom_of c)"
      "b \<in> regex_lang (map atom_of u)" by (auto elim!: regex_lang_ConsE)
    then have "length a = 1" using Cons.prems(2) by auto
    then show ?case using s Cons by simp
  qed simp
  have "w \<notin> regex_lang (map atom_of (w @ ''.#''))"
  proof
    assume "w \<in> regex_lang (map atom_of (w @ ''.#''))"
    then obtain a b where ab: "w = a @ b" "a \<in> regex_lang (map atom_of w)"
      "b \<in> regex_lang (map atom_of ''.#'')"
      unfolding map_append regex_lang_append by blast
    from len [OF ab(2) assms] ab(1) have "b = []" by simp
    with ab(3) show False by simp
  qed
  moreover have "plain_pattern (w @ ''.#'')" using assms by (auto simp: plain_pattern_def list_all_iff)
  moreover have "words (w @ ''.#'') = words w @ [''#'']"
    by (induction w) auto
  moreover have "topic_match 0 (ws @ [''#'']) ws" if "''#'' \<notin> set ws" for ws
    using that by (induction ws) auto
  moreover have "''#'' \<notin> set (words w)"
    using set_words [of "''#''" w] assms by (auto simp: list_all_iff ordinary_def)
  ultimately show ?thesis by (simp add: match_language)
qed

theorem trailing_hash_needs_a_word_witness:
  "MatchRoutingKey ''a.b.#'' ''a.b'' = Some False"
  using trailing_hash_needs_a_word [of "''a.b''"] by (simp add: ordinary_def special_chars_def)

end
