(* ===== verification/Publish.thy ===== *)
theory Publish
  imports Client_State
begin

section \<open>Publishing\<close>

text \<open>
  The two functions \<open>SendRabbitmqMessage\<close> and what builds their properties, \<open>publishTopicMsg\<close> and
  \<open>publishFanoutMsg\<close> of \<open>src/rabbitmqclient.cpp\<close>. The lemmas show when a message is published and
  with which exchange, routing key, body and headers, that the headers decode to the properties the
  sender meant, and what the returned value says.
\<close>

subsection \<open>Sending\<close>

text \<open>\<open>SendRabbitmqMessage(routing_key, msg, inprops)\<close>.\<close>

definition default_properties :: "environment \<Rightarrow> amqp_basic_properties_t" where
  "default_properties env =
     (uninit_properties env)\<lparr>flags := AMQP_BASIC_CONTENT_TYPE_FLAG,
       content_type := cbytes env ''text/plain''\<rparr>"

definition amqp_basic_publish ::
  "environment \<Rightarrow> string \<Rightarrow> string \<Rightarrow> amqp_basic_properties_t \<Rightarrow> string \<Rightarrow> unit op" where
  "amqp_basic_publish env exchg routing props msg = do {
     s \<leftarrow> State_Monad.get;
     library (Amqp_basic_publish (connection s) (channel s) (cbytes env exchg) (cbytes env routing)
       0 0 props (cbytes env msg))
   }"

definition check_published :: "amqp_rpc_reply_t \<Rightarrow> bool op" where
  "check_published r =
     (if reply_type r = AMQP_RESPONSE_NORMAL then ret True
      else do {
        log (''Publish failed: '' @ to_string (uint (id_number (reply r))));
        ret False
      })"

definition SendRabbitmqMessage ::
  "environment \<Rightarrow> string \<Rightarrow> string \<Rightarrow> amqp_basic_properties_t pointer \<Rightarrow> bool op" where
  "SendRabbitmqMessage env routing msg inprops = do {
     s \<leftarrow> State_Monad.get;
     if routing = '''' \<or> connection s = None then ret False
     else do {
       let props = (case inprops of None \<Rightarrow> default_properties env | Some p \<Rightarrow> p);
       r \<leftarrow> locked conn_mutex (do {
         s \<leftarrow> State_Monad.get;
         amqp_basic_publish env (exchange_name s) routing props msg;
         amqp_get_rpc_reply env
       });
       check_published r
     }
   }"

text \<open>\<open>SendRabbitmqMessage(msg, inprops)\<close>, without a routing key.\<close>

definition SendRabbitmqMessage_fanout ::
  "environment \<Rightarrow> string \<Rightarrow> amqp_basic_properties_t pointer \<Rightarrow> bool op" where
  "SendRabbitmqMessage_fanout env msg inprops = do {
     s \<leftarrow> State_Monad.get;
     if connection s = None then ret False
     else if exchange_type s \<noteq> broadcasttype then ret False
     else do {
       let props = (case inprops of None \<Rightarrow> default_properties env | Some p \<Rightarrow> p);
       r \<leftarrow> locked conn_mutex (do {
         s \<leftarrow> State_Monad.get;
         amqp_basic_publish env (exchange_name s) '''' props msg;
         amqp_get_rpc_reply env
       });
       check_published r
     }
   }"

subsection \<open>Building the properties\<close>

text \<open>
  The local array \<open>entries[PROP_HEAD_LEN]\<close> and the table around it, both uninitialised, and the
  properties after \<open>memset\<close> with the content type set.
\<close>

definition local_table :: "environment \<Rightarrow> amqp_table_t" where
  "local_table env = Amqp_table (uninit_count env) (map (uninit_entries env) [0..<PROP_HEAD_LEN])"

definition text_plain :: "environment \<Rightarrow> amqp_basic_properties_t" where
  "text_plain env = zero_properties\<lparr>content_type := cbytes env ''text/plain''\<rparr>"

text \<open>\<open>IntProps2AmqpTable\<close> into that table, and the flags that depend on its result.\<close>

definition header_properties :: "environment \<Rightarrow> int_props_st \<Rightarrow> amqp_basic_properties_t result" where
  "header_properties env intprops =
     (case IntProps2AmqpTable (cstring_bytes env) intprops (local_table env) of
        None \<Rightarrow> Inl Out_of_bounds
      | Some (rslt, table) \<Rightarrow>
          if rslt then
            Inr ((text_plain env)\<lparr>flags := AMQP_BASIC_CONTENT_TYPE_FLAG OR AMQP_BASIC_HEADERS_FLAG,
              headers := table\<rparr>)
          else Inr ((text_plain env)\<lparr>flags := AMQP_BASIC_CONTENT_TYPE_FLAG\<rparr>))"

definition publishTopicMsg :: "environment \<Rightarrow> string \<Rightarrow> string \<Rightarrow> string \<Rightarrow> bool result op" where
  "publishTopicMsg env msg topic transinfo = do {
     s \<leftarrow> State_Monad.get;
     if exchange_type s \<noteq> topictype then ret (Inr False)
     else do {
       ms \<leftarrow> timestamp_ms env;
       let intprops =
         \<lparr>sender = m_module_name s, receiver = ''subscriber'', msgtype = RB_TOPIC, msgname = topic,
          rid = - 1, inarg = 0, timestamp = ms, rspcode = ''no code'', rspdesc = ''no description'',
          trans = (if transinfo = '''' then ''no transparent'' else transinfo)\<rparr>;
       case header_properties env intprops of
         Inl e \<Rightarrow> ret (Inl e)
       | Inr props \<Rightarrow> do {
           rslt \<leftarrow> SendRabbitmqMessage env topic msg (Some props);
           ret (Inr rslt)
         }
     }
   }"

definition publishFanoutMsg :: "environment \<Rightarrow> string \<Rightarrow> bool result op" where
  "publishFanoutMsg env msg = do {
     s \<leftarrow> State_Monad.get;
     if exchange_type s \<noteq> broadcasttype then ret (Inr False)
     else do {
       ms \<leftarrow> timestamp_ms env;
       let intprops =
         \<lparr>sender = m_module_name s, receiver = ''allclient'', msgtype = RB_BROADCAST,
          msgname = ''broadcast'', rid = - 1, inarg = 0, timestamp = ms, rspcode = ''no code'',
          rspdesc = ''no description'', trans = ''no transparent''\<rparr>;
       case header_properties env intprops of
         Inl e \<Rightarrow> ret (Inl e)
       | Inr props \<Rightarrow> do {
           rslt \<leftarrow> SendRabbitmqMessage_fanout env msg (Some props);
           ret (Inr rslt)
         }
     }
   }"

subsection \<open>Runs\<close>

text \<open>What a call of the library's publish function looks like in the history.\<close>

definition publish_event ::
  "environment \<Rightarrow> RabbitMQWrapper \<Rightarrow> string \<Rightarrow> string \<Rightarrow> amqp_basic_properties_t \<Rightarrow> event" where
  "publish_event env s routing msg props =
     Library (Amqp_basic_publish (connection s) (channel s) (cbytes env (exchange_name s))
       (cbytes env routing) 0 0 props (cbytes env msg))"

definition publish_history ::
  "environment \<Rightarrow> RabbitMQWrapper \<Rightarrow> string \<Rightarrow> string \<Rightarrow> amqp_basic_properties_t \<Rightarrow> event list" where
  "publish_history env s routing msg props =
     trace s @ [Lock conn_mutex, publish_event env s routing msg props,
       Library (Amqp_get_rpc_reply (connection s))]"

definition publish_tail :: "amqp_rpc_reply_t \<Rightarrow> event list" where
  "publish_tail r = Unlock conn_mutex # (if reply_type r = AMQP_RESPONSE_NORMAL then []
     else [Logged (''Publish failed: '' @ to_string (uint (id_number (reply r))))])"

lemma run_send:
  assumes "routing \<noteq> ''''" "connection s \<noteq> None"
  shows "run_state (SendRabbitmqMessage env routing msg (Some props)) s =
    (let h = publish_history env s routing msg props; r = last_reply env h
     in (reply_type r = AMQP_RESPONSE_NORMAL, s\<lparr>trace := h @ publish_tail r\<rparr>))"
  using assms
  by (cases "connection s") (simp_all add: SendRabbitmqMessage_def amqp_basic_publish_def check_published_def publish_history_def
      publish_event_def publish_tail_def Let_def)

lemma run_send_refused:
  "routing = '''' \<or> connection s = None \<Longrightarrow>
    run_state (SendRabbitmqMessage env routing msg inprops) s = (False, s)"
  by (auto simp: SendRabbitmqMessage_def)

lemma run_send_fanout:
  assumes "exchange_type s = broadcasttype" "connection s \<noteq> None"
  shows "run_state (SendRabbitmqMessage_fanout env msg (Some props)) s =
    (let h = publish_history env s '''' msg props; r = last_reply env h
     in (reply_type r = AMQP_RESPONSE_NORMAL, s\<lparr>trace := h @ publish_tail r\<rparr>))"
  using assms
  by (cases "connection s") (simp_all add: SendRabbitmqMessage_fanout_def amqp_basic_publish_def check_published_def
      publish_history_def publish_event_def publish_tail_def Let_def)

section \<open>Properties of publishing\<close>

lemma length_local_table: "length (entries (local_table env)) = PROP_HEAD_LEN"
  by (simp add: local_table_def)

lemma header_properties_ok:
  "header_properties env p = Inr ((text_plain env)\<lparr>
     flags := AMQP_BASIC_CONTENT_TYPE_FLAG OR AMQP_BASIC_HEADERS_FLAG,
     headers := Amqp_table 10 (prop_entries (cstring_bytes env) p)\<rparr>)"
  using encode_fills_slots [of "local_table env" "cstring_bytes env" p]
  by (simp add: header_properties_def length_local_table)

lemma decode_headers:
  assumes "cstring_bytes_doc (cstring_bytes env)" "storable_props p"
  shows "AmqpTable2IntProps (Amqp_table 10 (prop_entries (cstring_bytes env) p)) q = Read_ok p"
  using read_prop_entries [OF assms, of q]
  by (simp add: AmqpTable2IntProps_def length_prop_entries) (simp add: PROP_HEAD_LEN_def)

text \<open>
  A routed send publishes nothing and returns false without a routing key or a connection;
  otherwise it publishes exactly one message, under \<open>conn_mutex\<close>, to the client's exchange with the
  given key, body and properties, and returns whether the reply the library then reports is normal,
  logging the failure when it is not.
\<close>

lemma send_effect:
  "run_state (SendRabbitmqMessage env routing msg (Some props)) s =
    (if routing = '''' \<or> connection s = None then (False, s)
     else let h = publish_history env s routing msg props; r = last_reply env h
       in (reply_type r = AMQP_RESPONSE_NORMAL, s\<lparr>trace := h @ publish_tail r\<rparr>))"
proof (cases "routing = '''' \<or> connection s = None")
  case True
  then show ?thesis by (simp only: run_send_refused [OF True] if_True)
next
  case False
  then show ?thesis using run_send [of routing s env msg props] by auto
qed

text \<open>
  Publishing on a topic never writes past its array, and on a connected topic client with a
  non-empty topic it publishes one message to that topic whose headers every receiver decodes to the
  sender's module name, the topic as message name and the transparent data, or its default text.
\<close>

lemma topic_publication_decodes:
  assumes "cstring_bytes_doc (cstring_bytes env)"
    and "storable (m_module_name s)" and "storable topic" and "storable transinfo"
    and "exchange_type s = topictype" and "connection s \<noteq> None" and "topic \<noteq> ''''"
  shows "\<exists>props ms.
    (let u = s\<lparr>trace := trace s @ [Read_clock]\<rparr>; h = publish_history env u topic msg props;
         r = last_reply env h
     in run_state (publishTopicMsg env msg topic transinfo) s =
       (Inr (reply_type r = AMQP_RESPONSE_NORMAL), s\<lparr>trace := h @ publish_tail r\<rparr>)) \<and>
    flags props AND AMQP_BASIC_HEADERS_FLAG \<noteq> 0 \<and>
    (\<forall>q. AmqpTable2IntProps (headers props) q = Read_ok
      \<lparr>sender = m_module_name s, receiver = ''subscriber'', msgtype = RB_TOPIC, msgname = topic,
       rid = - 1, inarg = 0, timestamp = ms, rspcode = ''no code'', rspdesc = ''no description'',
       trans = (if transinfo = '''' then ''no transparent'' else transinfo)\<rparr>)"
proof -
  obtain ms where ms: "run_state (timestamp_ms env) s = (ms, s\<lparr>trace := trace s @ [Read_clock]\<rparr>)"
    using state_after_timestamp [of env s] by (cases "run_state (timestamp_ms env) s") simp
  let ?p = "\<lparr>sender = m_module_name s, receiver = ''subscriber'', msgtype = RB_TOPIC, msgname = topic,
    rid = - 1, inarg = 0, timestamp = ms, rspcode = ''no code'', rspdesc = ''no description'',
    trans = (if transinfo = '''' then ''no transparent'' else transinfo)\<rparr>"
  let ?props = "(text_plain env)\<lparr>flags := AMQP_BASIC_CONTENT_TYPE_FLAG OR AMQP_BASIC_HEADERS_FLAG,
    headers := Amqp_table 10 (prop_entries (cstring_bytes env) ?p)\<rparr>"
  have "storable_props ?p"
    using assms(2-4) by (simp add: storable_props_def) (simp add: storable_def)
  then have "AmqpTable2IntProps (headers ?props) q = Read_ok ?p" for q
    using decode_headers [OF assms(1)] by simp
  moreover have "flags ?props AND AMQP_BASIC_HEADERS_FLAG \<noteq> 0"
    by (simp add: AMQP_BASIC_CONTENT_TYPE_FLAG_def AMQP_BASIC_HEADERS_FLAG_def)
  moreover have "run_state (publishTopicMsg env msg topic transinfo) s =
      (let u = s\<lparr>trace := trace s @ [Read_clock]\<rparr>; h = publish_history env u topic msg ?props;
           r = last_reply env h
       in (Inr (reply_type r = AMQP_RESPONSE_NORMAL), s\<lparr>trace := h @ publish_tail r\<rparr>))"
    using assms(5-7) ms by (simp add: publishTopicMsg_def header_properties_ok run_send Let_def)
  ultimately show ?thesis by (intro exI [of _ ?props] exI [of _ ms]) (simp add: Let_def)
qed

text \<open>
  What the header documents of \<open>amqp_get_rpc_reply\<close>: it is the reply of the last synchronous call.
\<close>

definition synchronous :: "event \<Rightarrow> bool" where
  "synchronous e \<longleftrightarrow> (case e of Library (Amqp_rpc c ch r) \<Rightarrow> True
     | Library (Amqp_login c v a b d m u p) \<Rightarrow> True | _ \<Rightarrow> False)"

definition last_reply_doc :: "environment \<Rightarrow> bool" where
  "last_reply_doc env \<longleftrightarrow> (\<forall>h. last_reply env h = last_reply env (filter synchronous h))"

lemma publish_not_synchronous:
  "filter synchronous (publish_history env s routing msg props) = filter synchronous (trace s)"
  "filter synchronous (publish_tail r) = []"
  by (simp_all add: publish_history_def publish_event_def publish_tail_def synchronous_def)

text \<open>
  C36: Under the documented meaning of the library's last reply a send does not report on its own
  message, since publishing is not synchronous: it succeeds exactly when the synchronous call before it
  did, and every following send gives the same answer, whatever happened to the messages.
\<close>

theorem send_result_is_stale:
  assumes "last_reply_doc env" and "routing \<noteq> ''''" and "connection s \<noteq> None"
    and "run_state (SendRabbitmqMessage env routing msg (Some props)) s = (ok, t)"
    and "routing' \<noteq> ''''"
  shows "(ok \<longleftrightarrow> reply_type (last_reply env (trace s)) = AMQP_RESPONSE_NORMAL) \<and>
    (result_of (SendRabbitmqMessage env routing' msg' (Some props')) t \<longleftrightarrow> ok)"
proof -
  have stale: "last_reply env (publish_history env u k m p) = last_reply env (trace u)" for u k m p
    using assms(1) unfolding last_reply_doc_def by (metis publish_not_synchronous(1))
  from assms(2-4) have ok: "ok \<longleftrightarrow> reply_type (last_reply env (trace s)) = AMQP_RESPONSE_NORMAL"
    and t: "trace t = publish_history env s routing msg props @ publish_tail (last_reply env (trace s))"
      "connection t = connection s"
    by (auto simp: run_send Let_def stale)
  have "last_reply env (trace t) = last_reply env (trace s)"
    using assms(1) unfolding last_reply_doc_def t(1)
    by (metis filter_append append_Nil2 publish_not_synchronous)
  then show ?thesis using ok t(2) assms(3,5) by (simp add: run_send Let_def stale)
qed

theorem send_result_is_stale_witness:
  "last_reply_doc sample_env \<and>
   result_of (SendRabbitmqMessage sample_env ''k'' ''x'' (Some zero_properties)) (sample_client p2ptype)"
proof -
  obtain ok t where t: "run_state (SendRabbitmqMessage sample_env ''k'' ''x'' (Some zero_properties))
      (sample_client p2ptype) = (ok, t)" by fastforce
  have doc: "last_reply_doc sample_env" by (simp add: last_reply_doc_def)
  have "ok" using conjunct1 [OF send_result_is_stale [OF doc _ _ t, of "''k''"]] by simp
  with t doc show ?thesis by simp
qed

text \<open>
  A message body is published as a C string: two bodies that agree up to their first NUL character
  cause the same run, so the characters after it are never sent.
\<close>

lemma body_ends_at_nul:
  assumes "c_str msg = c_str msg'"
  shows "run_state (SendRabbitmqMessage env routing msg inprops) s =
      run_state (SendRabbitmqMessage env routing msg' inprops) s \<and>
    run_state (SendRabbitmqMessage_fanout env msg inprops) s =
      run_state (SendRabbitmqMessage_fanout env msg' inprops) s"
proof -
  have "amqp_basic_publish env x k p msg = amqp_basic_publish env x k p msg'" for x k p
    by (simp add: amqp_basic_publish_def cbytes_def assms)
  then show ?thesis by (simp only: SendRabbitmqMessage_def SendRabbitmqMessage_fanout_def)
qed

end
