(* ===== verification/Topic_Client.thy ===== *)
theory Topic_Client
  imports Connection Topic_Match
begin

section \<open>Subscriptions and their messages\<close>

text \<open>
  Subscribing to and unsubscribing from topics and giving a received message to its callback:
  \<open>subscribleTopicMsg\<close>, \<open>unSubscribleTopicMsg\<close>, the two \<open>topicAddBind\<close>, \<open>topicRemoveBinding\<close>,
  \<open>topicRegisterCallback\<close>, \<open>topicUnregisterCallback\<close>, \<open>topicHandleMessage\<close> and
  \<open>fanoutHandleMessage\<close>. The lemmas show that the client's records, its callbacks and the bindings of
  the session stay in step, which callback a message goes to, and where the records come apart.
\<close>

subsection \<open>Bindings and callbacks\<close>

definition amqp_queue_unbind :: "environment \<Rightarrow> string \<Rightarrow> string \<Rightarrow> string \<Rightarrow> unit op" where
  "amqp_queue_unbind env queue exchg routing =
     rpc (Topology (Rpc_queue_unbind (cbytes env queue) (cbytes env exchg) (cbytes env routing)
       (empty_table env)))"

definition topicRegisterCallback :: "string \<Rightarrow> function_id \<Rightarrow> unit op" where
  "topicRegisterCallback pattern callback =
     modify (\<lambda>s. s\<lparr>routing_key_callbacks := map_assign pattern callback (routing_key_callbacks s)\<rparr>)"

definition topicUnregisterCallback :: "string \<Rightarrow> unit op" where
  "topicUnregisterCallback pattern =
     modify (\<lambda>s. s\<lparr>routing_key_callbacks := map_erase pattern (routing_key_callbacks s)\<rparr>)"

text \<open>The binding of one key, common to both functions: \<open>instance\<close> is only compared with \<open>nullptr\<close>.\<close>

definition bind_key :: "environment \<Rightarrow> string \<Rightarrow> string pointer \<Rightarrow> unit op" where
  "bind_key env routing inst = do {
     s \<leftarrow> State_Monad.get;
     (if inst = None then do {
        amqp_queue_bind env (queue_name s) (exchange_name s) (cbytes env routing);
        modify (\<lambda>s. s\<lparr>bound_routing_keys_share := set_insert routing (bound_routing_keys_share s)\<rparr>)
      }
      else do {
        amqp_queue_bind env (queue_name_self s) (exchange_name s) (cbytes env routing);
        modify (\<lambda>s. s\<lparr>bound_routing_keys_self := set_insert routing (bound_routing_keys_self s)\<rparr>)
      })
   }"

text \<open>\<open>topicAddBind(routing_key, instance)\<close>, which no code calls, and the one with a callback.\<close>

definition topicAddBind_plain :: "environment \<Rightarrow> string \<Rightarrow> string pointer \<Rightarrow> bool op" where
  "topicAddBind_plain env routing inst = do {
     s \<leftarrow> State_Monad.get;
     if exchange_type s \<noteq> topictype then ret False
     else do {
       locked conn_mutex (bind_key env routing inst);
       ret True
     }
   }"

definition topicAddBind ::
  "environment \<Rightarrow> string \<Rightarrow> string pointer \<Rightarrow> function_id \<Rightarrow> bool op" where
  "topicAddBind env routing inst callback = do {
     s \<leftarrow> State_Monad.get;
     if exchange_type s \<noteq> topictype then ret False
     else if routing = '''' then ret False
     else do {
       locked conn_mutex (do {
         bind_key env routing inst;
         topicRegisterCallback routing callback
       });
       ret True
     }
   }"

definition topicRemoveBinding :: "environment \<Rightarrow> string \<Rightarrow> bool op" where
  "topicRemoveBinding env routing = do {
     s \<leftarrow> State_Monad.get;
     if exchange_type s \<noteq> topictype then ret False
     else if routing = '''' then ret False
     else locked conn_mutex (
       if routing \<in> set (bound_routing_keys_share s) then do {
         amqp_queue_unbind env (queue_name s) (exchange_name s) routing;
         modify (\<lambda>s. s\<lparr>bound_routing_keys_share := set_erase routing (bound_routing_keys_share s)\<rparr>);
         topicUnregisterCallback routing;
         ret True
       }
       else if routing \<in> set (bound_routing_keys_self s) then do {
         amqp_queue_unbind env (queue_name_self s) (exchange_name s) routing;
         modify (\<lambda>s. s\<lparr>bound_routing_keys_self := set_erase routing (bound_routing_keys_self s)\<rparr>);
         topicUnregisterCallback routing;
         ret True
       }
       else ret False)
   }"

definition subscribleTopicMsg ::
  "environment \<Rightarrow> string \<Rightarrow> function_id \<Rightarrow> string pointer \<Rightarrow> bool op" where
  "subscribleTopicMsg env topic callback inst = do {
     s \<leftarrow> State_Monad.get;
     if exchange_type s \<noteq> topictype then ret False
     else topicAddBind env topic inst callback
   }"

definition unSubscribleTopicMsg :: "environment \<Rightarrow> string \<Rightarrow> bool op" where
  "unSubscribleTopicMsg env topic = do {
     s \<leftarrow> State_Monad.get;
     if exchange_type s \<noteq> topictype then ret False
     else topicRemoveBinding env topic
   }"

subsection \<open>Received messages\<close>

definition matches_key :: "environment \<Rightarrow> string \<Rightarrow> string \<Rightarrow> bool" where
  "matches_key env pattern routing =
     (case MatchRoutingKey pattern routing of Some b \<Rightarrow> b | None \<Rightarrow> other_regex env pattern routing)"

text \<open>The loop over the callbacks, in key order, which returns after the first match.\<close>

primrec dispatch ::
  "(callback_call \<Rightarrow> unit op) \<Rightarrow> environment \<Rightarrow> (string, function_id) std_map \<Rightarrow> string \<Rightarrow> string \<Rightarrow> int_props_st \<Rightarrow> unit op" where
  "dispatch call env [] routing msg intprops = ret ()"
| "dispatch call env (e # es) routing msg intprops =
     (if matches_key env (fst e) routing
      then call (CB_TOPIC (snd e) routing msg (sender intprops) (trans intprops))
      else dispatch call env es routing msg intprops)"

definition topicHandleMessage ::
  "(callback_call \<Rightarrow> unit op) \<Rightarrow> environment \<Rightarrow> string \<Rightarrow> string \<Rightarrow> int_props_st \<Rightarrow> unit op" where
  "topicHandleMessage call env routing msg intprops = do {
     s \<leftarrow> State_Monad.get;
     dispatch call env (routing_key_callbacks s) routing msg intprops
   }"

definition fanoutHandleMessage :: "string \<Rightarrow> int_props_st \<Rightarrow> unit op" where
  "fanoutHandleMessage msg intprops = emit (Printed (''receive fanout messages: '' @ msg))"

subsection \<open>Which callback a message goes to\<close>

lemma run_dispatch:
  "run_state (dispatch silent env es routing msg intprops) s =
    (case find (\<lambda>e. matches_key env (fst e) routing) es of
       None \<Rightarrow> ((), s)
     | Some (k, f) \<Rightarrow> ((), s\<lparr>trace := trace s @
         [Called (CB_TOPIC f routing msg (sender intprops) (trans intprops))]\<rparr>))"
  by (induction es) (auto split: option.splits)

lemma run_topicHandleMessage:
  "run_state (topicHandleMessage silent env routing msg intprops) s =
    (case find (\<lambda>e. matches_key env (fst e) routing) (routing_key_callbacks s) of
       None \<Rightarrow> ((), s)
     | Some (k, f) \<Rightarrow> ((), s\<lparr>trace := trace s @
         [Called (CB_TOPIC f routing msg (sender intprops) (trans intprops))]\<rparr>))"
  by (simp add: topicHandleMessage_def run_dispatch)

subsection \<open>Runs of the binding operations\<close>

definition bind_event :: "environment \<Rightarrow> RabbitMQWrapper \<Rightarrow> string \<Rightarrow> string \<Rightarrow> event" where
  "bind_event env s queue k = Library (Amqp_rpc (connection s) (channel s)
     (Topology (Rpc_queue_bind (cbytes env queue) (cbytes env (exchange_name s)) (cbytes env k)
       (empty_table env))))"

definition unbind_event :: "environment \<Rightarrow> RabbitMQWrapper \<Rightarrow> string \<Rightarrow> string \<Rightarrow> event" where
  "unbind_event env s queue k = Library (Amqp_rpc (connection s) (channel s)
     (Topology (Rpc_queue_unbind (cbytes env queue) (cbytes env (exchange_name s)) (cbytes env k)
       (empty_table env))))"

lemma run_subscribe:
  assumes "exchange_type s = topictype" "topic \<noteq> ''''"
  shows "run_state (subscribleTopicMsg env topic callback inst) s =
    (True, if inst = None
      then s\<lparr>bound_routing_keys_share := set_insert topic (bound_routing_keys_share s),
             routing_key_callbacks := map_assign topic callback (routing_key_callbacks s),
             trace := trace s @ [Lock conn_mutex, bind_event env s (queue_name s) topic, Unlock conn_mutex]\<rparr>
      else s\<lparr>bound_routing_keys_self := set_insert topic (bound_routing_keys_self s),
             routing_key_callbacks := map_assign topic callback (routing_key_callbacks s),
             trace := trace s @ [Lock conn_mutex, bind_event env s (queue_name_self s) topic, Unlock conn_mutex]\<rparr>)"
  using assms
  by (cases inst) (simp_all add: subscribleTopicMsg_def topicAddBind_def bind_key_def
      topicRegisterCallback_def bind_event_def)

lemma run_subscribe_refused:
  "exchange_type s \<noteq> topictype \<or> topic = '''' \<Longrightarrow>
    run_state (subscribleTopicMsg env topic callback inst) s = (False, s)"
  by (cases "exchange_type s = topictype") (auto simp: subscribleTopicMsg_def topicAddBind_def)

lemma run_unsubscribe:
  assumes "exchange_type s = topictype" "topic \<noteq> ''''"
  shows "run_state (unSubscribleTopicMsg env topic) s =
    (if topic \<in> set (bound_routing_keys_share s) then
       (True, s\<lparr>bound_routing_keys_share := set_erase topic (bound_routing_keys_share s),
         routing_key_callbacks := map_erase topic (routing_key_callbacks s),
         trace := trace s @ [Lock conn_mutex, unbind_event env s (queue_name s) topic, Unlock conn_mutex]\<rparr>)
     else if topic \<in> set (bound_routing_keys_self s) then
       (True, s\<lparr>bound_routing_keys_self := set_erase topic (bound_routing_keys_self s),
         routing_key_callbacks := map_erase topic (routing_key_callbacks s),
         trace := trace s @ [Lock conn_mutex, unbind_event env s (queue_name_self s) topic, Unlock conn_mutex]\<rparr>)
     else (False, s\<lparr>trace := trace s @ [Lock conn_mutex, Unlock conn_mutex]\<rparr>))"
  using assms
  by (simp add: unSubscribleTopicMsg_def topicRemoveBinding_def amqp_queue_unbind_def
      topicUnregisterCallback_def unbind_event_def)

lemma run_unsubscribe_refused:
  "exchange_type s \<noteq> topictype \<or> topic = '''' \<Longrightarrow>
    run_state (unSubscribleTopicMsg env topic) s = (False, s)"
  by (cases "exchange_type s = topictype") (auto simp: unSubscribleTopicMsg_def topicRemoveBinding_def)

subsection \<open>The records of a topic client\<close>

text \<open>
  The containers are in order, and every callback belongs to a recorded key. When no key is recorded
  both as shared and as own, every recorded key has its callback.
\<close>

definition records_ok :: "RabbitMQWrapper \<Rightarrow> bool" where
  "records_ok s \<longleftrightarrow> set_ok (bound_routing_keys_share s) \<and> set_ok (bound_routing_keys_self s) \<and>
     map_ok (routing_key_callbacks s) \<and>
     dom (map_of (routing_key_callbacks s)) \<subseteq>
       set (bound_routing_keys_share s) \<union> set (bound_routing_keys_self s)"

definition records_full :: "RabbitMQWrapper \<Rightarrow> bool" where
  "records_full s \<longleftrightarrow> records_ok s \<and>
     set (bound_routing_keys_share s) \<inter> set (bound_routing_keys_self s) = {} \<and>
     dom (map_of (routing_key_callbacks s)) =
       set (bound_routing_keys_share s) \<union> set (bound_routing_keys_self s)"

lemma dom_map_assign:
  "map_ok m \<Longrightarrow> dom (map_of (map_assign k v m)) = insert k (dom (map_of m))"
  by (rule std_map.dom_assign)

lemma dom_map_erase: "map_ok m \<Longrightarrow> dom (map_of (map_erase k m)) = dom (map_of m) - {k}"
  by (rule std_map.dom_erase)

lemma records_ok_subscribe:
  assumes "records_ok s"
  shows "records_ok (state_after (subscribleTopicMsg env topic callback inst) s)"
proof (cases "exchange_type s \<noteq> topictype \<or> topic = ''''")
  case True
  with assms show ?thesis by (simp add: run_subscribe_refused)
next
  case False
  with assms show ?thesis
    by (cases inst)
      (auto simp: run_subscribe records_ok_def dom_map_assign std_map.ok_assign subset_iff)
qed

lemma records_ok_unsubscribe:
  assumes "records_ok s" "topic \<notin> set (bound_routing_keys_share s) \<inter> set (bound_routing_keys_self s)"
  shows "records_ok (state_after (unSubscribleTopicMsg env topic) s)"
proof (cases "exchange_type s \<noteq> topictype \<or> topic = ''''")
  case True
  with assms show ?thesis by (simp add: run_unsubscribe_refused)
next
  case False
  with assms show ?thesis
    by (auto simp: run_unsubscribe records_ok_def dom_map_erase std_map.ok_erase)
qed

lemma records_full_subscribe:
  assumes "records_full s"
    and "topic \<notin> set (if inst = None then bound_routing_keys_self s else bound_routing_keys_share s)"
  shows "records_full (state_after (subscribleTopicMsg env topic callback inst) s)"
proof (cases "exchange_type s \<noteq> topictype \<or> topic = ''''")
  case True
  with assms show ?thesis by (simp add: run_subscribe_refused)
next
  case False
  with assms records_ok_subscribe [of s env topic callback inst] show ?thesis
    by (cases inst) (auto simp: run_subscribe records_full_def records_ok_def dom_map_assign)
qed

lemma records_full_unsubscribe:
  assumes "records_full s"
  shows "records_full (state_after (unSubscribleTopicMsg env topic) s)"
proof (cases "exchange_type s \<noteq> topictype \<or> topic = ''''")
  case True
  with assms show ?thesis by (simp add: run_unsubscribe_refused)
next
  case False
  have "topic \<notin> set (bound_routing_keys_share s) \<inter> set (bound_routing_keys_self s)"
    using assms by (auto simp: records_full_def)
  with False assms records_ok_unsubscribe [of s topic env] show ?thesis
    by (auto simp: run_unsubscribe records_full_def records_ok_def dom_map_erase)
qed

subsection \<open>The bindings of the session\<close>

definition in_step :: "environment \<Rightarrow> RabbitMQWrapper \<Rightarrow> bool" where
  "in_step env s \<longleftrightarrow> session_bindings (trace s) = expected_bindings env s"

text \<open>Different names are different on the wire.\<close>

definition names_ok :: "environment \<Rightarrow> RabbitMQWrapper \<Rightarrow> bool" where
  "names_ok env s \<longleftrightarrow> cstring_bytes_doc (cstring_bytes env) \<and>
     c_str (queue_name s) \<noteq> c_str (queue_name_self s) \<and>
     list_all no_nul (bound_routing_keys_share s) \<and> list_all no_nul (bound_routing_keys_self s)"

lemma cbytes_eq:
  assumes "cstring_bytes_doc (cstring_bytes env)"
  shows "cbytes env k = cbytes env l \<longleftrightarrow> c_str k = c_str l"
  using assms unfolding cstring_bytes_doc_def cbytes_def
  by (metis amqp_bytes_t.select_convs(2) no_nul_c_str option.inject)

lemma bind_step_events:
  "bind_step B (bind_event env s q k) = insert (cbytes env q, cbytes env (exchange_name s), cbytes env k) B"
  "bind_step B (unbind_event env s q k) = B - {(cbytes env q, cbytes env (exchange_name s), cbytes env k)}"
  by (simp_all add: bind_event_def unbind_event_def)

text \<open>The bindings of the session and the expected ones change in the same way.\<close>

definition moved_alike :: "environment \<Rightarrow> RabbitMQWrapper \<Rightarrow> RabbitMQWrapper \<Rightarrow> bool" where
  "moved_alike env s t \<longleftrightarrow> (\<exists>f. mono f \<and> session_bindings (trace t) = f (session_bindings (trace s)) \<and>
     expected_bindings env t = f (expected_bindings env s))"

lemma moved_alike_refl: "moved_alike env s s"
  unfolding moved_alike_def by (intro exI [of _ id]) (simp add: mono_def)

lemma moved_alike_step:
  assumes "moved_alike env s t"
  shows "in_step env s \<Longrightarrow> in_step env t"
    and "session_bindings (trace s) \<subseteq> expected_bindings env s \<Longrightarrow>
      session_bindings (trace t) \<subseteq> expected_bindings env t"
proof -
  obtain f where f: "mono f" "session_bindings (trace t) = f (session_bindings (trace s))"
    "expected_bindings env t = f (expected_bindings env s)"
    using assms unfolding moved_alike_def by blast
  show "in_step env s \<Longrightarrow> in_step env t" by (simp add: in_step_def f)
  show "session_bindings (trace s) \<subseteq> expected_bindings env s \<Longrightarrow>
      session_bindings (trace t) \<subseteq> expected_bindings env t"
    using f(1) by (simp add: f(2,3) monoD)
qed

lemma moved_insert:
  "session_bindings (trace t) = insert b (session_bindings (trace s)) \<Longrightarrow>
    expected_bindings env t = insert b (expected_bindings env s) \<Longrightarrow> moved_alike env s t"
  unfolding moved_alike_def by (intro exI [of _ "insert b"]) (auto simp: mono_def)

lemma moved_remove:
  "session_bindings (trace t) = session_bindings (trace s) - {b} \<Longrightarrow>
    expected_bindings env t = expected_bindings env s - {b} \<Longrightarrow> moved_alike env s t"
  unfolding moved_alike_def by (intro exI [of _ "\<lambda>B. B - {b}"]) (auto simp: mono_def)

lemma moved_subscribe:
  "moved_alike env s (state_after (subscribleTopicMsg env topic callback inst) s)"
proof (cases "exchange_type s \<noteq> topictype \<or> topic = ''''")
  case True
  then show ?thesis by (simp add: run_subscribe_refused moved_alike_refl)
next
  case False
  let ?q = "if inst = None then queue_name s else queue_name_self s"
  show ?thesis
    using False
    by (cases inst; intro moved_insert [where b = "(cbytes env ?q, cbytes env (exchange_name s), cbytes env topic)"])
      (auto simp: run_subscribe session_bindings_append bind_step_events expected_bindings_def)
qed

lemma image_minus_key:
  assumes "\<And>x. x \<in> A \<Longrightarrow> f x = f k \<longleftrightarrow> x = k" "f k \<notin> B"
  shows "f ` A \<union> B - {f k} = f ` (A - {k}) \<union> B"
proof -
  have "f ` A - {f k} = f ` (A - {k})"
  proof (intro set_eqI iffI)
    fix y
    assume "y \<in> f ` A - {f k}"
    then obtain x where "x \<in> A" "y = f x" "f x \<noteq> f k" by blast
    then show "y \<in> f ` (A - {k})" by blast
  next
    fix y
    assume "y \<in> f ` (A - {k})"
    then obtain x where "x \<in> A" "y = f x" "x \<noteq> k" by blast
    then show "y \<in> f ` A - {f k}" using assms(1) [of x] by simp
  qed
  then show ?thesis using assms(2) by blast
qed

lemma moved_unsubscribe:
  assumes "names_ok env s"
  shows "moved_alike env s (state_after (unSubscribleTopicMsg env topic) s)"
proof (cases "exchange_type s \<noteq> topictype \<or> topic = ''''")
  case True
  then show ?thesis by (simp add: run_unsubscribe_refused moved_alike_refl)
next
  case False
  let ?b = "\<lambda>q k. (cbytes env q, cbytes env (exchange_name s), cbytes env k)"
  let ?share = "set (bound_routing_keys_share s)" and ?self = "set (bound_routing_keys_self s)"
  have doc: "cstring_bytes_doc (cstring_bytes env)" using assms by (simp add: names_ok_def)
  have inj: "?b q k = ?b q topic \<longleftrightarrow> k = topic" if "no_nul k" "no_nul topic" for q k
    using that by (simp add: cbytes_eq [OF doc])
  have plain: "no_nul k" if "k \<in> ?share \<union> ?self" for k
    using assms that by (auto simp: names_ok_def list_all_iff)
  have apart: "?b (queue_name s) k \<noteq> ?b (queue_name_self s) l" for k l
    using assms by (simp add: names_ok_def cbytes_eq [OF doc])
  have share: "?b (queue_name s) ` ?share \<union> ?b (queue_name_self s) ` ?self - {?b (queue_name s) topic} =
      ?b (queue_name s) ` (?share - {topic}) \<union> ?b (queue_name_self s) ` ?self"
    if "topic \<in> ?share"
    using that plain inj apart by (intro image_minus_key) auto
  have self: "?b (queue_name s) ` ?share \<union> ?b (queue_name_self s) ` ?self - {?b (queue_name_self s) topic} =
      ?b (queue_name s) ` ?share \<union> ?b (queue_name_self s) ` (?self - {topic})"
    if "topic \<in> ?self"
  proof -
    have "?b (queue_name_self s) ` ?self \<union> ?b (queue_name s) ` ?share - {?b (queue_name_self s) topic} =
        ?b (queue_name_self s) ` (?self - {topic}) \<union> ?b (queue_name s) ` ?share"
      using that plain inj apart [symmetric] by (intro image_minus_key) auto
    then show ?thesis by (simp add: Un_commute)
  qed
  consider "topic \<in> ?share" | "topic \<notin> ?share" "topic \<in> ?self" | "topic \<notin> ?share" "topic \<notin> ?self" by blast
  then show ?thesis
  proof cases
    case 1
    then show ?thesis
      using False share
      by (intro moved_remove [where b = "?b (queue_name s) topic"])
        (simp_all add: run_unsubscribe session_bindings_append bind_step_events expected_bindings_def)
  next
    case 2
    then show ?thesis
      using False self
      by (intro moved_remove [where b = "?b (queue_name_self s) topic"])
        (simp_all add: run_unsubscribe session_bindings_append bind_step_events expected_bindings_def)
  next
    case 3
    then show ?thesis
      using False
      by (auto simp: moved_alike_def run_unsubscribe session_bindings_append expected_bindings_def
          intro!: exI [of _ id] simp: mono_def)
  qed
qed

lemmas in_step_subscribe = moved_alike_step(1) [OF moved_subscribe]
lemmas in_step_unsubscribe = moved_alike_step(1) [OF moved_unsubscribe]

section \<open>Properties of subscriptions\<close>

datatype topic_call = Subscribe string function_id "string pointer" | Unsubscribe string

fun topic_op :: "environment \<Rightarrow> topic_call \<Rightarrow> bool op" where
  "topic_op env (Subscribe topic callback inst) = subscribleTopicMsg env topic callback inst"
| "topic_op env (Unsubscribe topic) = unSubscribleTopicMsg env topic"

definition topic_calls :: "environment \<Rightarrow> topic_call list \<Rightarrow> RabbitMQWrapper \<Rightarrow> RabbitMQWrapper" where
  "topic_calls env cs s = fold (\<lambda>c. state_after (topic_op env c)) cs s"

text \<open>Every key is subscribed in one way only: \<open>own\<close> are the keys subscribed with an instance.\<close>

definition one_way :: "string set \<Rightarrow> topic_call \<Rightarrow> bool" where
  "one_way own c \<longleftrightarrow> (case c of
     Subscribe topic callback inst \<Rightarrow> (inst \<noteq> None) = (topic \<in> own) | Unsubscribe topic \<Rightarrow> True)"

definition sorted_by :: "string set \<Rightarrow> RabbitMQWrapper \<Rightarrow> bool" where
  "sorted_by own s \<longleftrightarrow> set (bound_routing_keys_share s) \<inter> own = {} \<and> set (bound_routing_keys_self s) \<subseteq> own"

lemma one_way_step:
  assumes "records_full s" "sorted_by own s" "one_way own c"
  shows "records_full (state_after (topic_op env c) s) \<and> sorted_by own (state_after (topic_op env c) s)"
proof (cases c)
  case (Subscribe topic callback inst)
  have "topic \<notin> set (if inst = None then bound_routing_keys_self s else bound_routing_keys_share s)"
    using assms(2,3) Subscribe by (auto simp: one_way_def sorted_by_def)
  moreover have "sorted_by own (state_after (topic_op env c) s)"
    using assms(2,3) Subscribe
    by (cases "exchange_type s \<noteq> topictype \<or> topic = ''''"; cases inst)
      (auto simp: run_subscribe run_subscribe_refused one_way_def sorted_by_def)
  ultimately show ?thesis using records_full_subscribe assms(1) Subscribe by simp
next
  case (Unsubscribe topic)
  have "sorted_by own (state_after (topic_op env c) s)"
    using assms(2) Unsubscribe
    by (cases "exchange_type s \<noteq> topictype \<or> topic = ''''")
      (auto simp: run_unsubscribe run_unsubscribe_refused sorted_by_def)
  then show ?thesis using records_full_unsubscribe assms(1) Unsubscribe by simp
qed

text \<open>
  Whatever subscriptions are made and ended, the containers stay in order and, as long as every key
  is subscribed in one way only, shared or own, the registered callbacks are exactly those of the
  recorded keys and no key is recorded twice.
\<close>

lemma callbacks_follow_subscriptions:
  assumes "records_full s" and "sorted_by own s" and "list_all (one_way own) cs"
  shows "records_full (topic_calls env cs s)"
proof -
  have "records_full (topic_calls env cs s) \<and> sorted_by own (topic_calls env cs s)"
    using assms
  proof (induction cs arbitrary: s)
    case (Cons c cs)
    then show ?case using one_way_step [of s own c env] by (simp add: topic_calls_def)
  qed (simp add: topic_calls_def)
  then show ?thesis ..
qed

lemma fresh_records: "records_full (sample_client topictype)" "in_step env (sample_client topictype)"
  by (simp_all add: records_full_def records_ok_def in_step_def session_bindings_def
      expected_bindings_def)

text \<open>
  Subscribing and unsubscribing keep the bindings of the session in step with the recorded keys:
  when the broker had exactly the recorded bindings before, it has exactly the recorded ones after.
\<close>

lemma bindings_follow_records:
  assumes "in_step env s" and "names_ok env s"
  shows "in_step env (state_after (topic_op env c) s)"
  using in_step_subscribe [OF assms(1)] in_step_unsubscribe [OF assms(2,1)] by (cases c) simp_all

text \<open>
  A received message goes to exactly one callback, that of the least registered pattern in string
  order that matches the routing key, with the key, the message, the sender and the transparent data;
  when no pattern matches, nothing is called.
\<close>

lemma message_goes_to_first_match:
  assumes "map_ok (routing_key_callbacks s)"
    and "t = state_after (topicHandleMessage silent env routing msg p) s"
  shows "(\<exists>k f. map_of (routing_key_callbacks s) k = Some f \<and> matches_key env k routing \<and>
      (\<forall>k' < k. map_of (routing_key_callbacks s) k' \<noteq> None \<longrightarrow> \<not> matches_key env k' routing) \<and>
      t = s\<lparr>trace := trace s @ [Called (CB_TOPIC f routing msg (sender p) (trans p))]\<rparr>) \<or>
    (\<forall>k. map_of (routing_key_callbacks s) k \<noteq> None \<longrightarrow> \<not> matches_key env k routing) \<and> t = s"
proof (cases "find (\<lambda>e. matches_key env (fst e) routing) (routing_key_callbacks s)")
  case None
  then show ?thesis
    using std_map.no_match [OF assms(1), where P = "\<lambda>k. matches_key env k routing"] assms(2)
    by (auto simp: run_topicHandleMessage)
next
  case (Some e)
  obtain k f where e: "e = (k, f)" by (cases e)
  then have "map_of (routing_key_callbacks s) k = Some f \<and> matches_key env k routing \<and>
      (\<forall>k' < k. map_of (routing_key_callbacks s) k' \<noteq> None \<longrightarrow> \<not> matches_key env k' routing)"
    using std_map.first_match [OF assms(1), where P = "\<lambda>k. matches_key env k routing"] Some
    by (auto simp: dom_def)
  moreover have "t = s\<lparr>trace := trace s @ [Called (CB_TOPIC f routing msg (sender p) (trans p))]\<rparr>"
    using assms(2) Some e by (simp add: run_topicHandleMessage)
  ultimately show ?thesis by blast
qed

text \<open>
  A subscription succeeds exactly for a topic client and a non-empty topic, and unsubscribing from a
  topic subscribed for the first time succeeds and restores the records: keys and callbacks are what
  they were.
\<close>

lemma unsubscribe_undoes_subscribe:
  assumes "records_ok s" and "exchange_type s = topictype" and "topic \<noteq> ''''"
    and "topic \<notin> set (bound_routing_keys_share s) \<union> set (bound_routing_keys_self s)"
    and "run_state (subscribleTopicMsg env topic callback inst) s = (ok, t)"
    and "run_state (unSubscribleTopicMsg env topic) t = (ok', u)"
  shows "ok \<and> ok' \<and> bound_routing_keys_share u = bound_routing_keys_share s \<and>
    bound_routing_keys_self u = bound_routing_keys_self s \<and>
    routing_key_callbacks u = routing_key_callbacks s"
proof -
  have "map_erase topic (map_assign topic callback (routing_key_callbacks s)) = routing_key_callbacks s"
    using assms(1,4) by (intro map_erase_assign) (auto simp: records_ok_def)
  moreover have "set_erase topic (set_insert topic ks) = ks" if "set_ok ks" "topic \<notin> set ks" for ks
    using that by (rule set_erase_insert)
  ultimately show ?thesis
    using assms by (cases inst) (auto simp: run_subscribe run_unsubscribe records_ok_def)
qed

text \<open>
  C35: A key subscribed both as shared and as own loses its callback with the first unsubscription. The call
  succeeds and asks the broker only to unbind the shared queue, which has another name than the own one: the
  key stays recorded for the own queue, whose binding, if it was requested in this session, has not been
  requested to be removed. But no callback is registered for the key any more, and a message that only this
  key's pattern matched is dropped.
\<close>

theorem double_subscription_loses_callback:
  assumes "records_ok s" and "exchange_type s = topictype" and "topic \<noteq> ''''"
    and "topic \<in> set (bound_routing_keys_share s)" and "topic \<in> set (bound_routing_keys_self s)"
    and "names_ok env s"
    and "run_state (unSubscribleTopicMsg env topic) s = (ok, t)"
  shows "ok \<and> topic \<in> set (bound_routing_keys_self t) \<and> topic \<notin> set (bound_routing_keys_share t) \<and>
    trace t = trace s @ [Lock conn_mutex, Library (Amqp_rpc (connection s) (channel s)
      (Topology (Rpc_queue_unbind (cbytes env (queue_name s)) (cbytes env (exchange_name s))
        (cbytes env topic) (empty_table env)))), Unlock conn_mutex] \<and>
    ((cbytes env (queue_name_self s), cbytes env (exchange_name s), cbytes env topic)
        \<in> session_bindings (trace s) \<longrightarrow>
      (cbytes env (queue_name_self t), cbytes env (exchange_name t), cbytes env topic)
        \<in> session_bindings (trace t)) \<and>
    map_of (routing_key_callbacks t) topic = None \<and>
    ((\<forall>k. map_of (routing_key_callbacks s) k \<noteq> None \<longrightarrow> matches_key env k routing \<longrightarrow> k = topic) \<longrightarrow>
      state_after (topicHandleMessage silent env routing msg p) t = t)"
proof -
  have t: "ok" "t = s\<lparr>bound_routing_keys_share := set_erase topic (bound_routing_keys_share s),
      routing_key_callbacks := map_erase topic (routing_key_callbacks s),
      trace := trace s @ [Lock conn_mutex, unbind_event env s (queue_name s) topic, Unlock conn_mutex]\<rparr>"
    using assms by (simp_all add: run_unsubscribe)
  have ok: "map_ok (routing_key_callbacks s)" using assms(1) by (simp add: records_ok_def)
  have "find (\<lambda>e. matches_key env (fst e) routing) (routing_key_callbacks t) = None"
    if "\<forall>k. map_of (routing_key_callbacks s) k \<noteq> None \<longrightarrow> matches_key env k routing \<longrightarrow> k = topic"
    using that ok t(2) std_map.no_match [OF std_map.ok_erase [OF ok], where P = "\<lambda>k. matches_key env k routing"]
    by (auto simp: map_of_erase dom_def split: if_splits)
  moreover have "cbytes env (queue_name_self s) \<noteq> cbytes env (queue_name s)"
    using assms(6) cbytes_eq [of env "queue_name s" "queue_name_self s"] by (auto simp: names_ok_def)
  moreover have "topic \<notin> set (set_erase topic (bound_routing_keys_share s))"
    using assms(1) by (simp add: records_ok_def)
  ultimately show ?thesis
    using t assms(2,5) by (simp add: map_of_erase run_topicHandleMessage unbind_event_def session_bindings_append)
qed

theorem double_subscription_loses_callback_witness:
  "result_of (unSubscribleTopicMsg sample_env ''a'')
    (sample_client topictype\<lparr>bound_routing_keys_share := [''a''], bound_routing_keys_self := [''a''],
      routing_key_callbacks := [(''a'', 4)], queue_name := ''q'', queue_name_self := ''own''\<rparr>)"
proof -
  let ?s = "sample_client topictype\<lparr>bound_routing_keys_share := [''a''], bound_routing_keys_self := [''a''],
    routing_key_callbacks := [(''a'', 4)], queue_name := ''q'', queue_name_self := ''own''\<rparr>"
  obtain ok t where t: "run_state (unSubscribleTopicMsg sample_env ''a'') ?s = (ok, t)" by fastforce
  have "records_ok ?s" "names_ok sample_env ?s"
    by (simp_all add: records_ok_def set_ok_def names_ok_def plain_cstring_bytes_doc c_str_def no_nul_def)
  from double_subscription_loses_callback [OF this(1) _ _ _ _ this(2) t, of "''a''" "''m''" sample_props] t
  show ?thesis by simp
qed

end
