(* ===== verification/Timer_Tasks.thy ===== *)
theory Timer_Tasks
  imports Client_State
begin

section \<open>Timer tasks\<close>

text \<open>
  The list of pending requests and notifications and the operations on it: \<open>p2pReqTimerId\<close>,
  \<open>p2pAddTimerTask\<close>, \<open>p2pRemoveTimerTask\<close>, \<open>p2pRestartTimerTask\<close>, \<open>p2pGetTimerTaskInfo\<close>,
  \<open>p2pTimeoutProc\<close> and one round of \<open>TimerThreadProc\<close>. The locale says what the rest of the client
  relies on of such a list; it is interpreted on the list the code keeps. The lemmas show that ids do
  not repeat, which task an operation changes, and that a round of the timer removes exactly the
  expired tasks and reports each once, in order.
\<close>

subsection \<open>What the client relies on\<close>

locale task_registry =
  fixes task_of :: "'s \<Rightarrow> 'i \<Rightarrow> 't option"
    and ident :: "'t \<Rightarrow> 'i"
    and add :: "'t \<Rightarrow> 's \<Rightarrow> 's"
    and remove :: "'i \<Rightarrow> 's \<Rightarrow> 's"
    and alter :: "'i \<Rightarrow> ('t \<Rightarrow> 't) \<Rightarrow> 's \<Rightarrow> 's"
    and valid :: "'s \<Rightarrow> bool"
  assumes task_of_add:
      "valid s \<Longrightarrow> task_of s (ident t) = None \<Longrightarrow> task_of (add t s) = (task_of s)(ident t \<mapsto> t)"
    and task_of_remove: "valid s \<Longrightarrow> task_of (remove i s) = (task_of s)(i := None)"
    and task_of_alter: "valid s \<Longrightarrow> (\<And>t. ident (f t) = ident t) \<Longrightarrow>
      task_of (alter i f s) = (task_of s)(i := map_option f (task_of s i))"
    and ident_task_of: "valid s \<Longrightarrow> task_of s i = Some t \<Longrightarrow> ident t = i"
    and valid_add: "valid s \<Longrightarrow> task_of s (ident t) = None \<Longrightarrow> valid (add t s)"
    and valid_remove: "valid s \<Longrightarrow> valid (remove i s)"
    and valid_alter: "valid s \<Longrightarrow> (\<And>t. ident (f t) = ident t) \<Longrightarrow> valid (alter i f s)"
begin

lemma add_remove:
  "valid s \<Longrightarrow> task_of s (ident t) = None \<Longrightarrow> task_of (remove (ident t) (add t s)) = task_of s"
  by (auto simp: task_of_remove task_of_add valid_add fun_eq_iff)

lemma alter_absent:
  "valid s \<Longrightarrow> (\<And>t. ident (f t) = ident t) \<Longrightarrow> task_of s i = None \<Longrightarrow> task_of (alter i f s) = task_of s"
  by (auto simp: task_of_alter fun_eq_iff)

text \<open>A task that is gone stays away under removals and alterations.\<close>

lemma gone_stays_away:
  assumes "valid s" "task_of s i = None"
    and "\<And>j f t. Inr (j, f) \<in> set changes \<Longrightarrow> ident (f t) = ident t"
  shows "task_of (fold (case_sum remove (\<lambda>(j, f). alter j f)) changes s) i = None \<and>
    valid (fold (case_sum remove (\<lambda>(j, f). alter j f)) changes s)"
  using assms
proof (induction changes arbitrary: s)
  case (Cons c changes)
  let ?s = "case_sum remove (\<lambda>(j, f). alter j f) c s"
  have "valid ?s \<and> task_of ?s i = None"
  proof (cases c)
    case (Inl j)
    with Cons.prems(1,2) show ?thesis by (simp add: valid_remove task_of_remove)
  next
    case (Inr jf)
    obtain j f where "jf = (j, f)" by (cases jf)
    moreover from this Inr have "ident (f t) = ident t" for t using Cons.prems(3) [of j f t] by simp
    ultimately show ?thesis using Cons.prems(1,2) Inr by (auto simp: valid_alter task_of_alter)
  qed
  moreover have "ident (f t) = ident t" if "Inr (j, f) \<in> set changes" for j f t
    using that by (intro Cons.prems(3) [of j f]) simp
  ultimately show ?case using Cons.IH [of ?s] by simp
qed simp

end

subsection \<open>The list of tasks\<close>

definition find_task :: "TimerTask list \<Rightarrow> i32 \<Rightarrow> TimerTask option" where
  "find_task ts i = find (\<lambda>t. task_id t = i) ts"

definition push_task :: "TimerTask \<Rightarrow> TimerTask list \<Rightarrow> TimerTask list" where
  "push_task t ts = ts @ [t]"

definition drop_task :: "i32 \<Rightarrow> TimerTask list \<Rightarrow> TimerTask list" where
  "drop_task i ts = erase_first (\<lambda>t. task_id t = i) ts"

definition alter_task :: "i32 \<Rightarrow> (TimerTask \<Rightarrow> TimerTask) \<Rightarrow> TimerTask list \<Rightarrow> TimerTask list" where
  "alter_task i f ts = update_first (\<lambda>t. task_id t = i) f ts"

definition ids_differ :: "TimerTask list \<Rightarrow> bool" where
  "ids_differ ts \<longleftrightarrow> distinct (map task_id ts)"

lemma find_task_simps [simp]:
  "find_task [] i = None"
  "find_task (t # ts) i = (if task_id t = i then Some t else find_task ts i)"
  by (simp_all add: find_task_def)

lemma find_task_None: "find_task ts i = None \<longleftrightarrow> i \<notin> task_id ` set ts"
  by (induction ts) auto

lemma find_task_id: "find_task ts i = Some t \<Longrightarrow> task_id t = i"
  by (induction ts) (auto split: if_splits)

lemma find_task_in: "find_task ts i = Some t \<Longrightarrow> t \<in> set ts"
  by (induction ts) (auto split: if_splits)

lemma find_task_push:
  "find_task ts (task_id t) = None \<Longrightarrow> find_task (push_task t ts) = (find_task ts)(task_id t \<mapsto> t)"
  by (induction ts) (auto simp: push_task_def fun_eq_iff split: if_splits)

lemma find_task_drop:
  "ids_differ ts \<Longrightarrow> find_task (drop_task i ts) = (find_task ts)(i := None)"
proof (induction ts)
  case (Cons t ts)
  then have "task_id t = i \<Longrightarrow> find_task ts i = None" by (auto simp: find_task_None ids_differ_def)
  with Cons show ?case by (auto simp: drop_task_def ids_differ_def fun_eq_iff)
qed (simp add: drop_task_def fun_eq_iff)

lemma find_task_alter:
  assumes "\<And>t. task_id (f t) = task_id t"
  shows "find_task (alter_task i f ts) = (find_task ts)(i := map_option f (find_task ts i))"
  using assms by (induction ts) (auto simp: alter_task_def fun_eq_iff)

lemma ids_differ_drop: "ids_differ ts \<Longrightarrow> ids_differ (drop_task i ts)"
  by (simp add: ids_differ_def drop_task_def erase_first_key distinct_map_filter)

lemma ids_differ_alter: "(\<And>t. task_id (f t) = task_id t) \<Longrightarrow> ids_differ (alter_task i f ts) = ids_differ ts"
  by (simp add: ids_differ_def alter_task_def map_update_first)

interpretation timers: task_registry find_task task_id push_task drop_task alter_task ids_differ
proof unfold_locales
  fix ts :: "TimerTask list" and t
  show "ids_differ ts \<Longrightarrow> find_task ts (task_id t) = None \<Longrightarrow> ids_differ (push_task t ts)"
    by (auto simp: ids_differ_def push_task_def find_task_None)
qed (simp_all add: find_task_push find_task_drop find_task_alter find_task_id ids_differ_drop
    ids_differ_alter)

subsection \<open>The operations\<close>

text \<open>
  The counter is a signed \<open>int\<close>. Incrementing it past \<open>2 ^ 31 - 1\<close> is undefined in the language; the
  model lets it wrap, as the machine does, so what is said of runs with up to \<open>2 ^ 32\<close> ids holds of the
  code without that assumption for the first \<open>2 ^ 31 - 1\<close> of them.
\<close>

definition p2pReqTimerId :: "i32 op" where
  "p2pReqTimerId = do {
     s \<leftarrow> State_Monad.get;
     if exchange_type s \<noteq> p2ptype then ret (- 1)
     else locked timer_mutex (do {
       timer_id \<leftarrow> gets m_next_timer_id;
       modify (\<lambda>s. s\<lparr>m_next_timer_id := m_next_timer_id s + 1\<rparr>);
       ret timer_id
     })
   }"

definition p2pAddTimerTask ::
  "environment \<Rightarrow> i32 \<Rightarrow> string \<Rightarrow> string \<Rightarrow> i32 \<Rightarrow> int_props_st \<Rightarrow> unit op" where
  "p2pAddTimerTask env timer_id k msg interval props = do {
     s \<leftarrow> State_Monad.get;
     if exchange_type s \<noteq> p2ptype then ret ()
     else locked timer_mutex (do {
       t \<leftarrow> now env;
       modify (\<lambda>s. s\<lparr>timer_tasks :=
         push_task (new_TimerTask t timer_id k msg interval props) (timer_tasks s)\<rparr>)
     })
   }"

definition p2pRemoveTimerTask :: "i32 \<Rightarrow> unit op" where
  "p2pRemoveTimerTask timer_id = do {
     s \<leftarrow> State_Monad.get;
     if exchange_type s \<noteq> p2ptype then ret ()
     else locked timer_mutex
       (modify (\<lambda>s. s\<lparr>timer_tasks := drop_task timer_id (timer_tasks s)\<rparr>))
   }"

definition p2pRestartTimerTask :: "environment \<Rightarrow> i32 \<Rightarrow> unit op" where
  "p2pRestartTimerTask env timer_id = do {
     s \<leftarrow> State_Monad.get;
     if exchange_type s \<noteq> p2ptype then ret ()
     else locked timer_mutex (
       only_if (find_task (timer_tasks s) timer_id \<noteq> None) (do {
         t \<leftarrow> now env;
         modify (\<lambda>s. s\<lparr>timer_tasks := alter_task timer_id
           (\<lambda>task. task\<lparr>expire_time := expiry t (task_interval task)\<rparr>) (timer_tasks s)\<rparr>)
       }))
   }"

text \<open>
  The code returns a pointer into the vector; the model the task it points to. (The pointer is used
  after the mutex is released, while the timer thread may erase the task.)
\<close>

definition p2pGetTimerTaskInfo :: "i32 \<Rightarrow> TimerTask pointer op" where
  "p2pGetTimerTaskInfo timer_id = do {
     s \<leftarrow> State_Monad.get;
     if exchange_type s \<noteq> p2ptype then ret None
     else locked timer_mutex (gets (\<lambda>s. find_task (timer_tasks s) timer_id))
   }"

definition p2pSetCallback :: "MID_CLIENT_HANDLER \<Rightarrow> unit op" where
  "p2pSetCallback handle = do {
     s \<leftarrow> State_Monad.get;
     if exchange_type s \<noteq> p2ptype then ret ()
     else modify (\<lambda>s. s\<lparr>stClientCBHandle := handle\<rparr>)
   }"

definition p2pTimeoutProc :: "(callback_call \<Rightarrow> unit op) \<Rightarrow> TimerTask \<Rightarrow> unit op" where
  "p2pTimeoutProc call task = do {
     s \<leftarrow> State_Monad.get;
     if exchange_type s \<noteq> p2ptype then ret ()
     else do {
       log (''timerout, id: '' @ to_string (sint (task_id task)));
       let p = task_props task;
       case (msgtype p, m_cbRequestTimeout (stClientCBHandle s), m_cbNotifyTimeout (stClientCBHandle s)) of
         (RB_REQUEST, Some f, _) \<Rightarrow>
           call (CB_REQUEST_TIMEOUT f ''RMQ-BUS'' (c_str (receiver p)) (c_str (msgname p))
             (rid p) (inarg p))
       | (RB_NOTIFICATION, _, Some f) \<Rightarrow>
           call (CB_NOTIFY_TIMEOUT f ''RMQ-BUS'' (c_str (receiver p)) (c_str (msgname p))
             (rid p) (inarg p))
       | _ \<Rightarrow> ret ()
     }
   }"

subsection \<open>One round of the timer thread\<close>

text \<open>
  The erasing loop: \<open>seen\<close> is what the iterator has passed, so the vector is \<open>seen @ todo\<close>.
\<close>

primrec expire_loop :: "(callback_call \<Rightarrow> unit op) \<Rightarrow> i32 list \<Rightarrow> TimerTask list \<Rightarrow> TimerTask list \<Rightarrow> unit op" where
  "expire_loop call ids seen [] = ret ()"
| "expire_loop call ids seen (t # todo) =
     (if task_id t \<in> set ids then do {
        p2pTimeoutProc call t;
        modify (\<lambda>s. s\<lparr>timer_tasks := seen @ todo\<rparr>);
        expire_loop call ids seen todo
      }
      else expire_loop call ids (seen @ [t]) todo)"

definition expired :: "int \<Rightarrow> TimerTask \<Rightarrow> bool" where
  "expired t task \<longleftrightarrow> t \<ge> expire_time task"

definition timer_round :: "(callback_call \<Rightarrow> unit op) \<Rightarrow> environment \<Rightarrow> unit op" where
  "timer_round call env = do {
     locked timer_mutex (do {
       t \<leftarrow> now env;
       tasks \<leftarrow> gets timer_tasks;
       let tasks_to_remove = map task_id (filter (expired t) tasks);
       only_if (tasks_to_remove \<noteq> []) (expire_loop call tasks_to_remove [] tasks)
     });
     emit (Slept 1000)
   }"

subsection \<open>Runs of the operations\<close>

lemma run_req_id:
  "exchange_type s = p2ptype \<Longrightarrow> run_state p2pReqTimerId s =
    (m_next_timer_id s, s\<lparr>m_next_timer_id := m_next_timer_id s + 1,
       trace := trace s @ [Lock timer_mutex, Unlock timer_mutex]\<rparr>)"
  by (simp add: p2pReqTimerId_def)

lemma run_add_task:
  "exchange_type s = p2ptype \<Longrightarrow> run_state (p2pAddTimerTask env i k msg interval props) s =
    ((), s\<lparr>timer_tasks := push_task (new_TimerTask
          (steady_now env (trace s @ [Lock timer_mutex, Read_clock])) i k msg interval props)
          (timer_tasks s),
       trace := trace s @ [Lock timer_mutex, Read_clock, Unlock timer_mutex]\<rparr>)"
  by (simp add: p2pAddTimerTask_def)

lemma run_remove_task:
  "exchange_type s = p2ptype \<Longrightarrow> run_state (p2pRemoveTimerTask i) s =
    ((), s\<lparr>timer_tasks := drop_task i (timer_tasks s),
       trace := trace s @ [Lock timer_mutex, Unlock timer_mutex]\<rparr>)"
  by (simp add: p2pRemoveTimerTask_def)

lemma run_restart_task:
  "exchange_type s = p2ptype \<Longrightarrow> run_state (p2pRestartTimerTask env i) s =
    ((), if find_task (timer_tasks s) i = None
         then s\<lparr>trace := trace s @ [Lock timer_mutex, Unlock timer_mutex]\<rparr>
         else s\<lparr>timer_tasks := alter_task i (\<lambda>task. task\<lparr>expire_time :=
                  expiry (steady_now env (trace s @ [Lock timer_mutex, Read_clock])) (task_interval task)\<rparr>)
                  (timer_tasks s),
                trace := trace s @ [Lock timer_mutex, Read_clock, Unlock timer_mutex]\<rparr>)"
  by (simp add: p2pRestartTimerTask_def)

lemma run_get_task:
  "exchange_type s = p2ptype \<Longrightarrow> run_state (p2pGetTimerTaskInfo i) s =
    (find_task (timer_tasks s) i, s\<lparr>trace := trace s @ [Lock timer_mutex, Unlock timer_mutex]\<rparr>)"
  by (simp add: p2pGetTimerTaskInfo_def)

lemmas run_timer_ops =
  run_req_id run_add_task run_remove_task run_restart_task run_get_task

text \<open>The callback a timed-out task causes: at most one.\<close>

definition timeout_calls :: "MID_CLIENT_HANDLER \<Rightarrow> TimerTask \<Rightarrow> callback_call list" where
  "timeout_calls h task =
     (let p = task_props task in
      case (msgtype p, m_cbRequestTimeout h, m_cbNotifyTimeout h) of
        (RB_REQUEST, Some f, _) \<Rightarrow>
          [CB_REQUEST_TIMEOUT f ''RMQ-BUS'' (c_str (receiver p)) (c_str (msgname p)) (rid p) (inarg p)]
      | (RB_NOTIFICATION, _, Some f) \<Rightarrow>
          [CB_NOTIFY_TIMEOUT f ''RMQ-BUS'' (c_str (receiver p)) (c_str (msgname p)) (rid p) (inarg p)]
      | _ \<Rightarrow> [])"

definition timeout_events :: "MID_CLIENT_HANDLER \<Rightarrow> TimerTask \<Rightarrow> event list" where
  "timeout_events h task =
     Logged (''timerout, id: '' @ to_string (sint (task_id task))) # map Called (timeout_calls h task)"

lemma run_timeout:
  "exchange_type s = p2ptype \<Longrightarrow> run_state (p2pTimeoutProc silent task) s =
    ((), s\<lparr>trace := trace s @ timeout_events (stClientCBHandle s) task\<rparr>)"
  by (auto simp: p2pTimeoutProc_def timeout_events_def timeout_calls_def Let_def
      split: message_type_t.splits option.splits)

lemma run_expire_loop:
  assumes "exchange_type s = p2ptype" and "timer_tasks s = seen @ todo"
  shows "run_state (expire_loop silent ids seen todo) s =
    ((), s\<lparr>timer_tasks := seen @ filter (\<lambda>t. task_id t \<notin> set ids) todo,
       trace := trace s @ concat (map (timeout_events (stClientCBHandle s))
         (filter (\<lambda>t. task_id t \<in> set ids) todo))\<rparr>)"
  using assms
proof (induction todo arbitrary: seen s)
  case Nil
  then show ?case by simp
next
  case (Cons t todo)
  show ?case
  proof (cases "task_id t \<in> set ids")
    case True
    let ?s = "s\<lparr>trace := trace s @ timeout_events (stClientCBHandle s) t, timer_tasks := seen @ todo\<rparr>"
    have "run_state (expire_loop silent ids seen (t # todo)) s = run_state (expire_loop silent ids seen todo) ?s"
      using True Cons.prems by (simp add: run_timeout)
    then show ?thesis using True Cons.prems by (simp add: Cons.IH)
  next
    case False
    then show ?thesis using Cons.prems by (simp add: Cons.IH)
  qed
qed

lemma run_timer_round:
  assumes "exchange_type s = p2ptype" "ids_differ (timer_tasks s)"
    and "t = steady_now env (trace s @ [Lock timer_mutex, Read_clock])"
  shows "run_state (timer_round silent env) s =
    ((), s\<lparr>timer_tasks := filter (\<lambda>task. \<not> expired t task) (timer_tasks s),
       trace := trace s @ [Lock timer_mutex, Read_clock] @
         concat (map (timeout_events (stClientCBHandle s)) (filter (expired t) (timer_tasks s))) @
         [Unlock timer_mutex, Slept 1000]\<rparr>)"
proof -
  let ?ts = "timer_tasks s" and ?ids = "map task_id (filter (expired t) (timer_tasks s))"
  have by_id: "task_id x \<in> set ?ids \<longleftrightarrow> expired t x" if "x \<in> set ?ts" for x
    using that assms(2) distinct_map_inj_on_set unfolding ids_differ_def by fastforce
  then have "filter (\<lambda>x. task_id x \<in> set ?ids) ?ts = filter (expired t) ?ts"
    and "filter (\<lambda>x. task_id x \<notin> set ?ids) ?ts = filter (\<lambda>x. \<not> expired t x) ?ts"
    by (intro filter_cong refl; blast)+
  moreover have "filter (\<lambda>x. \<not> expired t x) ?ts = ?ts" if "filter (expired t) ?ts = []"
    using that by (simp add: filter_empty_conv filter_id_iff)
  ultimately show ?thesis
    using assms(1) run_expire_loop [where seen = "[]" and todo = ?ts and ids = ?ids and
        s = "s\<lparr>trace := trace s @ [Lock timer_mutex, Read_clock]\<rparr>"]
    unfolding timer_round_def assms(3) by (simp add: Let_def)
qed

lemma callback_position:
  assumes "list_all (\<lambda>e. \<not> is_lock_event e) evs"
    and "[Lock m, Read_clock] @ evs @ [Unlock m, Slept n] = before @ Called b # after"
  obtains mid where "before = Lock m # mid" "list_all (\<lambda>e. \<not> is_lock_event e) mid"
proof -
  obtain mid where mid: "before = Lock m # mid" "Read_clock # evs @ [Unlock m, Slept n] = mid @ Called b # after"
    using assms(2) by (cases before) auto
  have "list_all (\<lambda>e. \<not> is_lock_event e) pre"
    if "es @ [Unlock m, Slept n] = pre @ Called b # after" "list_all (\<lambda>e. \<not> is_lock_event e) es"
    for es pre
    using that
  proof (induction es arbitrary: pre)
    case Nil
    then show ?case by (cases pre; cases "tl pre") auto
  next
    case (Cons e es)
    then show ?case by (cases pre) auto
  qed
  from this [of "Read_clock # evs" mid] mid assms(1) that show thesis by simp
qed

section \<open>Properties of timer tasks\<close>

primrec request_ids :: "nat \<Rightarrow> i32 list op" where
  "request_ids 0 = ret []"
| "request_ids (Suc n) = do { i \<leftarrow> p2pReqTimerId; is \<leftarrow> request_ids n; ret (i # is) }"

lemma request_ids_result:
  "exchange_type s = p2ptype \<Longrightarrow>
    result_of (request_ids n) s = map (\<lambda>j. m_next_timer_id s + of_nat j) [0..<n]"
proof (induction n arbitrary: s)
  case (Suc n)
  have "map (\<lambda>j. m_next_timer_id s + of_nat j) [0..<Suc n] =
      m_next_timer_id s # map (\<lambda>j. m_next_timer_id s + 1 + of_nat j) [0..<n]"
    by (simp add: upt_conv_Cons map_Suc_upt [symmetric] add.assoc del: upt_Suc)
  with Suc show ?case by (simp add: run_req_id split_beta)
qed simp

text \<open>
  Successive request ids of a point-to-point client count up from the next id and do not repeat
  within \<open>2 ^ 32\<close> requests; a client of another type gets \<open>-1\<close> and keeps its state.
\<close>

lemma request_ids_fresh:
  assumes "exchange_type s = p2ptype" and "n \<le> 2 ^ 32"
  shows "result_of (request_ids n) s = map (\<lambda>j. m_next_timer_id s + of_nat j) [0..<n] \<and>
    distinct (result_of (request_ids n) s)"
proof -
  have "inj_on (\<lambda>j. m_next_timer_id s + of_nat j :: 32 word) (set [0..<n])"
  proof (rule inj_onI)
    fix i j
    assume ij: "i \<in> set [0..<n]" "j \<in> set [0..<n]"
      "m_next_timer_id s + of_nat i = m_next_timer_id s + of_nat j"
    then have "unat (of_nat i :: 32 word) = unat (of_nat j :: 32 word)" by simp
    then show "i = j" using ij(1,2) assms(2) by (simp add: unat_of_nat)
  qed
  then show ?thesis by (simp add: request_ids_result [OF assms(1)] distinct_map)
qed

text \<open>
  On tasks with different ids the operations of a point-to-point client do what a table of pending
  requests needs: an added task is found under its id, a removed one no longer, a restarted one with a
  new expiry and nothing else changed; no other task is affected, and the ids stay different.
\<close>

lemma timer_operations:
  assumes "exchange_type s = p2ptype" and "ids_differ (timer_tasks s)"
    and "find_task (timer_tasks s) i = None"
  shows "find_task (timer_tasks (state_after (p2pAddTimerTask env i k msg n props) s)) =
      (find_task (timer_tasks s))(i \<mapsto>
        new_TimerTask (steady_now env (trace s @ [Lock timer_mutex, Read_clock])) i k msg n props) \<and>
    find_task (timer_tasks (state_after (p2pRemoveTimerTask j) s)) = (find_task (timer_tasks s))(j := None) \<and>
    find_task (timer_tasks (state_after (p2pRestartTimerTask env j) s)) =
      (find_task (timer_tasks s))(j := map_option
        (\<lambda>task. task\<lparr>expire_time := expiry
          (steady_now env (trace s @ [Lock timer_mutex, Read_clock])) (task_interval task)\<rparr>)
        (find_task (timer_tasks s) j)) \<and>
    ids_differ (timer_tasks (state_after (p2pAddTimerTask env i k msg n props) s)) \<and>
    ids_differ (timer_tasks (state_after (p2pRemoveTimerTask j) s)) \<and>
    ids_differ (timer_tasks (state_after (p2pRestartTimerTask env j) s))"
proof -
  have i: "task_id (new_TimerTask t i k msg n props) = i" for t by (simp add: new_TimerTask_def)
  show ?thesis
    using assms timers.task_of_add [OF assms(2), of "new_TimerTask _ i k msg n props", unfolded i]
      timers.valid_add [OF assms(2), of "new_TimerTask _ i k msg n props", unfolded i]
    by (auto simp: run_timer_ops timers.task_of_remove timers.task_of_alter timers.valid_remove
        timers.valid_alter fun_eq_iff)
qed

text \<open>
  C28: A round of the timer, with functions that only record their call, removes exactly the tasks
  whose time has come and keeps the others in order. Its whole history is known: under \<open>timer_mutex\<close> it
  reads the clock and then makes for each removed task, in order, one log entry with its id and the
  timeout callback of its kind if the client has set one, and nothing else; then it sleeps a second.
\<close>

theorem timer_round_expires:
  assumes "exchange_type s = p2ptype" and "ids_differ (timer_tasks s)"
    and "t = steady_now env (trace s @ [Lock timer_mutex, Read_clock])"
  shows "timer_tasks (state_after (timer_round silent env) s) =
      filter (\<lambda>task. t < expire_time task) (timer_tasks s) \<and>
    called (trace (state_after (timer_round silent env) s)) = called (trace s) @
      concat (map (timeout_calls (stClientCBHandle s))
        (filter (\<lambda>task. expire_time task \<le> t) (timer_tasks s))) \<and>
    trace (state_after (timer_round silent env) s) = trace s @ [Lock timer_mutex, Read_clock] @
      concat (map (\<lambda>task. Logged (''timerout, id: '' @ to_string (sint (task_id task))) #
          map Called (timeout_calls (stClientCBHandle s) task))
        (filter (\<lambda>task. expire_time task \<le> t) (timer_tasks s))) @ [Unlock timer_mutex, Slept 1000] \<and>
    ids_differ (timer_tasks (state_after (timer_round silent env) s))"
proof -
  have expired: "expired t = (\<lambda>task. expire_time task \<le> t)"
    by (auto simp: expired_def)
  have called: "called (concat (map (timeout_events h) ts)) = concat (map (timeout_calls h) ts)"
    for h ts
    by (induction ts) (simp_all add: timeout_events_def)
  have "timeout_events h = (\<lambda>task. Logged (''timerout, id: '' @ to_string (sint (task_id task))) #
      map Called (timeout_calls h task))" for h
    by (simp add: timeout_events_def fun_eq_iff)
  with run_timer_round [OF assms] assms(2) show ?thesis
    by (simp add: expired not_le called [symmetric] ids_differ_def distinct_map_filter)
qed

definition sample_task :: "i32 \<Rightarrow> int \<Rightarrow> TimerTask" where
  "sample_task i e =
     \<lparr>task_id = i, task_routing_key = ''m'', task_message = ''b'', task_interval = 1,
      task_props = sample_props, expire_time = e\<rparr>"

theorem timer_round_expires_witness:
  "timer_tasks (state_after (timer_round silent sample_env)
      (sample_client p2ptype\<lparr>timer_tasks := [sample_task 0 1, sample_task 1 900, sample_task 2 2]\<rparr>)) =
    [sample_task 1 900]"
proof -
  let ?s = "sample_client p2ptype\<lparr>timer_tasks := [sample_task 0 1, sample_task 1 900, sample_task 2 2]\<rparr>"
  have "timer_tasks (state_after (timer_round silent sample_env) ?s) =
      filter (\<lambda>task. steady_now sample_env (trace ?s @ [Lock timer_mutex, Read_clock]) < expire_time task)
        (timer_tasks ?s)"
    by (rule conjunct1 [OF timer_round_expires [OF _ _ refl]])
      (simp_all add: ids_differ_def sample_task_def)
  then show ?thesis by (simp add: sample_task_def)
qed

text \<open>
  A timeout callback runs while \<open>timer_mutex\<close> is held: in the history of a round every callback
  lies between the locking and the unlocking of that mutex, so a callback that starts a new request
  waits for a mutex its own thread holds.
\<close>

lemma timeout_callback_holds_mutex:
  assumes "exchange_type s = p2ptype" and "ids_differ (timer_tasks s)" and "held (trace s) = []"
    and "locks [] (trace s) \<noteq> None"
    and "trace (state_after (timer_round silent env) s) = trace s @ before @ Called b # after"
  shows "timer_mutex \<in> set (held (trace s @ before))"
proof -
  let ?t = "steady_now env (trace s @ [Lock timer_mutex, Read_clock])"
  let ?evs = "concat (map (timeout_events (stClientCBHandle s)) (filter (expired ?t) (timer_tasks s)))"
  have split: "[Lock timer_mutex, Read_clock] @ ?evs @ [Unlock timer_mutex, Slept 1000] =
      before @ Called b # after"
    using run_timer_round [OF assms(1,2) refl] assms(5) by simp
  have quiet: "list_all (\<lambda>e. \<not> is_lock_event e) ?evs"
    by (auto simp: list_all_iff timeout_events_def)
  then obtain mid where mid: "before = Lock timer_mutex # mid" "list_all (\<lambda>e. \<not> is_lock_event e) mid"
    using split by (rule callback_position)
  then show ?thesis using assms(3,4) by (auto simp: held_def locks_append locks_only_skipped split: option.splits)
qed

end
