(* ===== verification/P2p.thy ===== *)
theory P2p
  imports Connection Publish Timer_Tasks
begin

section \<open>The point-to-point interface\<close>

text \<open>
  The C interface of \<open>include/rmMidLib.h\<close> and \<open>src/rmMidLib.cpp\<close>, and \<open>p2pHandleMessage\<close> of
  \<open>src/rabbitmqclient.cpp\<close>, which receives what the interface sends. An argument of type
  \<open>const char *\<close> is a pointer to the characters before its terminator, or \<open>NULL\<close>. The lemmas show
  what each call sends and records, what each received message causes, and how both treat bad
  arguments and unset callbacks.
\<close>

subsection \<open>Sending\<close>

text \<open>
  The header table and the flags of every function of the interface; unlike the publishing functions
  they ignore what \<open>IntProps2AmqpTable\<close> returns.
\<close>

definition rm_properties :: "environment \<Rightarrow> int_props_st \<Rightarrow> amqp_basic_properties_t result" where
  "rm_properties env intprops =
     (case IntProps2AmqpTable (cstring_bytes env) intprops (local_table env) of
        None \<Rightarrow> Inl Out_of_bounds
      | Some (_, table) \<Rightarrow>
          Inr ((text_plain env)\<lparr>flags := AMQP_BASIC_CONTENT_TYPE_FLAG OR AMQP_BASIC_HEADERS_FLAG,
            headers := table\<rparr>))"

text \<open>
  The bodies of \<open>rmRequestMake\<close> and \<open>rmNotifyMake\<close> behind their checks differ in the message type
  only. The result is the returned number and what has been stored in \<open>*rpid\<close>.
\<close>

definition make_call ::
  "environment \<Rightarrow> message_type_t \<Rightarrow> string \<Rightarrow> string \<Rightarrow> address \<Rightarrow> string \<Rightarrow> unit pointer \<Rightarrow> i32
     \<Rightarrow> (i32 \<times> i32 option) result op" where
  "make_call env type modName msgName inArg msgBody rpid timeout = do {
     timer_id \<leftarrow> p2pReqTimerId;
     name \<leftarrow> GetModuleName;
     ms \<leftarrow> timestamp_ms env;
     let intprops =
       \<lparr>sender = name, receiver = modName, msgtype = type, msgname = msgName, rid = timer_id,
        inarg = inArg, timestamp = ms, rspcode = ''no code'', rspdesc = ''no description'',
        trans = ''no transparent''\<rparr>;
     case rm_properties env intprops of
       Inl e \<Rightarrow> ret (Inl e)
     | Inr props \<Rightarrow> do {
         p2pAddTimerTask env timer_id modName msgBody (i32_div timeout 1000) intprops;
         if rpid = NULL then ret (Inl Null_dereference)
         else do {
           rslt \<leftarrow> SendRabbitmqMessage env modName msgBody (Some props);
           if rslt then ret (Inr (0, Some timer_id))
           else do {
             p2pRemoveTimerTask timer_id;
             ret (Inr (- 1, Some timer_id))
           }
         }
       }
   }"

definition rmRequestMake ::
  "environment \<Rightarrow> string pointer \<Rightarrow> string pointer \<Rightarrow> address \<Rightarrow> string pointer \<Rightarrow> unit pointer \<Rightarrow> i32
     \<Rightarrow> (i32 \<times> i32 option) result op" where
  "rmRequestMake env modName msgName inArg msgBody rpid timeout =
     on_ok (getInstance env p2ptype) (\<lambda>_.
       case (modName, msgName, msgBody) of
         (Some m, Some n, Some b) \<Rightarrow> make_call env RB_REQUEST m n inArg b rpid timeout
       | _ \<Rightarrow> ret (Inr (- 1, None)))"

definition rmNotifyMake ::
  "environment \<Rightarrow> string pointer \<Rightarrow> string pointer \<Rightarrow> address \<Rightarrow> string pointer \<Rightarrow> unit pointer \<Rightarrow> i32
     \<Rightarrow> (i32 \<times> i32 option) result op" where
  "rmNotifyMake env modName msgName inArg msgBody rpid timeout =
     on_ok (getInstance env p2ptype) (\<lambda>_.
       case (modName, msgName, msgBody) of
         (Some m, Some n, Some b) \<Rightarrow> make_call env RB_NOTIFICATION m n inArg b rpid timeout
       | _ \<Rightarrow> ret (Inr (- 1, None)))"

text \<open>A send without a timer: its properties, and the number returned.\<close>

definition send_props :: "environment \<Rightarrow> string \<Rightarrow> string \<Rightarrow> int_props_st \<Rightarrow> i32 result op" where
  "send_props env modName msgBody intprops =
     (case rm_properties env intprops of
        Inl e \<Rightarrow> ret (Inl e)
      | Inr props \<Rightarrow> do {
          rslt \<leftarrow> SendRabbitmqMessage env modName msgBody (Some props);
          if rslt then ret (Inr 0) else ret (Inr (- 1))
        })"

definition rmReportMake ::
  "environment \<Rightarrow> string pointer \<Rightarrow> string pointer \<Rightarrow> string pointer \<Rightarrow> i32 result op" where
  "rmReportMake env modName msgName msgBody =
     on_ok (getInstance env p2ptype) (\<lambda>_.
       case (modName, msgName, msgBody) of
         (Some m, Some n, Some b) \<Rightarrow> do {
           name \<leftarrow> GetModuleName;
           ms \<leftarrow> timestamp_ms env;
           send_props env m b
             \<lparr>sender = name, receiver = m, msgtype = RB_REPORT, msgname = n, rid = - 1, inarg = 0,
              timestamp = ms, rspcode = ''no code'', rspdesc = ''no description'',
              trans = ''no transparent''\<rparr>
         }
       | _ \<Rightarrow> ret (Inr (- 1)))"

definition rmRequestTempResponse ::
  "environment \<Rightarrow> string pointer \<Rightarrow> i32 \<Rightarrow> string pointer \<Rightarrow> string pointer \<Rightarrow> string pointer
     \<Rightarrow> i32 result op" where
  "rmRequestTempResponse env modName rpid respCode respDescr msgBody =
     on_ok (getInstance env p2ptype) (\<lambda>_.
       case (respCode, msgBody, modName) of
         (Some c, Some b, Some m) \<Rightarrow> do {
           name \<leftarrow> GetModuleName;
           ms \<leftarrow> timestamp_ms env;
           case respDescr of
             NULL \<Rightarrow> ret (Inl String_from_null)
           | Some d \<Rightarrow> send_props env m b
               \<lparr>sender = name, receiver = m, msgtype = RB_TEMPORARY_RESPONSE, msgname = ''temprsp'',
                rid = rpid, inarg = 0, timestamp = ms, rspcode = c, rspdesc = d,
                trans = ''no transparent''\<rparr>
         }
       | _ \<Rightarrow> ret (Inr (- 1)))"

definition rmRequestFinalResponse ::
  "environment \<Rightarrow> string pointer \<Rightarrow> i32 \<Rightarrow> string pointer \<Rightarrow> string pointer \<Rightarrow> string pointer
     \<Rightarrow> i32 result op" where
  "rmRequestFinalResponse env modName rpid respCode respDescr msgBody =
     on_ok (getInstance env p2ptype) (\<lambda>_.
       case (respCode, msgBody, modName) of
         (Some c, Some b, Some m) \<Rightarrow> do {
           name \<leftarrow> GetModuleName;
           ms \<leftarrow> timestamp_ms env;
           case respDescr of
             NULL \<Rightarrow> ret (Inl String_from_null)
           | Some d \<Rightarrow> send_props env m b
               \<lparr>sender = name, receiver = m, msgtype = RB_FINAL_RESPONSE, msgname = ''finalrsp'',
                rid = rpid, inarg = 0, timestamp = ms, rspcode = c, rspdesc = d,
                trans = ''no transparent''\<rparr>
         }
       | _ \<Rightarrow> ret (Inr (- 1)))"

subsection \<open>Starting, callbacks, ending\<close>

definition rmInitMidwareClient ::
  "environment \<Rightarrow> string pointer \<Rightarrow> string pointer \<Rightarrow> u16 \<Rightarrow> string pointer \<Rightarrow> string pointer \<Rightarrow> bool
     \<Rightarrow> i32 result op" where
  "rmInitMidwareClient env modName serverIp serverPort userName passWord svrmod =
     (case (modName, serverIp, userName, passWord) of
        (Some m, Some h, Some u, Some p) \<Rightarrow>
          on_ok (getInstance env p2ptype) (\<lambda>_. do {
            rslt \<leftarrow> rabbitmq_init env h (ucast serverPort) u p m;
            if rslt then ret (Inr 0) else ret (Inr (- 1))
          })
      | _ \<Rightarrow> ret (Inr (- 1)))"

definition rmSetMidMsgHandler :: "environment \<Rightarrow> MID_CLIENT_HANDLER pointer \<Rightarrow> i32 result op" where
  "rmSetMidMsgHandler env pfn =
     on_ok (getInstance env p2ptype) (\<lambda>_.
       case pfn of
         NULL \<Rightarrow> ret (Inl Null_dereference)
       | Some handle \<Rightarrow> do { p2pSetCallback handle; ret (Inr 0) })"

definition MidwareClientDestroy :: "environment \<Rightarrow> unit result op" where
  "MidwareClientDestroy env =
     on_ok (getInstance env p2ptype) (\<lambda>_. do { rabbitmq_free; ret (Inr ()) })"

subsection \<open>Receiving\<close>

text \<open>
  The branch for final responses behind the look-up of the task, which has released \<open>timer_mutex\<close>.
\<close>

definition final_response ::
  "(callback_call \<Rightarrow> unit op) \<Rightarrow> function_id \<Rightarrow> int_props_st \<Rightarrow> string \<Rightarrow> TimerTask pointer \<Rightarrow> unit result op" where
  "final_response call f intprops msg info =
     (case info of
        Some task \<Rightarrow> do {
          only_if (msgtype (task_props task) = RB_REQUEST)
            (call (CB_RESP_FINAL f ''RMQ-BUS'' (c_str (receiver (task_props task)))
              (c_str (msgname (task_props task))) (rid intprops) (c_str (rspcode intprops))
              (c_str (rspdesc intprops)) (c_str msg) (inarg (task_props task))));
          p2pRemoveTimerTask (rid intprops);
          ret (Inr ())
        }
      | NULL \<Rightarrow> do {
          log (''finalrsp can not get timer task info,id: '' @ to_string (sint (rid intprops)));
          ret (Inr ())
        })"

text \<open>
  \<open>p2pHandleMessage\<close>: one branch per kind of message with a callback of its own; a kind whose callback
  is not set, and every other kind, is dropped. The routing key is not used.
\<close>

definition p2pHandleMessage ::
  "(callback_call \<Rightarrow> unit op) \<Rightarrow> environment \<Rightarrow> string \<Rightarrow> string \<Rightarrow> int_props_st \<Rightarrow> unit result op" where
  "p2pHandleMessage call env routing msg intprops = do {
     s \<leftarrow> State_Monad.get;
     let h = stClientCBHandle s;
     case (msgtype intprops, m_cbRequest h, m_cbNotify h, m_cbReport h, m_cbRespTemp h, m_cbRespFinal h) of
       (RB_REQUEST, Some f, _) \<Rightarrow> do {
         call (CB_REQUEST f ''RMQ-BUS'' (c_str (sender intprops)) (c_str (msgname intprops))
           (rid intprops) (c_str msg) (inarg intprops));
         ret (Inr ())
       }
     | (RB_NOTIFICATION, _, Some f, _) \<Rightarrow> do {
         call (CB_NOTIFY f ''RMQ-BUS'' (c_str (sender intprops)) (c_str (msgname intprops))
           (c_str msg));
         on_ok (rmRequestFinalResponse env (Some (c_str (sender intprops))) (rid intprops)
             (Some ''200'') (Some ''Auto Rsp Ok'') (Some ''{}''))
           (\<lambda>_. ret (Inr ()))
       }
     | (RB_REPORT, _, _, Some f, _) \<Rightarrow> do {
         call (CB_REPORT f ''RMQ-BUS'' (c_str (sender intprops)) (c_str (msgname intprops))
           (c_str msg));
         ret (Inr ())
       }
     | (RB_TEMPORARY_RESPONSE, _, _, _, Some f, _) \<Rightarrow> do {
         info \<leftarrow> p2pGetTimerTaskInfo (rid intprops);
         case info of
           Some task \<Rightarrow> do {
             call (CB_RESP_TEMP f ''RMQ-BUS'' (c_str (receiver (task_props task)))
               (c_str (msgname (task_props task))) (rid intprops) (c_str (rspcode intprops))
               (c_str (rspdesc intprops)) (c_str msg) (inarg (task_props task)));
             p2pRestartTimerTask env (rid intprops);
             ret (Inr ())
           }
         | NULL \<Rightarrow> do {
             log (''tmprsp can not get timer task info,id: '' @ to_string (sint (rid intprops)));
             ret (Inr ())
           }
       }
     | (RB_FINAL_RESPONSE, _, _, _, _, Some f) \<Rightarrow> do {
         info \<leftarrow> p2pGetTimerTaskInfo (rid intprops);
         final_response call f intprops msg info
       }
     | _ \<Rightarrow> ret (Inr ())
   }"

subsection \<open>Runs\<close>

lemma rm_properties_ok:
  "rm_properties env p = Inr ((text_plain env)\<lparr>
     flags := AMQP_BASIC_CONTENT_TYPE_FLAG OR AMQP_BASIC_HEADERS_FLAG,
     headers := Amqp_table 10 (prop_entries (cstring_bytes env) p)\<rparr>)"
  using encode_fills_slots [of "local_table env" "cstring_bytes env" p]
  by (simp add: rm_properties_def length_local_table)

text \<open>A client that the interface runs on, and its history behind the \<open>getInstance\<close> of a call.\<close>

definition p2p_client :: "RabbitMQWrapper \<Rightarrow> bool" where
  "p2p_client s \<longleftrightarrow> instance_set s \<and> instanceType s = p2ptype \<and> exchange_type s = p2ptype"

definition entered :: "RabbitMQWrapper \<Rightarrow> RabbitMQWrapper" where
  "entered s = s\<lparr>trace := trace s @ [Lock instanceMutex, Unlock instanceMutex]\<rparr>"

lemma entered_fields [simp]:
  "exchange_type (entered s) = exchange_type s" "connection (entered s) = connection s"
  "m_module_name (entered s) = m_module_name s" "m_next_timer_id (entered s) = m_next_timer_id s"
  "timer_tasks (entered s) = timer_tasks s" "stClientCBHandle (entered s) = stClientCBHandle s"
  "trace (entered s) = trace s @ [Lock instanceMutex, Unlock instanceMutex]"
  "p2p_client (entered s) = p2p_client s"
  "instance_set (entered s) = instance_set s" "instanceType (entered s) = instanceType s"
  by (simp_all add: entered_def p2p_client_def)

lemma run_instance [simp]:
  "p2p_client s \<Longrightarrow> run_state (getInstance env p2ptype) s = (Inr (), entered s)"
  by (simp add: getInstance_set p2p_client_def entered_def)

lemma p2p_client_type [simp]: "p2p_client s \<Longrightarrow> exchange_type s = p2ptype"
  by (simp add: p2p_client_def)

text \<open>The message of a request or notification, and the one of a send without a timer.\<close>

definition clock_ms :: "environment \<Rightarrow> RabbitMQWrapper \<Rightarrow> i64" where
  "clock_ms env s = result_of (timestamp_ms env) s"

lemma run_timestamp: "run_state (timestamp_ms env) s =
    (clock_ms env s, s\<lparr>trace := trace s @ [Read_clock]\<rparr>)"
  using state_after_timestamp [of env s] by (simp add: clock_ms_def prod_eq_iff)

definition header_props :: "environment \<Rightarrow> int_props_st \<Rightarrow> amqp_basic_properties_t" where
  "header_props env p = (text_plain env)\<lparr>
     flags := AMQP_BASIC_CONTENT_TYPE_FLAG OR AMQP_BASIC_HEADERS_FLAG,
     headers := Amqp_table 10 (prop_entries (cstring_bytes env) p)\<rparr>"

definition call_props ::
  "environment \<Rightarrow> message_type_t \<Rightarrow> RabbitMQWrapper \<Rightarrow> string \<Rightarrow> string \<Rightarrow> address \<Rightarrow> int_props_st" where
  "call_props env type s m n a =
     \<lparr>sender = m_module_name s, receiver = m, msgtype = type, msgname = n, rid = m_next_timer_id s,
      inarg = a,
      timestamp = clock_ms env (s\<lparr>m_next_timer_id := m_next_timer_id s + 1,
        trace := trace s @ [Lock timer_mutex, Unlock timer_mutex]\<rparr>),
      rspcode = ''no code'', rspdesc = ''no description'', trans = ''no transparent''\<rparr>"

text \<open>The client when the message of a call is about to be sent.\<close>

definition call_task ::
  "environment \<Rightarrow> message_type_t \<Rightarrow> RabbitMQWrapper \<Rightarrow> string \<Rightarrow> string \<Rightarrow> address \<Rightarrow> string \<Rightarrow> i32 \<Rightarrow> TimerTask" where
  "call_task env type s m n a b timeout =
     new_TimerTask
       (steady_now env (trace s @ [Lock timer_mutex, Unlock timer_mutex, Read_clock, Lock timer_mutex, Read_clock]))
       (m_next_timer_id s) m b (i32_div timeout 1000) (call_props env type s m n a)"

definition call_ready ::
  "environment \<Rightarrow> message_type_t \<Rightarrow> RabbitMQWrapper \<Rightarrow> string \<Rightarrow> string \<Rightarrow> address \<Rightarrow> string \<Rightarrow> i32
     \<Rightarrow> RabbitMQWrapper" where
  "call_ready env type s m n a b timeout =
     s\<lparr>m_next_timer_id := m_next_timer_id s + 1,
       timer_tasks := push_task (call_task env type s m n a b timeout) (timer_tasks s),
       trace := trace s @ [Lock timer_mutex, Unlock timer_mutex, Read_clock, Lock timer_mutex,
         Read_clock, Unlock timer_mutex]\<rparr>"

lemma run_make_call:
  assumes "exchange_type s = p2ptype"
  shows "run_state (make_call env type m n a b rpid timeout) s =
    (let u = call_ready env type s m n a b timeout; i = m_next_timer_id s;
         props = header_props env (call_props env type s m n a);
         (ok, t) = run_state (SendRabbitmqMessage env m b (Some props)) u
     in if rpid = NULL then (Inl Null_dereference, u)
        else if ok then (Inr (0, Some i), t)
        else (Inr (- 1, Some i), state_after (p2pRemoveTimerTask i) t))"
  using assms
  by (simp add: make_call_def run_req_id run_add_task GetModuleName_def run_timestamp rm_properties_ok
      call_props_def call_task_def call_ready_def header_props_def Let_def split_beta)

section \<open>Properties of the point-to-point interface\<close>

lemma send_frame:
  "\<exists>evs. state_after (SendRabbitmqMessage env k msg (Some props)) s = s\<lparr>trace := trace s @ evs\<rparr> \<and>
    called evs = []"
proof (cases "k = '''' \<or> connection s = None")
  case True
  then show ?thesis by (intro exI [of _ "[]"]) (simp add: run_send_refused)
next
  case False
  let ?h = "[Lock conn_mutex, publish_event env s k msg props, Library (Amqp_get_rpc_reply (connection s))]"
  show ?thesis
    using False
    by (intro exI [of _ "?h @ publish_tail (last_reply env (publish_history env s k msg props))"])
      (simp add: run_send Let_def publish_history_def publish_tail_def publish_event_def)
qed

text \<open>Whether a message with this key would be reported as sent.\<close>

definition send_ok :: "environment \<Rightarrow> string \<Rightarrow> string \<Rightarrow> amqp_basic_properties_t \<Rightarrow> RabbitMQWrapper \<Rightarrow> bool" where
  "send_ok env k msg props s \<longleftrightarrow> k \<noteq> '''' \<and> connection s \<noteq> None \<and>
     reply_type (last_reply env (publish_history env s k msg props)) = AMQP_RESPONSE_NORMAL"

lemma send_result: "result_of (SendRabbitmqMessage env k msg (Some props)) s = send_ok env k msg props s"
  by (cases "k = '''' \<or> connection s = None") (auto simp: send_ok_def run_send run_send_refused Let_def)

lemma find_task_undo:
  "find_task ts (task_id x) = None \<Longrightarrow> drop_task (task_id x) (push_task x ts) = ts"
  by (induction ts) (auto simp: push_task_def drop_task_def split: if_splits)

lemma call_task_id [simp]: "task_id (call_task env type s m n a b timeout) = m_next_timer_id s"
  by (simp add: call_task_def new_TimerTask_def)

lemma call_ready_fields [simp]:
  "m_next_timer_id (call_ready env type s m n a b timeout) = m_next_timer_id s + 1"
  "timer_tasks (call_ready env type s m n a b timeout) =
     push_task (call_task env type s m n a b timeout) (timer_tasks s)"
  "exchange_type (call_ready env type s m n a b timeout) = exchange_type s"
  "stClientCBHandle (call_ready env type s m n a b timeout) = stClientCBHandle s"
  "connection (call_ready env type s m n a b timeout) = connection s"
  "p2p_client (call_ready env type s m n a b timeout) = p2p_client s"
  "called (trace (call_ready env type s m n a b timeout)) = called (trace s)"
  by (simp_all add: call_ready_def p2p_client_def)

text \<open>What a request or notification with proper arguments leaves behind.\<close>

lemma make_call_outcome:
  assumes "exchange_type s = p2ptype" "find_task (timer_tasks s) (m_next_timer_id s) = None"
    and "run_state (make_call env type m n a b (Some ()) timeout) s = (r, t)"
    and "ok = send_ok env m b (header_props env (call_props env type s m n a))
      (call_ready env type s m n a b timeout)"
  shows "r = Inr (if ok then 0 else - 1, Some (m_next_timer_id s)) \<and>
    (\<exists>evs. called evs = [] \<and>
      t = s\<lparr>m_next_timer_id := m_next_timer_id s + 1,
        timer_tasks := (if ok then push_task (call_task env type s m n a b timeout) (timer_tasks s)
          else timer_tasks s),
        trace := trace s @ evs\<rparr>)"
proof -
  let ?u = "call_ready env type s m n a b timeout"
  let ?send = "SendRabbitmqMessage env m b (Some (header_props env (call_props env type s m n a)))"
  obtain evs where evs: "state_after ?send ?u = ?u\<lparr>trace := trace ?u @ evs\<rparr>" "called evs = []"
    using send_frame by blast
  have undo: "drop_task (m_next_timer_id s) (push_task (call_task env type s m n a b timeout) (timer_tasks s)) =
      timer_tasks s"
    using find_task_undo [of "timer_tasks s" "call_task env type s m n a b timeout"] assms(2) by simp
  have "run_state ?send ?u = (ok, ?u\<lparr>trace := trace ?u @ evs\<rparr>)"
    using evs(1) send_result assms(4) by (simp add: prod_eq_iff)
  then have run: "run_state (make_call env type m n a b (Some ()) timeout) s =
      (if ok then (Inr (0, Some (m_next_timer_id s)), ?u\<lparr>trace := trace ?u @ evs\<rparr>)
       else (Inr (- 1, Some (m_next_timer_id s)), ?u\<lparr>timer_tasks := timer_tasks s,
         trace := trace ?u @ evs @ [Lock timer_mutex, Unlock timer_mutex]\<rparr>))"
    by (simp add: run_make_call [OF assms(1)] run_remove_task assms(1) undo Let_def)
  obtain pre where pre: "?u = s\<lparr>m_next_timer_id := m_next_timer_id s + 1,
      timer_tasks := push_task (call_task env type s m n a b timeout) (timer_tasks s),
      trace := trace s @ pre\<rparr>" "called pre = []"
    by (simp add: call_ready_def)
  show ?thesis
  proof (cases ok)
    case True
    then show ?thesis
      using run assms(3) pre(2) evs(2) by (auto simp: pre(1) intro!: exI [of _ "pre @ evs"])
  next
    case False
    then show ?thesis
      using run assms(3) pre(2) evs(2)
      by (auto simp: pre(1) intro!: exI [of _ "pre @ evs @ [Lock timer_mutex, Unlock timer_mutex]"])
  qed
qed

text \<open>
  C23: A request or notification with proper arguments stores the id counted up from the last one in the
  caller's variable and adds a task with the message's properties under it; it returns 0 exactly when
  the message counts as sent, and otherwise -1 with the task taken back, all other tasks unchanged.
\<close>

theorem call_registers_task:
  assumes "(type, rm_call) \<in> {(RB_REQUEST, rmRequestMake), (RB_NOTIFICATION, rmNotifyMake)}"
    and "p2p_client s" and "ids_differ (timer_tasks s)"
    and "find_task (timer_tasks s) (m_next_timer_id s) = None"
    and "run_state (rm_call env (Some m) (Some n) a (Some b) (Some ()) timeout) s = (r, t)"
    and "i = m_next_timer_id s"
  shows "if send_ok env m b (header_props env (call_props env type (entered s) m n a))
        (call_ready env type (entered s) m n a b timeout)
    then r = Inr (0, Some i) \<and> m_next_timer_id t = i + 1 \<and> ids_differ (timer_tasks t) \<and>
      find_task (timer_tasks t) =
        (find_task (timer_tasks s))(i \<mapsto> call_task env type (entered s) m n a b timeout)
    else r = Inr (- 1, Some i) \<and> m_next_timer_id t = i + 1 \<and> timer_tasks t = timer_tasks s"
proof -
  have "run_state (make_call env type m n a b (Some ()) timeout) (entered s) = (r, t)"
    using assms(1,2,5) by (auto simp: rmRequestMake_def rmNotifyMake_def)
  note out = make_call_outcome [OF _ _ this refl]
  have task: "find_task (timer_tasks s) (task_id (call_task env type (entered s) m n a b timeout)) = None"
    using assms(4) by simp
  show ?thesis
    using out assms(2,4,6) timers.task_of_add [OF assms(3) task] timers.valid_add [OF assms(3) task] by auto
qed

theorem call_registers_task_witness:
  "\<exists>t. run_state (rmRequestMake sample_env (Some ''peer'') (Some ''ping'') 0 (Some ''{}'') (Some ()) 5000)
    (sample_client p2ptype) = (Inr (0, Some 0), t) \<and> find_task (timer_tasks t) 0 \<noteq> None"
proof -
  let ?s = "sample_client p2ptype"
  obtain r t where t: "run_state (rmRequestMake sample_env (Some ''peer'') (Some ''ping'') 0 (Some ''{}'')
      (Some ()) 5000) ?s = (r, t)" by fastforce
  have "r = Inr (0, Some 0) \<and> find_task (timer_tasks t) 0 \<noteq> None"
    using call_registers_task [where type = RB_REQUEST and rm_call = rmRequestMake, OF _ _ _ _ t refl]
    by (simp add: p2p_client_def ids_differ_def send_ok_def)
  with t show ?thesis by blast
qed


text \<open>
  C37: A call that lacks one of the arguments it checks returns -1 and does nothing else. Two pointers
  are not checked: a \<open>NULL\<close> \<open>rpid\<close> is dereferenced after the task has been added, which therefore stays
  behind, and a \<open>NULL\<close> description of a response is made into a string.
\<close>

theorem arguments_checked:
  assumes "p2p_client s"
  shows "(modName = NULL \<or> msgName = NULL \<or> msgBody = NULL \<longrightarrow>
      run_state (rmRequestMake env modName msgName a msgBody rpid timeout) s = (Inr (- 1, None), entered s) \<and>
      run_state (rmNotifyMake env modName msgName a msgBody rpid timeout) s = (Inr (- 1, None), entered s) \<and>
      run_state (rmReportMake env modName msgName msgBody) s = (Inr (- 1), entered s)) \<and>
    (modName = NULL \<or> respCode = NULL \<or> msgBody = NULL \<longrightarrow>
      run_state (rmRequestTempResponse env modName i respCode descr msgBody) s = (Inr (- 1), entered s) \<and>
      run_state (rmRequestFinalResponse env modName i respCode descr msgBody) s = (Inr (- 1), entered s)) \<and>
    run_state (rmRequestMake env (Some m) (Some n) a (Some b) NULL timeout) s =
      (Inl Null_dereference, call_ready env RB_REQUEST (entered s) m n a b timeout) \<and>
    run_state (rmNotifyMake env (Some m) (Some n) a (Some b) NULL timeout) s =
      (Inl Null_dereference, call_ready env RB_NOTIFICATION (entered s) m n a b timeout) \<and>
    result_of (rmRequestTempResponse env (Some m) i (Some c) NULL (Some b)) s = Inl String_from_null \<and>
    result_of (rmRequestFinalResponse env (Some m) i (Some c) NULL (Some b)) s = Inl String_from_null"
proof -
  note defs = rmRequestMake_def rmNotifyMake_def rmReportMake_def rmRequestTempResponse_def
    rmRequestFinalResponse_def
  have "modName = NULL \<or> msgName = NULL \<or> msgBody = NULL \<longrightarrow>
      run_state (rmRequestMake env modName msgName a msgBody rpid timeout) s = (Inr (- 1, None), entered s) \<and>
      run_state (rmNotifyMake env modName msgName a msgBody rpid timeout) s = (Inr (- 1, None), entered s) \<and>
      run_state (rmReportMake env modName msgName msgBody) s = (Inr (- 1), entered s)"
    by (cases modName; cases msgName; cases msgBody) (simp_all add: defs assms)
  moreover have "modName = NULL \<or> respCode = NULL \<or> msgBody = NULL \<longrightarrow>
      run_state (rmRequestTempResponse env modName i respCode descr msgBody) s = (Inr (- 1), entered s) \<and>
      run_state (rmRequestFinalResponse env modName i respCode descr msgBody) s = (Inr (- 1), entered s)"
    by (cases modName; cases respCode; cases msgBody) (simp_all add: defs assms)
  ultimately show ?thesis
    using assms by (simp add: defs run_make_call Let_def split_beta GetModuleName_def run_timestamp)
qed

theorem arguments_checked_witness:
  "run_state (rmRequestMake sample_env NULL (Some ''ping'') 0 (Some ''{}'') (Some ()) 5000)
    (sample_client p2ptype) = (Inr (- 1, None), entered (sample_client p2ptype)) \<and>
   result_of (rmRequestFinalResponse sample_env (Some ''peer'') 3 (Some ''200'') NULL (Some ''{}''))
    (sample_client p2ptype) = Inl String_from_null"
  using arguments_checked [of "sample_client p2ptype" NULL "Some ''ping''" "Some ''{}''" sample_env 0
      "Some ()" 5000 "Some ''200''" 3 NULL "''peer''" "''ping''" "''{}''" "''200''"]
  by (simp add: p2p_client_def)

subsection \<open>Responses\<close>

definition final_call :: "function_id \<Rightarrow> TimerTask \<Rightarrow> int_props_st \<Rightarrow> string \<Rightarrow> callback_call" where
  "final_call f task p msg =
     CB_RESP_FINAL f ''RMQ-BUS'' (c_str (receiver (task_props task))) (c_str (msgname (task_props task)))
       (rid p) (c_str (rspcode p)) (c_str (rspdesc p)) (c_str msg) (inarg (task_props task))"

lemma run_final_response:
  assumes "exchange_type s = p2ptype" "m_cbRespFinal (stClientCBHandle s) = Some f"
    and "msgtype p = RB_FINAL_RESPONSE"
  shows "run_state (p2pHandleMessage silent env k msg p) s = (Inr (),
    case find_task (timer_tasks s) (rid p) of
      None \<Rightarrow> s\<lparr>trace := trace s @ [Lock timer_mutex, Unlock timer_mutex,
        Logged (''finalrsp can not get timer task info,id: '' @ to_string (sint (rid p)))]\<rparr>
    | Some task \<Rightarrow> s\<lparr>timer_tasks := drop_task (rid p) (timer_tasks s),
        trace := trace s @ [Lock timer_mutex, Unlock timer_mutex] @
          (if msgtype (task_props task) = RB_REQUEST then [Called (final_call f task p msg)] else []) @
          [Lock timer_mutex, Unlock timer_mutex]\<rparr>)"
  using assms
  by (simp add: p2pHandleMessage_def final_response_def Let_def run_get_task run_remove_task final_call_def
      split: option.splits)

text \<open>
  The final response to a pending request calls the client's callback once, with the receiver, the
  message name and the caller's argument of the request and the response's code, description and body;
  the request is then no longer pending, so that a second response to it only leads to a log entry. The
  other pending requests stay.
\<close>

lemma final_response_completes_request:
  assumes "p2p_client s" and "ids_differ (timer_tasks s)"
    and "m_cbRespFinal (stClientCBHandle s) = Some f"
    and "find_task (timer_tasks s) i = Some task" and "msgtype (task_props task) = RB_REQUEST"
    and "msgtype p = RB_FINAL_RESPONSE" and "rid p = i"
    and "msgtype p' = RB_FINAL_RESPONSE" and "rid p' = i"
    and "t = state_after (p2pHandleMessage silent env k msg p) s"
    and "u = state_after (p2pHandleMessage silent env' k' msg' p') t"
  shows "called (trace t) = called (trace s) @ [final_call f task p msg] \<and>
    find_task (timer_tasks t) = (find_task (timer_tasks s))(i := None) \<and>
    u = t\<lparr>trace := trace t @ [Lock timer_mutex, Unlock timer_mutex,
      Logged (''finalrsp can not get timer task info,id: '' @ to_string (sint i))]\<rparr>"
proof -
  have t: "t = s\<lparr>timer_tasks := drop_task i (timer_tasks s), trace := trace s @
      [Lock timer_mutex, Unlock timer_mutex, Called (final_call f task p msg), Lock timer_mutex,
       Unlock timer_mutex]\<rparr>"
    using assms(1,3-7) by (simp add: assms(10) run_final_response)
  have "find_task (timer_tasks t) = (find_task (timer_tasks s))(i := None)"
    by (simp add: t timers.task_of_remove [OF assms(2)])
  moreover from this have "u = t\<lparr>trace := trace t @ [Lock timer_mutex, Unlock timer_mutex,
      Logged (''finalrsp can not get timer task info,id: '' @ to_string (sint i))]\<rparr>"
    using assms(1,3,8,9) by (simp add: assms(11) run_final_response t)
  ultimately show ?thesis by (simp add: t)
qed

definition final_props :: "i32 \<Rightarrow> int_props_st" where
  "final_props i = sample_props\<lparr>msgtype := RB_FINAL_RESPONSE, rid := i\<rparr>"

definition temp_call :: "function_id \<Rightarrow> TimerTask \<Rightarrow> int_props_st \<Rightarrow> string \<Rightarrow> callback_call" where
  "temp_call f task p msg =
     CB_RESP_TEMP f ''RMQ-BUS'' (c_str (receiver (task_props task))) (c_str (msgname (task_props task)))
       (rid p) (c_str (rspcode p)) (c_str (rspdesc p)) (c_str msg) (inarg (task_props task))"

lemma run_temp_response:
  assumes "exchange_type s = p2ptype" "m_cbRespTemp (stClientCBHandle s) = Some f"
    and "msgtype p = RB_TEMPORARY_RESPONSE"
  shows "run_state (p2pHandleMessage silent env k msg p) s = (Inr (),
    case find_task (timer_tasks s) (rid p) of
      None \<Rightarrow> s\<lparr>trace := trace s @ [Lock timer_mutex, Unlock timer_mutex,
        Logged (''tmprsp can not get timer task info,id: '' @ to_string (sint (rid p)))]\<rparr>
    | Some task \<Rightarrow> (let pre = [Lock timer_mutex, Unlock timer_mutex, Called (temp_call f task p msg),
          Lock timer_mutex, Read_clock] in
        s\<lparr>timer_tasks := alter_task (rid p)
            (\<lambda>task. task\<lparr>expire_time := expiry (steady_now env (trace s @ pre)) (task_interval task)\<rparr>)
            (timer_tasks s),
          trace := trace s @ pre @ [Unlock timer_mutex]\<rparr>))"
  using assms
  by (simp add: p2pHandleMessage_def Let_def run_get_task run_restart_task temp_call_def split: option.splits)

text \<open>
  A temporary response to a pending request calls the callback for temporary responses and gives
  the request its whole time again: it stays pending with a new expiry, one interval after the time
  read, and nothing else of it changes; a response to no pending request only leads to a log entry.
\<close>

lemma temp_response_restarts_timer:
  assumes "p2p_client s" and "ids_differ (timer_tasks s)"
    and "m_cbRespTemp (stClientCBHandle s) = Some f"
    and "msgtype p = RB_TEMPORARY_RESPONSE"
    and "t = state_after (p2pHandleMessage silent env k msg p) s"
  shows "case find_task (timer_tasks s) (rid p) of
      None \<Rightarrow> called (trace t) = called (trace s) \<and> timer_tasks t = timer_tasks s
    | Some task \<Rightarrow>
        called (trace t) = called (trace s) @ [temp_call f task p msg] \<and>
        (\<exists>h. find_task (timer_tasks t) = (find_task (timer_tasks s))(rid p \<mapsto>
          task\<lparr>expire_time := expiry (steady_now env h) (task_interval task)\<rparr>))"
  using assms(1,3,4)
  by (auto simp: assms(5) run_temp_response Let_def timers.task_of_alter [OF assms(2)] split: option.splits)

text \<open>
  C30: A client without a callback for final responses drops them although they answer its calls: the
  state stays as it was, the call remains pending, and once its time has come the timer reports the
  answered call as timed out. A notification is answered by its receiver without the user's doing, so
  this also happens to a client that only sends notifications.
\<close>

theorem unset_callback_makes_timeout:
  assumes "p2p_client s" and "ids_differ (timer_tasks s)"
    and "m_cbRespFinal (stClientCBHandle s) = NULL"
    and "msgtype p = RB_FINAL_RESPONSE" and "find_task (timer_tasks s) (rid p) = Some task"
    and "t = state_after (p2pHandleMessage silent env k msg p) s"
    and "expire_time task \<le> steady_now env' (trace t @ [Lock timer_mutex, Read_clock])"
  shows "t = s \<and>
    set (timeout_calls (stClientCBHandle s) task) \<subseteq> set (called (trace (state_after (timer_round silent env') t))) \<and>
    find_task (timer_tasks (state_after (timer_round silent env') t)) (rid p) = None"
proof -
  have t: "t = s" using assms(3,4) by (simp add: assms(6) p2pHandleMessage_def Let_def)
  have "task \<in> set (timer_tasks s)"
    using assms(5) by (rule find_task_in)
  moreover have "expired (steady_now env' (trace s @ [Lock timer_mutex, Read_clock])) task"
    using assms(7) t by (simp add: expired_def)
  moreover note run = run_timer_round [OF p2p_client_type [OF assms(1)] assms(2) refl, of env']
  ultimately have "Called c \<in> set (trace (state_after (timer_round silent env') s))"
    if "c \<in> set (timeout_calls (stClientCBHandle s) task)" for c
    using that by (force simp: timeout_events_def)
  moreover have "c \<in> set (called h)" if "Called c \<in> set h" for c h
    using that by (induction h rule: called.induct) auto
  moreover have "find_task (timer_tasks (state_after (timer_round silent env') s)) (rid p) = None"
    unfolding find_task_None using run assms(2,5) \<open>expired _ task\<close> \<open>task \<in> _\<close> find_task_id [OF assms(5)]
    by (auto simp: ids_differ_def dest: distinct_map_inj_on_set)
  ultimately show ?thesis using t by blast
qed

theorem unset_callback_makes_timeout_witness:
  "CB_REQUEST_TIMEOUT 2 ''RMQ-BUS'' ''receiver'' ''test'' 123 0 \<in> set (called (trace (state_after
     (timer_round silent sample_env) (state_after (p2pHandleMessage silent sample_env ''k'' ''done'' (final_props 7))
     (sample_client p2ptype\<lparr>timer_tasks := [sample_task 7 1],
       stClientCBHandle := full_handler\<lparr>m_cbRespFinal := NULL\<rparr>\<rparr>)))))"
proof -
  let ?s = "sample_client p2ptype\<lparr>timer_tasks := [sample_task 7 1],
       stClientCBHandle := full_handler\<lparr>m_cbRespFinal := NULL\<rparr>\<rparr>"
  have "CB_REQUEST_TIMEOUT 2 ''RMQ-BUS'' ''receiver'' ''test'' 123 0 \<in>
      set (timeout_calls (stClientCBHandle ?s) (sample_task 7 1))"
    by (simp add: timeout_calls_def full_handler_def sample_task_def sample_props_def)
  moreover have "set (timeout_calls (stClientCBHandle ?s) (sample_task 7 1)) \<subseteq> set (called (trace (state_after
      (timer_round silent sample_env) (state_after (p2pHandleMessage silent sample_env ''k'' ''done'' (final_props 7)) ?s))))"
    by (rule conjunct1 [OF conjunct2 [OF unset_callback_makes_timeout [OF _ _ _ _ _ refl]]])
      (simp_all add: p2p_client_def ids_differ_def sample_task_def final_props_def)
  ultimately show ?thesis by blast
qed

text \<open>
  The timeout of a call counts in whole seconds from the creation of its task. So a timeout of less
  than one second, and every negative one, is over at once: the next round of the timer, at a time not
  before the creation, removes the task.
\<close>

lemma call_timeout_in_seconds:
  fixes timeout :: i32
  assumes "created = steady_now env (trace s @ [Lock timer_mutex, Unlock timer_mutex, Read_clock,
      Lock timer_mutex, Read_clock])"
    and "task = call_task env type s m n a b timeout"
  shows "expire_time task = created + (sint timeout sdiv 1000) * 1000000000 \<and>
    (\<forall>t. sint timeout < 1000 \<and> created \<le> t \<longrightarrow> expired t task)"
proof -
  have le: "sint timeout < 2 ^ 31" "- (2 ^ 31) \<le> sint timeout"
    using sint_lt [of timeout] sint_ge [of timeout] by simp_all
  have "sint timeout sdiv 1000 < 2 ^ 31 \<and> - (2 ^ 31) \<le> sint timeout sdiv 1000 \<and>
      (sint timeout < 1000 \<longrightarrow> sint timeout sdiv 1000 \<le> 0)"
    using le by (auto simp: signed_divide_int_def sgn_if)
  then have "sint (i32_div timeout 1000) = sint timeout sdiv 1000 \<and>
      (sint timeout < 1000 \<longrightarrow> sint timeout sdiv 1000 \<le> 0)"
    by (simp add: i32_div_def sint_sbintrunc' signed_take_bit_int_eq_self)
  then show ?thesis
    unfolding assms by (auto simp: call_task_def new_TimerTask_def expiry_def expired_def mult_nonpos_nonneg)
qed

end
