(* ===== verification/Op_Relation.thy ===== *)
theory Op_Relation
  imports Client_State
begin

section \<open>Relations between the states before and after an operation\<close>

text \<open>
  Many facts about an operation say that the states before and after it stand in a relation that is
  reflexive and transitive: it keeps some fields, it adds only events of some kind. Such a fact about
  an operation follows from the same fact about its parts. The locale states the rules once; every
  relation used in the development is an interpretation.
\<close>

definition along :: "(RabbitMQWrapper \<Rightarrow> RabbitMQWrapper \<Rightarrow> bool) \<Rightarrow> 'a op \<Rightarrow> bool" where
  "along R m \<longleftrightarrow> (\<forall>s. R s (state_after m s))"

lemma alongD: "along R m \<Longrightarrow> R s (state_after m s)"
  by (simp add: along_def)

lemma alongI: "(\<And>s. R s (state_after m s)) \<Longrightarrow> along R m"
  by (simp add: along_def)

lemma along_mono: "along R m \<Longrightarrow> (\<And>s t. R s t \<Longrightarrow> Q s t) \<Longrightarrow> along Q m"
  by (simp add: along_def)

locale op_relation =
  fixes R :: "RabbitMQWrapper \<Rightarrow> RabbitMQWrapper \<Rightarrow> bool"
  assumes rel_refl: "R s s"
    and rel_trans: "R s t \<Longrightarrow> R t u \<Longrightarrow> R s u"
begin

lemma along_return: "along R (ret x)"
  by (simp add: along_def rel_refl)

lemma along_get: "along R State_Monad.get"
  by (simp add: along_def rel_refl)

lemma along_bind:
  assumes "along R f" "\<And>x. along R (g x)"
  shows "along R (State_Monad.bind f g)"
proof (rule alongI)
  fix s
  have "R s (state_after f s)" "R (state_after f s) (state_after (g (result_of f s)) (state_after f s))"
    using assms alongD by blast+
  then show "R s (state_after (State_Monad.bind f g) s)"
    using rel_trans by (simp add: split_beta)
qed

lemma along_if: "along R f \<Longrightarrow> along R g \<Longrightarrow> along R (if b then f else g)"
  by simp

lemma along_Let: "(\<And>x. along R (f x)) \<Longrightarrow> along R (let x = e in f x)"
  by simp

lemma along_option:
  "along R f \<Longrightarrow> (\<And>y. along R (g y)) \<Longrightarrow> along R (case x of None \<Rightarrow> f | Some y \<Rightarrow> g y)"
  by (cases x) simp_all

lemma along_sum:
  "(\<And>a. along R (f a)) \<Longrightarrow> (\<And>b. along R (g b)) \<Longrightarrow> along R (case x of Inl a \<Rightarrow> f a | Inr b \<Rightarrow> g b)"
  by (cases x) simp_all

lemma along_prod: "(\<And>x y. along R (f x y)) \<Longrightarrow> along R (case p of (x, y) \<Rightarrow> f x y)"
  by (cases p) simp

lemma along_type:
  "along R a \<Longrightarrow> along R b \<Longrightarrow> along R c \<Longrightarrow> (\<And>i. along R (d i)) \<Longrightarrow>
    along R (case t of p2ptype \<Rightarrow> a | topictype \<Rightarrow> b | broadcasttype \<Rightarrow> c | Unlisted_exchange_type i \<Rightarrow> d i)"
  by (cases t) simp_all

lemma along_on_ok: "along R f \<Longrightarrow> (\<And>x. along R (g x)) \<Longrightarrow> along R (on_ok f g)"
  by (simp add: on_ok_def along_bind along_sum along_return)

lemma along_for_each: "(\<And>x. along R (f x)) \<Longrightarrow> along R (for_each xs f)"
  by (induction xs) (simp_all add: along_return along_bind)

lemmas along_intros = along_return along_get along_bind along_if along_Let along_option along_sum
  along_prod along_type along_on_ok along_for_each

end

text \<open>
  A relation that looks at the history only through the events added to it: the steps of one event
  follow, and the operations made of them. The first locale leaves open which calls of the library are
  \<open>calm\<close>, the second has them all.
\<close>

locale emit_relation = op_relation +
  fixes calm :: "event \<Rightarrow> bool"
  assumes calm_step: "calm e \<Longrightarrow> R s (s\<lparr>trace := trace s @ [e]\<rparr>)"
    and calm_other: "calm (Logged l)" "calm (Printed l)" "calm Read_clock"
      "calm (Slept n)" "calm (Started th)" "calm (Joined th)"
begin

lemma along_emit: "calm e \<Longrightarrow> along R (emit e)"
  by (simp add: along_def calm_step)

lemma along_log: "along R (log l)"
  by (simp add: log_def along_emit calm_other)

lemma along_library: "calm (Library c) \<Longrightarrow> along R (library c)"
  by (simp add: library_def along_emit)

lemma along_ask: "calm (Library c) \<Longrightarrow> along R (ask c answer)"
  by (simp add: ask_def along_library along_intros)

lemma along_rpc: "(\<And>c ch. calm (Library (Amqp_rpc c ch r))) \<Longrightarrow> along R (rpc r)"
  by (simp add: rpc_def along_library along_intros)

lemma along_reply: "(\<And>c. calm (Library (Amqp_get_rpc_reply c))) \<Longrightarrow> along R (amqp_get_rpc_reply env)"
  by (simp add: amqp_get_rpc_reply_def along_ask along_intros)

lemma along_now: "along R (now env)"
  by (simp add: now_def along_emit calm_other along_intros)

lemma along_timestamp: "along R (timestamp_ms env)"
  by (simp add: along_def calm_step calm_other)

lemmas emit_intros = along_log along_library along_ask along_rpc along_reply along_now along_timestamp

end

locale event_relation = emit_relation +
  assumes calm_library: "calm (Library c)"
begin

lemmas event_intros = along_log along_now along_timestamp along_library [OF calm_library]
  along_ask [OF calm_library] along_rpc [OF calm_library] along_reply [OF calm_library]

end

end
