(* ===== verification/Lock_Order.thy ===== *)
theory Lock_Order
  imports Op_Relation Topic_Client P2p
begin

section \<open>The order of the mutexes\<close>

text \<open>
  The client has four mutexes. Every operation takes them in the order \<open>handle_mutex\<close>,
  \<open>timer_mutex\<close>, \<open>instanceMutex\<close>, \<open>conn_mutex\<close> and releases what it takes, so threads that run
  operations cannot wait for each other in a circle. A property of an operation and not of one run:
  it is built up along the code.
\<close>

subsection \<open>Orderly operations\<close>

text \<open>
  What happens from \<open>s\<close> to \<open>t\<close> takes only mutexes of rank \<open>n\<close> or more, in their order, and
  releases them all; a thread holding mutexes of lower rank can do it without waiting for itself.
\<close>

definition tidy :: "nat \<Rightarrow> RabbitMQWrapper \<Rightarrow> RabbitMQWrapper \<Rightarrow> bool" where
  "tidy n s t \<longleftrightarrow> (\<exists>es. trace t = trace s @ es \<and>
     (\<forall>hs. list_all (\<lambda>h. mutex_rank h < n) hs \<longrightarrow> locks hs es = Some hs))"

abbreviation orderly :: "nat \<Rightarrow> 'a op \<Rightarrow> bool" where
  "orderly n \<equiv> along (tidy n)"

named_theorems orderly_intros

lemma tidy_trans:
  assumes "tidy n s t" "tidy n t u"
  shows "tidy n s u"
proof -
  obtain es fs where "trace t = trace s @ es" "trace u = trace t @ fs"
    "\<And>hs. list_all (\<lambda>h. mutex_rank h < n) hs \<Longrightarrow> locks hs es = Some hs"
    "\<And>hs. list_all (\<lambda>h. mutex_rank h < n) hs \<Longrightarrow> locks hs fs = Some hs"
    using assms unfolding tidy_def by blast
  then show ?thesis unfolding tidy_def by (intro exI [of _ "es @ fs"]) (simp add: locks_append)
qed

lemma tidy_mono:
  assumes "tidy n s t" "k \<le> n"
  shows "tidy k s t"
proof -
  have "list_all (\<lambda>h. mutex_rank h < n) hs" if "list_all (\<lambda>h. mutex_rank h < k) hs" for hs
    using that assms(2) by (auto simp: list_all_iff)
  then show ?thesis using assms(1) unfolding tidy_def by blast
qed

lemma tidy_events:
  "trace t = trace s @ es \<Longrightarrow> list_all (\<lambda>e. \<not> is_lock_event e) es \<Longrightarrow> tidy n s t"
  by (auto simp: tidy_def locks_only_skipped)

lemma tidy_same [simp]: "trace t = trace s \<Longrightarrow> tidy n s t"
  using tidy_events [of t s "[]"] by simp

interpretation tidy: event_relation "tidy n" "\<lambda>e. \<not> is_lock_event e" for n
proof unfold_locales
  fix e s
  show "\<not> is_lock_event e \<Longrightarrow> tidy n s (s\<lparr>trace := trace s @ [e]\<rparr>)"
    by (rule tidy_events [where es = "[e]"]) simp_all
qed (auto intro: tidy_trans)

declare tidy.along_intros [orderly_intros] tidy.event_intros [orderly_intros]
  tidy.along_emit [orderly_intros]

lemmas orderlyD = alongD [where R = "tidy n" for n]

lemma orderly_mono: "orderly n m \<Longrightarrow> k \<le> n \<Longrightarrow> orderly k m"
  by (erule along_mono) (rule tidy_mono)

lemma orderly_modify [orderly_intros]: "(\<And>s. trace (f s) = trace s) \<Longrightarrow> orderly n (modify f)"
  by (simp add: along_def)

text \<open>A scope with a lock takes higher mutexes only.\<close>

lemma orderly_locked [orderly_intros]:
  assumes "orderly (Suc (mutex_rank m)) f" "n \<le> mutex_rank m"
  shows "orderly n (locked m f)"
proof (rule orderly_mono [OF _ assms(2)])
  show "orderly (mutex_rank m) (locked m f)"
    unfolding along_def
  proof
    fix s :: RabbitMQWrapper
    let ?s = "s\<lparr>trace := trace s @ [Lock m]\<rparr>"
    obtain es where es: "trace (state_after f ?s) = trace ?s @ es"
      "\<And>hs. list_all (\<lambda>h. mutex_rank h < Suc (mutex_rank m)) hs \<Longrightarrow> locks hs es = Some hs"
      using orderlyD [OF assms(1), of ?s] unfolding tidy_def by blast
    have "locks hs ([Lock m] @ es @ [Unlock m]) = Some hs"
      if "list_all (\<lambda>h. mutex_rank h < mutex_rank m) hs" for hs
    proof -
      have "list_all (\<lambda>h. h < m) hs" "list_all (\<lambda>h. mutex_rank h < Suc (mutex_rank m)) (m # hs)"
        using that by (auto simp: list_all_iff less_mutex_def)
      then show ?thesis using es(2) by (simp add: locks_append)
    qed
    then show "tidy (mutex_rank m) s (state_after (locked m f) s)"
      using es(1) unfolding tidy_def
      by (intro exI [of _ "[Lock m] @ es @ [Unlock m]"]) (simp add: split_beta Let_def)
  qed
qed

subsection \<open>The operations\<close>

text \<open>Sending, the library's helpers and the timer operations.\<close>

lemma orderly_send: "orderly 3 (SendRabbitmqMessage env routing msg inprops)"
  unfolding SendRabbitmqMessage_def check_published_def amqp_basic_publish_def Let_def
  by (intro orderly_intros) simp_all

lemma orderly_send_fanout: "orderly 3 (SendRabbitmqMessage_fanout env msg inprops)"
  unfolding SendRabbitmqMessage_fanout_def check_published_def amqp_basic_publish_def Let_def
  by (intro orderly_intros) simp_all

lemma orderly_topic: "orderly 3 (subscribleTopicMsg env topic callback inst)"
  "orderly 3 (unSubscribleTopicMsg env topic)"
  unfolding subscribleTopicMsg_def unSubscribleTopicMsg_def topicAddBind_def topicRemoveBinding_def
    bind_key_def amqp_queue_bind_def amqp_queue_unbind_def topicRegisterCallback_def
    topicUnregisterCallback_def
  by (intro orderly_intros; simp)+

lemma orderly_timer_ops:
  "orderly 1 p2pReqTimerId" "orderly 1 (p2pAddTimerTask env i k msg interval props)"
  "orderly 1 (p2pRemoveTimerTask i)" "orderly 1 (p2pRestartTimerTask env i)"
  "orderly 1 (p2pGetTimerTaskInfo i)"
  unfolding p2pReqTimerId_def p2pAddTimerTask_def p2pRemoveTimerTask_def p2pRestartTimerTask_def
    p2pGetTimerTaskInfo_def
  by (intro orderly_intros; simp)+

lemmas orderly_below [orderly_intros] =
  orderly_send [THEN orderly_mono] orderly_send_fanout [THEN orderly_mono]
  orderly_timer_ops [THEN orderly_mono]

lemma orderly_publish: "orderly 3 (publishTopicMsg env msg topic transinfo)"
  "orderly 3 (publishFanoutMsg env msg)"
  unfolding publishTopicMsg_def publishFanoutMsg_def Let_def
  by (intro orderly_intros; simp)+

text \<open>The instance, connecting and ending.\<close>

lemma orderly_instance: "orderly 2 (getInstance env type)"
  unfolding getInstance_def construct_def by (intro orderly_intros) simp_all

lemmas orderly_instance_below [orderly_intros] = orderly_instance [THEN orderly_mono]

lemma adds_tidy: "adds P s t \<Longrightarrow> tidy n s t"
  by (auto simp: adds_def intro: tidy_events)

lemma orderly_connect [orderly_intros]: "orderly n (ConnectInit env)"
  unfolding along_def using ConnectInit_summary [OF surjective_pairing] adds_tidy by blast

lemma orderly_close [orderly_intros]: "orderly n close_connection"
  unfolding along_def using close_summary adds_tidy by blast

lemma orderly_rebind [orderly_intros]: "orderly n (rebind env)"
  unfolding along_def using rebind_summary adds_tidy by blast

lemma orderly_reconnect_locked [orderly_intros]: "orderly n (reconnect_locked env)"
  unfolding reconnect_locked_def by (intro orderly_intros)

lemma orderly_init [orderly_intros]:
  "orderly 3 (rabbitmq_init env host port user password module_name)"
  unfolding rabbitmq_init_def by (intro orderly_intros) simp_all

lemma orderly_free [orderly_intros]: "orderly 3 rabbitmq_free"
  unfolding rabbitmq_free_def by (intro orderly_intros) simp_all

lemma tidy_reconnect:
  assumes "conn_mutex \<notin> set (held (trace s))"
  shows "tidy 3 s (state_after (ReconnectProc env) s)"
proof -
  have "state_after (ReconnectProc env) s =
      state_after (do { log ''reconnect proc...''; locked conn_mutex (reconnect_locked env) }) s"
    by (simp add: ReconnectProc_run [OF assms refl] split_beta Let_def)
  moreover have "orderly 3 (do { log ''reconnect proc...''; locked conn_mutex (reconnect_locked env) })"
    by (intro orderly_intros) simp
  ultimately show ?thesis using orderlyD by metis
qed

text \<open>The point-to-point interface and the handlers of received messages.\<close>

lemma orderly_make_call [orderly_intros]: "orderly 1 (make_call env type m n a b rpid timeout)"
  unfolding make_call_def GetModuleName_def Let_def by (intro orderly_intros) simp_all

lemma orderly_send_props: "orderly 3 (send_props env m b p)"
  unfolding send_props_def by (intro orderly_intros) simp_all

lemmas orderly_send_props_below [orderly_intros] = orderly_send_props [THEN orderly_mono]

lemma orderly_interface:
  "orderly 1 (rmRequestMake env modName msgName a msgBody rpid timeout)"
  "orderly 1 (rmNotifyMake env modName msgName a msgBody rpid timeout)"
  "orderly 2 (rmReportMake env modName msgName msgBody)"
  "orderly 2 (rmRequestTempResponse env modName i respCode descr msgBody)"
  "orderly 2 (rmRequestFinalResponse env modName i respCode descr msgBody)"
  unfolding rmRequestMake_def rmNotifyMake_def rmReportMake_def rmRequestTempResponse_def
    rmRequestFinalResponse_def GetModuleName_def
  by (intro orderly_intros; simp)+

lemma orderly_interface_control:
  "orderly 2 (rmInitMidwareClient env modName serverIp serverPort userName passWord svrmod)"
  "orderly 2 (rmSetMidMsgHandler env pfn)" "orderly 2 (MidwareClientDestroy env)"
  unfolding rmInitMidwareClient_def rmSetMidMsgHandler_def MidwareClientDestroy_def p2pSetCallback_def
  by (intro orderly_intros orderly_mono [OF orderly_init] orderly_mono [OF orderly_free]; simp)+


lemma orderly_fanoutHandle [orderly_intros]: "orderly n (fanoutHandleMessage msg p)"
  unfolding fanoutHandleMessage_def by (intro orderly_intros) simp

subsection \<open>The user's functions\<close>

text \<open>
  What the client relies on in the functions its user has set: they may call the client, but then with
  the same discipline as any operation. A function for messages is called with \<open>handle_mutex\<close> held and
  may take every other mutex; one for timeouts is called with \<open>timer_mutex\<close> held and may take the two
  above it.
\<close>

locale user_code =
  fixes call :: "callback_call \<Rightarrow> unit op"
  assumes timeout_callback: "is_timeout c \<Longrightarrow> orderly 2 (call c)"
    and message_callback: "\<not> is_timeout c \<Longrightarrow> orderly 1 (call c)"
begin

lemma orderly_timeout: "orderly 2 (p2pTimeoutProc call task)"
  unfolding p2pTimeoutProc_def Let_def
  by (intro orderly_intros)
    (auto simp: orderly_intros timeout_callback split: message_type_t.splits option.splits)

lemma orderly_expire_loop: "orderly 2 (expire_loop call ids seen todo)"
  by (induction todo arbitrary: seen) (auto intro!: orderly_intros orderly_timeout)

lemma orderly_timer_round: "orderly 1 (timer_round call env)"
  unfolding timer_round_def Let_def
  by (intro orderly_intros orderly_expire_loop [THEN orderly_mono]) simp_all

lemma orderly_final: "orderly 1 (final_response call f p msg info)"
  unfolding final_response_def by (intro orderly_intros message_callback) simp_all

lemma orderly_p2pHandle: "orderly 1 (p2pHandleMessage call env k msg p)"
proof -
  note parts = orderly_interface(5) [THEN orderly_mono] orderly_final message_callback
  show ?thesis
    unfolding p2pHandleMessage_def Let_def
    by (intro tidy.along_bind tidy.along_get)
      (auto simp del: One_nat_def split: message_type_t.splits option.splits intro!: orderly_intros parts)
qed

lemma orderly_dispatch: "orderly 1 (dispatch call env es routing msg p)"
  by (induction es) (auto simp del: One_nat_def intro!: orderly_intros message_callback)

lemma orderly_topicHandle: "orderly 1 (topicHandleMessage call env routing msg p)"
  unfolding topicHandleMessage_def by (intro orderly_intros orderly_dispatch)

end

text \<open>Functions that do not call back keep the discipline.\<close>

interpretation silent: user_code silent
  by unfold_locales (simp_all add: silent_def orderly_intros)

end
