(* ===== verification/Threads.thy ===== *)
theory Threads
  imports Lock_Order
begin

section \<open>The threads of the client\<close>

text \<open>
  \<open>SendThreadProc\<close>, \<open>ReceiveThreadProc\<close> and the loop of \<open>TimerThreadProc\<close> of
  \<open>src/rabbitmqclient.cpp\<close>, each cut into steps that start and end where its loop tests
  \<open>stopThreads\<close> or jumps to \<open>thread_restart\<close>. The body of the timer's loop is \<open>timer_round\<close> of theory
  \<open>Timer_Tasks\<close>. The lemmas show what each kind of reply makes the receiving thread do, how the
  heartbeat counter moves, when the threads stop and when they cannot.
\<close>

subsection \<open>The heartbeat of the sending thread\<close>

text \<open>One round, \<open>cnt\<close> being the local \<open>count\<close>; \<open>None\<close> when the loop has ended. The \<open>#if 0\<close> part is no code.\<close>

definition send_round :: "environment \<Rightarrow> i32 \<Rightarrow> i32 option op" where
  "send_round env cnt = do {
     s \<leftarrow> State_Monad.get;
     if stopThreads s then ret None
     else do {
       emit (Slept 1000);
       let cnt = cnt + 1;
       if sint cnt < sint MAX_HEARTBEAT_TM then ret (Some cnt)
       else do {
         let cnt = 0;
         s \<leftarrow> State_Monad.get;
         only_if (connection s \<noteq> NULL) (locked conn_mutex (do {
           fd \<leftarrow> ask (Amqp_get_sockfd (connection s)) (sockfd env);
           if fd = - 1 then modify (\<lambda>s. s\<lparr>heartbeaterr := heartbeaterr s + 1\<rparr>)
           else modify (\<lambda>s. s\<lparr>heartbeaterr := 0\<rparr>)
         }));
         ret (Some cnt)
       }
     }
   }"

subsection \<open>A received message\<close>

text \<open>\<open>std::string(bytes, len)\<close>, which throws for \<open>NULL\<close> with a length.\<close>

definition std_string :: "amqp_bytes_t \<Rightarrow> string result" where
  "std_string b =
     (case bytes b of
        Some s \<Rightarrow> Inr (take (unat (len b)) s)
      | NULL \<Rightarrow> if len b = 0 then Inr '''' else Inl String_from_null)"

text \<open>The properties of a message, if it has them, read into the uninitialised \<open>intprops\<close>.\<close>

definition read_properties :: "environment \<Rightarrow> amqp_basic_properties_t \<Rightarrow> int_props_st option result op" where
  "read_properties env props =
     (if flags props AND AMQP_BASIC_HEADERS_FLAG \<noteq> 0 then
        case AmqpTable2IntProps (headers props) (uninit_props env) of
          Read_ok p \<Rightarrow> ret (Inr (Some p))
        | Read_failed m p \<Rightarrow> do { log m; log ''AmqpTable2IntProps err!''; ret (Inr None) }
        | Read_out_of_bounds \<Rightarrow> ret (Inl Out_of_bounds)
      else do { log ''no heads field err!''; ret (Inr None) })"

definition handle_message ::
  "(callback_call \<Rightarrow> unit op) \<Rightarrow> environment \<Rightarrow> string \<Rightarrow> string \<Rightarrow> int_props_st \<Rightarrow> unit result op" where
  "handle_message call env routing msg intprops = do {
     s \<leftarrow> State_Monad.get;
     if exchange_type s = topictype then
       locked handle_mutex (do { topicHandleMessage call env routing msg intprops; ret (Inr ()) })
     else if exchange_type s = p2ptype then
       locked handle_mutex (p2pHandleMessage call env routing msg intprops)
     else if exchange_type s = broadcasttype then
       locked handle_mutex (do { fanoutHandleMessage msg intprops; ret (Inr ()) })
     else do {
       log (''Unknow exchange type :'' @ to_string (exchange_type_value (exchange_type s)));
       ret (Inr ())
     }
   }"

definition receive_message ::
  "(callback_call \<Rightarrow> unit op) \<Rightarrow> environment \<Rightarrow> amqp_envelope_t \<Rightarrow> unit result op" where
  "receive_message call env envelope =
     (case (std_string (routing_key envelope), std_string (body (message envelope)),
            std_string (consumer_tag envelope)) of
        (Inr routing, Inr msg, Inr consumer) \<Rightarrow>
          on_ok (read_properties env (properties (message envelope))) (\<lambda>intprops. do {
            library Amqp_destroy_envelope;
            case intprops of
              None \<Rightarrow> ret (Inr ())
            | Some p \<Rightarrow> handle_message call env routing msg p
          })
      | (Inl e, _) \<Rightarrow> ret (Inl e)
      | (_, Inl e, _) \<Rightarrow> ret (Inl e)
      | (_, _, Inl e) \<Rightarrow> ret (Inl e))"

subsection \<open>The receiving thread\<close>

text \<open>
  Where the thread is: at \<open>thread_restart\<close>, at the test of its loop, returned, waiting for ever for
  the mutex it holds itself, or ended by an exception.
\<close>

datatype recv_pc = Thread_restart | Loop_test | Returned | Self_blocked | Threw cpp_exception

text \<open>\<open>ReconnectProc(); goto thread_restart;\<close>\<close>

definition reconnect_restart :: "environment \<Rightarrow> recv_pc op" where
  "reconnect_restart env = do {
     returns \<leftarrow> ReconnectProc env;
     ret (if returns then Thread_restart else Self_blocked)
   }"

definition amqp_basic_consume :: "environment \<Rightarrow> string \<Rightarrow> string \<Rightarrow> unit op" where
  "amqp_basic_consume env queue tag =
     rpc (Consumer (Rpc_basic_consume (cbytes env queue) (cbytes env tag) 0 1 0 (empty_table env)))"

text \<open>From \<open>thread_restart\<close> to the loop: subscribing to the queues, and what follows the reply.\<close>

definition recv_consume :: "environment \<Rightarrow> amqp_rpc_reply_t op" where
  "recv_consume env = do {
     locked conn_mutex (do {
       modify (\<lambda>s. s\<lparr>heartbeaterr := 0\<rparr>);
       s \<leftarrow> State_Monad.get;
       amqp_basic_consume env (queue_name s) ''share'';
       only_if (exchange_type s = topictype) (amqp_basic_consume env (queue_name_self s) ''self'')
     });
     amqp_get_rpc_reply env
   }"

definition recv_subscribe :: "environment \<Rightarrow> recv_pc op" where
  "recv_subscribe env = do {
     r \<leftarrow> recv_consume env;
     if reply_type r \<noteq> AMQP_RESPONSE_NORMAL then do {
       s \<leftarrow> State_Monad.get;
       log (''amqp_basic_consume err: '' @ queue_name s);
       emit (Slept 3000);
       reconnect_restart env
     }
     else ret Loop_test
   }"

text \<open>What follows a reply of \<open>amqp_consume_message\<close>.\<close>

definition recv_reply ::
  "(callback_call \<Rightarrow> unit op) \<Rightarrow> environment \<Rightarrow> amqp_rpc_reply_t \<Rightarrow> amqp_envelope_t \<Rightarrow> recv_pc op" where
  "recv_reply call env r envelope =
     (if id_number (reply r) = AMQP_BASIC_GET_EMPTY_METHOD then do {
        emit (Slept 1);
        ret Loop_test
      }
      else if reply_type r \<noteq> AMQP_RESPONSE_NORMAL then
        if reply_type r = AMQP_RESPONSE_LIBRARY_EXCEPTION then
          if library_error r = status_value AMQP_STATUS_TIMEOUT then do {
            emit (Slept 1);
            ret Loop_test
          }
          else do {
            log (''AMQP_RESPONSE_LIBRARY_EXCEPTION: '' @ to_string (sint (library_error r)) @ ''['' @
              error_string2 env (library_error r) @ '']'');
            emit (Slept 1);
            reconnect_restart env
          }
        else do {
          log ''AMQP_RESPONSE_SERVER_EXCEPTION'';
          emit (Slept 1);
          reconnect_restart env
        }
      else do {
        handled \<leftarrow> receive_message call env envelope;
        ret (case handled of Inl e \<Rightarrow> Threw e | Inr _ \<Rightarrow> Loop_test)
      })"

text \<open>One round of the loop, its test included.\<close>

definition recv_round ::
  "(callback_call \<Rightarrow> unit op) \<Rightarrow> environment \<Rightarrow> recv_pc op" where
  "recv_round call env = do {
     s \<leftarrow> State_Monad.get;
     if stopThreads s then ret Returned
     else do {
       library (Amqp_maybe_release_buffers (connection s));
       emit (Lock conn_mutex);
       if sint (heartbeaterr s) > sint MAX_HEARTBEAT_ERR then do {
         log (''heartbeat error: '' @ to_string (sint (heartbeaterr s)));
         pc \<leftarrow> reconnect_restart env;
         only_if (pc \<noteq> Self_blocked) (emit (Unlock conn_mutex));
         ret pc
       }
       else do {
         (r, envelope) \<leftarrow> ask (Amqp_consume_message (connection s)) (consumed env);
         emit (Unlock conn_mutex);
         recv_reply call env r envelope
       }
     }
   }"

definition recv_step ::
  "(callback_call \<Rightarrow> unit op) \<Rightarrow> environment \<Rightarrow> recv_pc \<Rightarrow> recv_pc op" where
  "recv_step call env pc =
     (case pc of
        Thread_restart \<Rightarrow> recv_subscribe env
      | Loop_test \<Rightarrow> recv_round call env
      | _ \<Rightarrow> ret pc)"

subsection \<open>The timer thread\<close>

text \<open>One round of the loop with its test; whether the thread goes on.\<close>

definition timer_step ::
  "(callback_call \<Rightarrow> unit op) \<Rightarrow> environment \<Rightarrow> bool op" where
  "timer_step call env = do {
     s \<leftarrow> State_Monad.get;
     if stopThreads s then ret False
     else do { timer_round call env; ret True }
   }"

subsection \<open>The order of the mutexes in a round\<close>

text \<open>A thread at a point where it holds no mutex.\<close>

definition unlocked :: "RabbitMQWrapper \<Rightarrow> bool" where
  "unlocked s \<longleftrightarrow> locks [] (trace s) = Some []"

lemma unlocked_held: "unlocked s \<Longrightarrow> held (trace s) = []"
  by (simp add: unlocked_def held_def)

lemma unlocked_tidy: "unlocked s \<Longrightarrow> tidy n s t \<Longrightarrow> unlocked t"
  by (auto simp: unlocked_def tidy_def locks_append)

lemma orderly_send_round: "orderly 3 (send_round env cnt)"
  unfolding send_round_def Let_def by (intro orderly_intros) simp_all

lemma orderly_read_properties [orderly_intros]: "orderly n (read_properties env props)"
  unfolding read_properties_def
  by (cases "AmqpTable2IntProps (headers props) (uninit_props env)") (auto intro!: orderly_intros)

text \<open>
  \<open>ReconnectProc\<close> is orderly only for a thread that holds no mutex, so what the receiving thread does
  is orderly under that condition.
\<close>

definition careful :: "RabbitMQWrapper \<Rightarrow> RabbitMQWrapper \<Rightarrow> bool" where
  "careful s t \<longleftrightarrow> (unlocked s \<longrightarrow> tidy 0 s t)"

named_theorems careful_intros

lemma carefulD: "along careful m \<Longrightarrow> unlocked s \<Longrightarrow> tidy 0 s (state_after m s)"
  by (simp add: along_def careful_def)

interpretation careful: event_relation careful "\<lambda>e. \<not> is_lock_event e"
proof unfold_locales
  show "careful s t \<Longrightarrow> careful t u \<Longrightarrow> careful s u" for s t u
    using tidy_trans unlocked_tidy unfolding careful_def by blast
qed (simp_all add: careful_def tidy.calm_step)

declare careful.along_intros [careful_intros] careful.event_intros [careful_intros]
  careful.along_emit [careful_intros]

lemma orderly_careful: "orderly n m \<Longrightarrow> along careful m"
  by (erule along_mono) (auto simp: careful_def intro: tidy_mono)

lemma careful_reconnect [careful_intros]: "along careful (ReconnectProc env)"
proof (rule alongI)
  fix s
  show "careful s (state_after (ReconnectProc env) s)"
    using tidy_reconnect [of s env] tidy_mono unlocked_held [of s] by (fastforce simp: careful_def)
qed

lemma careful_restart [careful_intros]: "along careful (reconnect_restart env)"
  unfolding reconnect_restart_def by (intro careful_intros)

lemma orderly_consume: "orderly 3 (recv_consume env)"
  unfolding recv_consume_def amqp_basic_consume_def by (intro orderly_intros) simp_all

lemma careful_subscribe: "along careful (recv_subscribe env)"
  unfolding recv_subscribe_def by (intro careful_intros orderly_careful [OF orderly_consume]) simp_all

text \<open>Where the thread goes: it waits for itself in one situation only.\<close>

lemma reconnect_restart_result:
  assumes "unlocked s"
  shows "result_of (reconnect_restart env) s = Thread_restart"
  using unlocked_held [OF assms] ReconnectProc_run [of s, OF _ refl]
  by (auto simp: reconnect_restart_def split_beta)

lemma unlocked_quiet: "unlocked s \<Longrightarrow> list_all (\<lambda>e. \<not> is_lock_event e) es \<Longrightarrow> unlocked (s\<lparr>trace := trace s @ es\<rparr>)"
  by (simp add: unlocked_def locks_append locks_only_skipped)

lemma run_recv_subscribe:
  assumes "run_state (recv_consume env) s = (r, t)"
  shows "run_state (recv_subscribe env) s =
    (if reply_type r \<noteq> AMQP_RESPONSE_NORMAL then run_state (reconnect_restart env)
       (t\<lparr>trace := trace t @ [Logged (''amqp_basic_consume err: '' @ queue_name t), Slept 3000]\<rparr>)
     else (Loop_test, t))"
  using assms by (simp add: recv_subscribe_def)

lemma consumed_unlocked:
  "unlocked s \<Longrightarrow> run_state (recv_consume env) s = (r, t) \<Longrightarrow> unlocked t"
  using unlocked_tidy [OF _ alongD [OF orderly_consume]] by (metis snd_conv)

lemma recv_subscribe_result:
  assumes "unlocked s"
  shows "result_of (recv_subscribe env) s \<in> {Thread_restart, Loop_test}"
proof -
  obtain r t where rt: "run_state (recv_consume env) s = (r, t)" by fastforce
  note reconnect_restart_result [OF unlocked_quiet [OF consumed_unlocked [OF assms rt]],
    of "[Logged l, Slept 3000]" env for l]
  then show ?thesis by (simp add: run_recv_subscribe [OF rt])
qed

definition heartbeat_lost :: "RabbitMQWrapper \<Rightarrow> bool" where
  "heartbeat_lost s \<longleftrightarrow> sint (heartbeaterr s) > sint MAX_HEARTBEAT_ERR"

lemma recv_reply_result:
  assumes "unlocked s"
  shows "result_of (recv_reply call env r envelope) s \<notin> {Returned, Self_blocked}"
  using reconnect_restart_result [OF unlocked_quiet [OF assms], of "[Logged l, Slept 1]" env for l]
  by (auto simp: recv_reply_def split_beta split: sum.splits)

text \<open>What the loop does when the heartbeat is neither lost nor the thread to stop.\<close>

definition polled :: "environment \<Rightarrow> RabbitMQWrapper \<Rightarrow> RabbitMQWrapper" where
  "polled env s = s\<lparr>trace := trace s @ [Library (Amqp_maybe_release_buffers (connection s)),
     Lock conn_mutex, Library (Amqp_consume_message (connection s)), Unlock conn_mutex]\<rparr>"

definition poll_answer :: "environment \<Rightarrow> RabbitMQWrapper \<Rightarrow> amqp_rpc_reply_t \<times> amqp_envelope_t" where
  "poll_answer env s = consumed env (trace s @ [Library (Amqp_maybe_release_buffers (connection s)),
     Lock conn_mutex, Library (Amqp_consume_message (connection s))])"

lemma run_recv_round:
  assumes "\<not> stopThreads s" "\<not> heartbeat_lost s"
  shows "run_state (recv_round call env) s =
    (case poll_answer env s of (r, envelope) \<Rightarrow> run_state (recv_reply call env r envelope) (polled env s))"
  using assms
  by (simp add: recv_round_def heartbeat_lost_def poll_answer_def polled_def split_beta)

lemma run_recv_round_lost:
  assumes "\<not> stopThreads s" "heartbeat_lost s" "unlocked s"
  shows "run_state (recv_round call env) s = (Self_blocked,
    s\<lparr>trace := trace s @ [Library (Amqp_maybe_release_buffers (connection s)), Lock conn_mutex,
       Logged (''heartbeat error: '' @ to_string (sint (heartbeaterr s))),
       Logged ''reconnect proc...'', Lock conn_mutex]\<rparr>)"
proof -
  let ?s = "s\<lparr>trace := trace s @ [Library (Amqp_maybe_release_buffers (connection s)), Lock conn_mutex,
    Logged (''heartbeat error: '' @ to_string (sint (heartbeaterr s)))]\<rparr>"
  have "conn_mutex \<in> set (held (trace ?s))"
    using assms(3) by (simp add: unlocked_def held_def locks_append)
  then show ?thesis
    using assms(1,2) ReconnectProc_stuck [of ?s env]
    by (simp add: recv_round_def heartbeat_lost_def reconnect_restart_def)
qed

lemma tidy_polled: "tidy 3 s (polled env s)"
proof -
  have "orderly 3 (do { library (Amqp_maybe_release_buffers (connection s));
      locked conn_mutex (library (Amqp_consume_message (connection s))) })"
    by (intro orderly_intros) simp
  from alongD [OF this, of s] show ?thesis by (simp add: polled_def)
qed

subsection \<open>Rounds with the user's functions\<close>

context user_code
begin

lemma orderly_timer_step: "orderly 1 (timer_step call env)"
  unfolding timer_step_def by (intro orderly_intros orderly_timer_round)

lemma orderly_handle: "orderly 0 (handle_message call env routing msg p)"
  unfolding handle_message_def
  by (intro orderly_intros orderly_p2pHandle [THEN orderly_mono] orderly_topicHandle [THEN orderly_mono])
    simp_all

lemma orderly_receive: "orderly 0 (receive_message call env envelope)"
  unfolding receive_message_def by (intro orderly_intros orderly_handle)

lemma careful_reply: "along careful (recv_reply call env r envelope)"
  unfolding recv_reply_def by (intro careful_intros orderly_careful [OF orderly_receive]) simp_all

lemma recv_round_result:
  assumes "unlocked s" "stopThreads s \<or> \<not> heartbeat_lost s"
  shows "(result_of (recv_round call env) s = Returned \<longleftrightarrow> stopThreads s) \<and>
    result_of (recv_round call env) s \<noteq> Self_blocked \<and> tidy 0 s (state_after (recv_round call env) s)"
proof (cases "stopThreads s")
  case True
  then show ?thesis by (simp add: recv_round_def)
next
  case False
  have polled: "unlocked (polled env s)" "tidy 0 s (polled env s)"
    using unlocked_tidy [OF assms(1)] tidy_polled [of s env] tidy_mono by blast+
  show ?thesis
    using assms(2) False recv_reply_result [OF polled(1), of call env] tidy_trans [OF polled(2)]
      carefulD [OF careful_reply polled(1), of env]
    by (auto simp: run_recv_round split: prod.splits)
qed

lemma recv_step_result:
  assumes "unlocked s" "pc \<noteq> Self_blocked"
  shows "if pc = Loop_test \<and> \<not> stopThreads s \<and> heartbeat_lost s
    then result_of (recv_step call env pc) s = Self_blocked
    else result_of (recv_step call env pc) s \<noteq> Self_blocked \<and> tidy 0 s (state_after (recv_step call env pc) s)"
  using assms recv_subscribe_result [OF assms(1), of env] carefulD [OF careful_subscribe assms(1), of env]
    recv_round_result [OF assms(1), of env] run_recv_round_lost [OF _ _ assms(1), of call env]
  by (cases pc) (auto simp: recv_step_def)

end

subsection \<open>Runs of the threads\<close>

primrec send_rounds :: "environment \<Rightarrow> nat \<Rightarrow> i32 \<Rightarrow> i32 option op" where
  "send_rounds env 0 cnt = ret (Some cnt)"
| "send_rounds env (Suc n) cnt = do {
     next_cnt \<leftarrow> send_round env cnt;
     case next_cnt of None \<Rightarrow> ret None | Some cnt \<Rightarrow> send_rounds env n cnt
   }"

primrec recv_steps ::
  "(callback_call \<Rightarrow> unit op) \<Rightarrow> environment \<Rightarrow> nat \<Rightarrow> recv_pc \<Rightarrow> recv_pc op" where
  "recv_steps call env 0 pc = ret pc"
| "recv_steps call env (Suc n) pc = do { pc \<leftarrow> recv_step call env pc; recv_steps call env n pc }"

lemma send_rounds_add:
  "run_state (send_rounds env (m + n) cnt) s =
    (case run_state (send_rounds env m cnt) s of
       (None, t) \<Rightarrow> (None, t) | (Some c, t) \<Rightarrow> run_state (send_rounds env n c) t)"
  by (induction m arbitrary: cnt s) (auto split: prod.splits option.splits)

lemma sint_small: "n < 100 \<Longrightarrow> sint (of_nat n :: i32) = int n"
  using sint_sbintrunc' [of "int n", where 'a = 32] by (simp add: signed_take_bit_int_eq_self)

lemma send_rounds_sleep:
  assumes "\<not> stopThreads s" "c + n < 60"
  shows "run_state (send_rounds env n (of_nat c)) s =
    (Some (of_nat (c + n)), s\<lparr>trace := trace s @ replicate n (Slept 1000)\<rparr>)"
  using assms
proof (induction n arbitrary: c s)
  case (Suc n)
  have "run_state (send_round env (of_nat c)) s =
      (Some (of_nat (Suc c)), s\<lparr>trace := trace s @ [Slept 1000]\<rparr>)"
    using Suc.prems sint_small [of "Suc c"]
    by (simp add: send_round_def MAX_HEARTBEAT_TM_def add.commute)
  then show ?case using Suc.prems Suc.IH [of "s\<lparr>trace := trace s @ [Slept 1000]\<rparr>" "Suc c"] by simp
qed simp

text \<open>A minute of the sending thread: 59 rounds that only sleep and one that looks at the socket.\<close>

definition minute_events :: "RabbitMQWrapper \<Rightarrow> event list" where
  "minute_events s = replicate 60 (Slept 1000) @
     [Lock conn_mutex, Library (Amqp_get_sockfd (connection s)), Unlock conn_mutex]"

lemma send_minute:
  assumes "\<not> stopThreads s" "connection s \<noteq> NULL"
  shows "run_state (send_rounds env 60 0) s = (Some 0,
    s\<lparr>heartbeaterr := (if sockfd env (trace s @ replicate 60 (Slept 1000) @
          [Lock conn_mutex, Library (Amqp_get_sockfd (connection s))]) = - 1
        then heartbeaterr s + 1 else 0),
      trace := trace s @ minute_events s\<rparr>)"
proof -
  have sleep: "run_state (send_rounds env 59 0) s =
      (Some 59, s\<lparr>trace := trace s @ replicate 59 (Slept 1000)\<rparr>)"
    using send_rounds_sleep [OF assms(1), of 0 59 env] by simp
  have "replicate 59 (Slept 1000) @ [Slept 1000] = replicate 60 (Slept 1000)"
    using replicate_app_Cons_same [of 59 "Slept 1000" "[]"] replicate_add [of 59 1 "Slept 1000"] by simp
  then have rep: "replicate 59 (Slept 1000) @ Slept 1000 # es = replicate 60 (Slept 1000) @ es" for es
    by (metis append_Cons append_Nil append_assoc)
  show ?thesis
    using send_rounds_add [of env 59 1 0 s] assms
    by (auto simp: sleep send_round_def MAX_HEARTBEAT_TM_def minute_events_def Let_def rep)
qed

lemma send_minutes_lost:
  assumes "\<not> stopThreads s" "connection s \<noteq> NULL" "\<And>h. sockfd env h = - 1"
  shows "result_of (send_rounds env (60 * n) 0) s = Some 0 \<and>
    (\<exists>es. state_after (send_rounds env (60 * n) 0) s =
      s\<lparr>heartbeaterr := heartbeaterr s + of_nat n, trace := trace s @ es\<rparr>)"
  using assms(1,2)
proof (induction n arbitrary: s)
  case 0
  then show ?case by (auto intro!: exI [of _ "[]"])
next
  case (Suc n)
  let ?t = "s\<lparr>heartbeaterr := heartbeaterr s + 1, trace := trace s @ minute_events s\<rparr>"
  have "run_state (send_rounds env (60 * Suc n) 0) s = run_state (send_rounds env (60 * n) 0) ?t"
    using send_rounds_add [of env 60 "60 * n" 0 s] send_minute [OF Suc.prems, of env] assms(3) by simp
  then show ?case using Suc.IH [of ?t] Suc.prems by (auto simp: add.assoc)
qed

lemma orderly_send_rounds: "orderly 3 (send_rounds env n cnt)"
  by (induction n arbitrary: cnt) (auto intro!: orderly_intros orderly_send_round)


section \<open>Properties of the threads\<close>

text \<open>
  C12: The heartbeat ends in a deadlock. When four checks of the sending thread in a row, one in 60
  seconds, find no socket, the next round of the receiving thread takes \<open>conn_mutex\<close>, calls
  \<open>ReconnectProc\<close> with it and waits for ever for the mutex it holds; the connection is not renewed.
\<close>

theorem lost_heartbeat_deadlocks:
  assumes "unlocked s" and "\<not> stopThreads s" and "connection s \<noteq> NULL" and "heartbeaterr s = 0"
    and "\<And>h. sockfd env h = - 1" and "4 \<le> n" and "n < 2 ^ 31"
    and "t = state_after (send_rounds env (60 * n) 0) s"
    and "run_state (recv_round call env) t = (pc, u)"
  shows "pc = Self_blocked \<and> connection u = connection s \<and>
    (\<exists>es. trace u = trace t @ es @ [Lock conn_mutex] \<and> conn_mutex \<in> set (held (trace t @ es))) \<and>
    (\<forall>k. run_state (recv_steps call env k pc) u = (Self_blocked, u))"
proof -
  obtain es where t: "t = s\<lparr>heartbeaterr := of_nat n, trace := trace s @ es\<rparr>"
    using send_minutes_lost [OF assms(2,3,5), of n] assms(4,8) by auto
  have "sint (of_nat n :: i32) = int n"
    using sint_sbintrunc' [of "int n", where 'a = 32] assms(7) by (simp add: signed_take_bit_int_eq_self)
  then have lost: "heartbeat_lost t" using assms(6) t by (simp add: heartbeat_lost_def MAX_HEARTBEAT_ERR_def)
  have free: "unlocked t"
    using unlocked_tidy [OF assms(1) alongD [OF orderly_send_rounds]] assms(8) by simp
  note run = run_recv_round_lost [OF _ lost free, of call env]
  have "run_state (recv_steps call env k Self_blocked) v = (Self_blocked, v)" for k v
    by (induction k) (simp_all add: recv_step_def)
  moreover have "conn_mutex \<in> set (held (trace t @ [Library (Amqp_maybe_release_buffers (connection t)),
      Lock conn_mutex, Logged a, Logged b]))" for a b
    using free by (simp add: unlocked_def held_def locks_append)
  ultimately show ?thesis
    using run assms(2,9) t by (auto intro: exI [of _ "[_, _, _, _]"])
qed

theorem lost_heartbeat_deadlocks_witness:
  "result_of (recv_round silent (sample_env\<lparr>sockfd := (\<lambda>_. - 1)\<rparr>))
    (state_after (send_rounds (sample_env\<lparr>sockfd := (\<lambda>_. - 1)\<rparr>) (60 * 4) 0) (sample_client p2ptype)) =
   Self_blocked"
proof -
  let ?env = "sample_env\<lparr>sockfd := (\<lambda>_. - 1)\<rparr>"
  obtain pc u where u: "run_state (recv_round silent ?env)
      (state_after (send_rounds ?env (60 * 4) 0) (sample_client p2ptype)) = (pc, u)" by fastforce
  have "pc = Self_blocked"
    by (rule conjunct1 [OF lost_heartbeat_deadlocks [OF _ _ _ _ _ _ _ refl u]])
      (simp_all add: unlocked_def)
  with u show ?thesis by simp
qed

lemma recv_consume_keeps: "stopThreads (state_after (recv_consume env) s) = stopThreads s"
  by (simp add: recv_consume_def amqp_basic_consume_def Let_def)

lemma recv_consume_reply: "\<exists>h. result_of (recv_consume env) s = last_reply env h"
  by (auto simp: recv_consume_def amqp_basic_consume_def Let_def)

lemma restart_for_ever:
  assumes "\<And>h. reply_type (last_reply env h) \<noteq> AMQP_RESPONSE_NORMAL" "unlocked s"
  shows "result_of (recv_steps call env n Thread_restart) s = Thread_restart"
  using assms(2)
proof (induction n arbitrary: s)
  case (Suc n)
  obtain r t where rt: "run_state (recv_consume env) s = (r, t)" by fastforce
  then have "reply_type r \<noteq> AMQP_RESPONSE_NORMAL"
    using recv_consume_reply [of env s] assms(1) by (metis fst_conv)
  moreover note reconnect_restart_result [OF unlocked_quiet [OF consumed_unlocked [OF Suc.prems rt]],
    of "[Logged l, Slept 3000]" env for l]
  ultimately have "result_of (recv_subscribe env) s = Thread_restart"
    by (simp add: run_recv_subscribe [OF rt])
  then show ?case
    using Suc.IH unlocked_tidy [OF Suc.prems carefulD [OF careful_subscribe Suc.prems]]
    by (simp add: recv_step_def split_beta)
qed simp

lemma stopped_receiver_returns:
  assumes "stopThreads s" "reply_type (result_of (recv_consume env) s) = AMQP_RESPONSE_NORMAL"
  shows "result_of (recv_steps call env 2 Thread_restart) s = Returned"
proof -
  obtain r t where rt: "run_state (recv_consume env) s = (r, t)" by fastforce
  then have "stopThreads t" using recv_consume_keeps [of env s] assms(1) by simp
  then show ?thesis
    using rt assms(2) by (simp add: numeral_2_eq_2 recv_step_def run_recv_subscribe [OF rt] recv_round_def)
qed

text \<open>
  C17: Once \<open>stopThreads\<close> is set the sending and the timer thread return at their next test, without
  doing anything more, and so does the receiving thread in its loop. At \<open>thread_restart\<close> the
  receiving thread, while it holds no mutex, does not test it: it returns after one accepted
  subscription, but as long as the broker accepts none it is back at \<open>thread_restart\<close> after every
  number of its steps and never returns.
\<close>

theorem stop_reaches_threads:
  assumes "stopThreads s" and "unlocked s"
  shows "run_state (send_round env cnt) s = (None, s) \<and> run_state (timer_step call env) s = (False, s) \<and>
    run_state (recv_round call env) s = (Returned, s) \<and>
    (reply_type (result_of (recv_consume env) s) = AMQP_RESPONSE_NORMAL \<longrightarrow>
       result_of (recv_steps call env 2 Thread_restart) s = Returned) \<and>
    ((\<forall>h. reply_type (last_reply env h) \<noteq> AMQP_RESPONSE_NORMAL) \<longrightarrow>
       (\<forall>n. result_of (recv_steps call env n Thread_restart) s = Thread_restart))"
  using assms stopped_receiver_returns [OF assms(1)] restart_for_ever [OF _ assms(2)]
  by (simp add: send_round_def timer_step_def recv_round_def)

theorem stop_reaches_threads_witness:
  "result_of (recv_steps silent sample_env 2 Thread_restart) (sample_client topictype\<lparr>stopThreads := True\<rparr>) = Returned \<and>
   result_of (recv_steps silent (sample_env\<lparr>last_reply := (\<lambda>_. sample_reply AMQP_RESPONSE_SERVER_EXCEPTION)\<rparr>) 9
     Thread_restart) (sample_client topictype\<lparr>stopThreads := True\<rparr>) = Thread_restart"
proof -
  let ?s = "sample_client topictype\<lparr>stopThreads := True\<rparr>"
  have s: "stopThreads ?s" "unlocked ?s" by (simp_all add: unlocked_def)
  have "reply_type (result_of (recv_consume sample_env) ?s) = AMQP_RESPONSE_NORMAL"
    using recv_consume_reply [of sample_env ?s] by auto
  then show ?thesis
    using stop_reaches_threads [OF s, of sample_env 0]
      stop_reaches_threads [OF s, of "sample_env\<lparr>last_reply := (\<lambda>_. sample_reply AMQP_RESPONSE_SERVER_EXCEPTION)\<rparr>" 0]
    by simp
qed

text \<open>What the receiving thread does from \<open>thread_restart\<close> when it is to stop: it subscribes and returns.\<close>

fun is_consumed :: "event \<Rightarrow> bool" where
  "is_consumed (Library (Amqp_consume_message c)) = True"
| "is_consumed e = False"

lemma recv_consume_events:
  "\<exists>es. trace (state_after (recv_consume env) s) = trace s @ es \<and> called es = [] \<and> list_all (\<lambda>e. \<not> is_consumed e) es"
  by (simp add: recv_consume_def amqp_basic_consume_def Let_def)

lemma stopped_receiver_idle:
  assumes "stopThreads s" "reply_type (result_of (recv_consume env) s) = AMQP_RESPONSE_NORMAL"
  shows "state_after (recv_steps call env 2 Thread_restart) s = state_after (recv_consume env) s"
proof -
  obtain r t where rt: "run_state (recv_consume env) s = (r, t)" by fastforce
  then have "stopThreads t" using recv_consume_keeps [of env s] assms(1) by simp
  then show ?thesis
    using rt assms(2) by (simp add: numeral_2_eq_2 recv_step_def run_recv_subscribe [OF rt] recv_round_def)
qed

text \<open>
  C29: A client that is freed and initialized again is connected and initialized and has its three
  threads, but does nothing with them: \<open>stopThreads\<close> is still set, so the sending and the timer thread
  return at once, and the receiving thread returns after its subscription, if that is accepted, without
  having called \<open>amqp_consume_message\<close> or any function of the user.
\<close>

theorem reinitialized_client_is_dead:
  assumes "initialized s" and "t = state_after rabbitmq_free s"
    and "run_state (rabbitmq_init env host port user password module_name) t = (True, u)"
  shows "initialized u \<and> send_thread u \<and> recv_thread u \<and> timer_thread u \<and>
    run_state (send_round env 0) u = (None, u) \<and> run_state (timer_step call env) u = (False, u) \<and>
    (reply_type (result_of (recv_consume env) u) = AMQP_RESPONSE_NORMAL \<longrightarrow>
       (\<exists>v es. run_state (recv_steps call env 2 Thread_restart) u = (Returned, v) \<and>
          trace v = trace u @ es \<and> called es = [] \<and> list_all (\<lambda>e. \<not> is_consumed e) es))"
proof -
  have "\<not> initialized t" "stopThreads t" using assms(1,2) by (simp_all add: free_fields)
  then have "initialized u \<and> send_thread u \<and> recv_thread u \<and> timer_thread u \<and> stopThreads u"
    using init_uninitialized [OF _ assms(3)] by auto
  then show ?thesis
    using stopped_receiver_returns [of u env] stopped_receiver_idle [of u env] recv_consume_events [of env u]
    by (auto simp: send_round_def timer_step_def prod_eq_iff)
qed

theorem reinitialized_client_is_dead_witness:
  "result_of (do { rabbitmq_free; _ \<leftarrow> rabbitmq_init sample_env ''host'' 5672 ''user'' ''pw'' ''m'';
     recv_steps silent sample_env 2 Thread_restart }) (sample_client topictype) = Returned"
proof -
  let ?init = "rabbitmq_init sample_env ''host'' 5672 ''user'' ''pw'' ''m''"
  let ?t = "state_after rabbitmq_free (sample_client topictype)"
  have "\<not> initialized ?t" "connection ?t = NULL" by (simp_all add: free_fields)
  moreover have "exchange_type ?t = topictype" by (simp add: rabbitmq_free_def close_connection_def)
  ultimately have "result_of ?init ?t"
    using init_uninitialized [OF _ surjective_pairing, of ?t sample_env "''host''" 5672 "''user''" "''pw''" "''m''"]
    by (simp add: ConnectInit_result channel_opened_def)
  then obtain u where u: "run_state ?init ?t = (True, u)" by (cases "run_state ?init ?t") simp
  have "result_of (recv_steps silent sample_env 2 Thread_restart) u = Returned"
    using reinitialized_client_is_dead [OF _ refl u, of silent] recv_consume_reply [of sample_env u] by fastforce
  with u show ?thesis by (simp add: split_beta)
qed

end
