(* ===== verification/User_Code.thy ===== *)
theory User_Code
  imports Threads
begin

section \<open>The user's calls and functions\<close>

text \<open>
  What a user does with a client: calls of the interface, made by the user's own threads or by the
  functions the client calls. A function that reacts to its call is given by the calls it makes; they
  may depend on all that has happened. The lemmas show which reactions keep the order of the mutexes
  and that a request made from a timeout function waits for ever.
\<close>

subsection \<open>Calls of the user\<close>

datatype api_call =
    Publish_topic string string string
  | Publish_fanout string
  | Subscribe_topic string function_id "string pointer"
  | Unsubscribe_topic string
  | Request "string pointer" "string pointer" address "string pointer" "unit pointer" i32
  | Notification "string pointer" "string pointer" address "string pointer" "unit pointer" i32
  | Report "string pointer" "string pointer" "string pointer"
  | Temp_response "string pointer" i32 "string pointer" "string pointer" "string pointer"
  | Final_response "string pointer" i32 "string pointer" "string pointer" "string pointer"
  | Set_handler "MID_CLIENT_HANDLER pointer"

definition ignore :: "'a op \<Rightarrow> unit op" where
  "ignore m = do { _ \<leftarrow> m; ret () }"

fun perform :: "environment \<Rightarrow> api_call \<Rightarrow> unit op" where
  "perform env (Publish_topic msg topic transinfo) = ignore (publishTopicMsg env msg topic transinfo)"
| "perform env (Publish_fanout msg) = ignore (publishFanoutMsg env msg)"
| "perform env (Subscribe_topic topic f inst) = ignore (subscribleTopicMsg env topic f inst)"
| "perform env (Unsubscribe_topic topic) = ignore (unSubscribleTopicMsg env topic)"
| "perform env (Request m n a b r timeout) = ignore (rmRequestMake env m n a b r timeout)"
| "perform env (Notification m n a b r timeout) = ignore (rmNotifyMake env m n a b r timeout)"
| "perform env (Report m n b) = ignore (rmReportMake env m n b)"
| "perform env (Temp_response m i c d b) = ignore (rmRequestTempResponse env m i c d b)"
| "perform env (Final_response m i c d b) = ignore (rmRequestFinalResponse env m i c d b)"
| "perform env (Set_handler pfn) = ignore (rmSetMidMsgHandler env pfn)"

text \<open>How many ids a call takes from the counter.\<close>

fun ids_taken :: "api_call \<Rightarrow> nat" where
  "ids_taken (Request (Some m) (Some n) a (Some b) r timeout) = 1"
| "ids_taken (Notification (Some m) (Some n) a (Some b) r timeout) = 1"
| "ids_taken c = 0"

subsection \<open>Functions that call back\<close>

definition reacting ::
  "environment \<Rightarrow> (event list \<Rightarrow> callback_call \<Rightarrow> api_call list) \<Rightarrow> callback_call \<Rightarrow> unit op" where
  "reacting env react c = do {
     emit (Called c);
     calls \<leftarrow> gets (\<lambda>s. react (trace s) c);
     for_each calls (perform env)
   }"

fun makes_call :: "api_call \<Rightarrow> bool" where
  "makes_call (Request m n a b r timeout) = True"
| "makes_call (Notification m n a b r timeout) = True"
| "makes_call c = False"

text \<open>The reactions that take no id, and so no \<open>timer_mutex\<close>.\<close>

definition takes_no_id :: "api_call list \<Rightarrow> bool" where
  "takes_no_id calls \<longleftrightarrow> list_all (\<lambda>a. ids_taken a = 0) calls"

text \<open>The functions for timeouts make no request and no notification.\<close>

definition timeouts_take_no_id :: "(event list \<Rightarrow> callback_call \<Rightarrow> api_call list) \<Rightarrow> bool" where
  "timeouts_take_no_id react \<longleftrightarrow> (\<forall>h c. is_timeout c \<longrightarrow> takes_no_id (react h c))"

lemma orderly_perform: "orderly 1 (perform env c)"
  unfolding ignore_def
  by (cases c) (auto simp: ignore_def intro!: orderly_intros orderly_interface [THEN orderly_mono]
    orderly_interface_control [THEN orderly_mono] orderly_publish [THEN orderly_mono]
    orderly_topic [THEN orderly_mono])

lemma orderly_perform_no_id:
  assumes "ids_taken a = 0"
  shows "orderly 2 (perform env a)"
proof (cases "makes_call a")
  case True
  with assms show ?thesis
    by (cases a)
      (auto simp: ignore_def rmRequestMake_def rmNotifyMake_def split: option.splits intro!: orderly_intros)
next
  case False
  then show ?thesis
    by (cases a) (auto simp: ignore_def intro!: orderly_intros orderly_interface [THEN orderly_mono]
      orderly_interface_control [THEN orderly_mono] orderly_publish [THEN orderly_mono]
      orderly_topic [THEN orderly_mono])
qed

lemma orderly_for_each_no_id: "takes_no_id calls \<Longrightarrow> orderly 2 (for_each calls (perform env))"
  by (induction calls) (auto simp: takes_no_id_def intro!: orderly_intros orderly_perform_no_id)

lemma run_reacting:
  "run_state (reacting env react c) s =
    run_state (for_each (react (trace s @ [Called c]) c) (perform env)) (s\<lparr>trace := trace s @ [Called c]\<rparr>)"
  by (simp add: reacting_def)

lemma orderly_reacting:
  assumes "\<And>h. takes_no_id (react h c)"
  shows "orderly 2 (reacting env react c)"
proof (rule alongI)
  fix s :: RabbitMQWrapper
  let ?s = "s\<lparr>trace := trace s @ [Called c]\<rparr>"
  have "tidy 2 s ?s" by (rule tidy.calm_step) simp
  moreover have "tidy 2 ?s (state_after (for_each (react (trace ?s) c) (perform env)) ?s)"
    by (intro alongD orderly_for_each_no_id assms)
  ultimately show "tidy 2 s (state_after (reacting env react c) s)"
    using tidy_trans by (simp add: run_reacting)
qed

text \<open>A user who answers every request at once, from the function called for it.\<close>

fun answer_requests :: "event list \<Rightarrow> callback_call \<Rightarrow> api_call list" where
  "answer_requests h (CB_REQUEST f server src name i text a) =
     [Final_response (Some src) i (Some ''200'') (Some ''ok'') (Some ''pong'')]"
| "answer_requests h c = []"

lemma answer_requests_timeouts [simp]: "timeouts_take_no_id answer_requests"
  unfolding timeouts_take_no_id_def
proof (intro allI impI)
  fix h c
  show "is_timeout c \<Longrightarrow> takes_no_id (answer_requests h c)" by (cases c) (simp_all add: takes_no_id_def)
qed

lemma reacting_user_code:
  assumes "timeouts_take_no_id react"
  shows "user_code (reacting env react)"
proof
  fix c
  show "is_timeout c \<Longrightarrow> orderly 2 (reacting env react c)" using assms by (intro orderly_reacting) (simp add: timeouts_take_no_id_def)
  show "orderly 1 (reacting env react c)"
    unfolding reacting_def by (intro orderly_intros orderly_perform) simp_all
qed

end
