(* ===== verification/System.thy ===== *)
theory System
  imports User_Code
begin

section \<open>The client as a whole\<close>

text \<open>
  A client in service: its three threads and the calls of its user, interleaved. A step is a whole
  call or one round of a thread's loop, with what the user's functions do in it; inside a step the
  model does not interleave. (The operations
  protect what they share with mutexes, except where the development says otherwise.) The result of
  this theory is that mutexes are taken in one order in every reachable state, with a single
  exception; theory \<open>Call_Runs\<close> follows the requests and notifications through the same runs.
\<close>

subsection \<open>Steps\<close>

record client_system =
  client :: RabbitMQWrapper
  recv_at :: recv_pc
  send_at :: "i32 option"
  timer_on :: bool

text \<open>
  \<open>system_run call env start cs sys\<close>: the system gets from \<open>start\<close> to \<open>sys\<close> while the user makes the
  calls \<open>cs\<close>, in their order. Stopping sets
  \<open>stopThreads\<close>, as \<open>rabbitmq_free\<close> does before it joins the threads. A receiving thread that waits
  for itself holds \<open>conn_mutex\<close>, and nothing is modelled behind that point.
\<close>

inductive system_run ::
  "(callback_call \<Rightarrow> unit op) \<Rightarrow> environment \<Rightarrow> client_system \<Rightarrow> api_call list \<Rightarrow> client_system \<Rightarrow> bool"
  for call env start where
  Start: "system_run call env start [] start"
| Call: "system_run call env start cs sys \<Longrightarrow> recv_at sys \<noteq> Self_blocked \<Longrightarrow>
    system_run call env start (cs @ [c]) (sys\<lparr>client := state_after (perform env c) (client sys)\<rparr>)"
| Receive: "system_run call env start cs sys \<Longrightarrow> recv_at sys \<noteq> Self_blocked \<Longrightarrow>
    run_state (recv_step call env (recv_at sys)) (client sys) = (pc, t) \<Longrightarrow>
    system_run call env start cs (sys\<lparr>client := t, recv_at := pc\<rparr>)"
| Send: "system_run call env start cs sys \<Longrightarrow> recv_at sys \<noteq> Self_blocked \<Longrightarrow> send_at sys = Some cnt \<Longrightarrow>
    run_state (send_round env cnt) (client sys) = (next_cnt, t) \<Longrightarrow>
    system_run call env start cs (sys\<lparr>client := t, send_at := next_cnt\<rparr>)"
| Timer: "system_run call env start cs sys \<Longrightarrow> recv_at sys \<noteq> Self_blocked \<Longrightarrow> timer_on sys \<Longrightarrow>
    run_state (timer_step call env) (client sys) = (goes_on, t) \<Longrightarrow>
    system_run call env start cs (sys\<lparr>client := t, timer_on := goes_on\<rparr>)"
| Stop: "system_run call env start cs sys \<Longrightarrow> recv_at sys \<noteq> Self_blocked \<Longrightarrow>
    system_run call env start cs (sys\<lparr>client := (client sys)\<lparr>stopThreads := True\<rparr>\<rparr>)"

inductive_cases system_runE: "system_run call env start cs sys"

subsection \<open>The order of the mutexes\<close>

lemma unlocked_op: "unlocked s \<Longrightarrow> orderly n m \<Longrightarrow> unlocked (state_after m s)"
  by (rule unlocked_tidy [OF _ alongD])

definition starting :: "client_system \<Rightarrow> bool" where
  "starting sys \<longleftrightarrow> recv_at sys = Thread_restart \<and> send_at sys = Some 0 \<and> timer_on sys"

lemma self_blocked_history:
  assumes "unlocked s" "\<not> stopThreads s" "heartbeat_lost s"
  shows "locks [] (trace (state_after (recv_round call env) s)) = None"
  using run_recv_round_lost [OF assms(2,3,1), of call env] assms(1)
  by (simp add: unlocked_def locks_append)

context user_code
begin

lemma locks_of_run:
  assumes "system_run call env start cs sys" and "starting start" and "unlocked (client start)"
  shows "locks [] (trace (client sys)) = (if recv_at sys = Self_blocked then None else Some [])"
  using assms(1)
proof induction
  case Start
  then show ?case using assms(2,3) by (simp add: starting_def unlocked_def)
next
  case (Call cs sys c)
  then show ?case
    using unlocked_op [OF _ orderly_perform, of "client sys" env c] by (simp add: unlocked_def)
next
  case (Receive cs sys pc t)
  then show ?case
    using recv_step_result [of "client sys" "recv_at sys" env] self_blocked_history [of "client sys" call env]
      unlocked_tidy [of "client sys" 0 t]
    by (cases "pc = Self_blocked") (auto simp: unlocked_def recv_step_def split: if_splits)
next
  case (Send cs sys cnt next_cnt t)
  then show ?case
    using unlocked_op [OF _ orderly_send_round, of "client sys" env cnt] by (simp add: unlocked_def)
next
  case (Timer cs sys goes_on t)
  then show ?case
    using unlocked_op [OF _ orderly_timer_step, of "client sys" env] by (simp add: unlocked_def)
qed simp

end

text \<open>
  C11: In every reachable state of a client in service, whatever the user calls, the broker answers and
  the threads do, mutexes have only been taken in the order \<open>handle_mutex\<close>, \<open>timer_mutex\<close>,
  \<open>instanceMutex\<close>, \<open>conn_mutex\<close> and all have been released again; except that the receiving thread
  has blocked itself, by the lost heartbeat. The functions the client calls may call the client as
  they like, except that those for timeouts make no request and no notification.
\<close>

theorem lock_order_kept:
  assumes "system_run (reacting env react) env start cs sys" and "starting start"
    and "unlocked (client start)" and "timeouts_take_no_id react"
  shows "locks [] (trace (client sys)) = (if recv_at sys = Self_blocked then None else Some [])"
  by (rule user_code.locks_of_run [OF reacting_user_code [OF assms(4)] assms(1-3)])

definition sample_system :: "ExchangeType \<Rightarrow> client_system" where
  "sample_system type =
     \<lparr>client = sample_client type, recv_at = Thread_restart, send_at = Some 0, timer_on = True\<rparr>"

lemma sample_system_starts:
  "starting (sample_system type)" "unlocked (sample_client type)"
  "client (sample_system type) = sample_client type" "recv_at (sample_system type) = Thread_restart"
  by (simp_all add: starting_def sample_system_def unlocked_def)

definition sample_request :: api_call where
  "sample_request = Request (Some ''peer'') (Some ''ping'') 0 (Some ''{}'') (Some ()) 5000"

theorem lock_order_kept_witness:
  "locks [] (trace (state_after (perform sample_env sample_request) (sample_client p2ptype))) = Some []"
proof -
  have "system_run (reacting sample_env answer_requests) sample_env (sample_system p2ptype)
      ([] @ [sample_request]) ((sample_system p2ptype)\<lparr>client :=
        state_after (perform sample_env sample_request) (client (sample_system p2ptype))\<rparr>)"
    by (rule system_run.Call [OF system_run.Start]) (simp add: sample_system_starts)
  from lock_order_kept [OF this] show ?thesis by (simp add: sample_system_starts)
qed

end
