(* ===== verification/Shutdown.thy ===== *)
theory Shutdown
  imports System
begin

section \<open>The end of a client\<close>

text \<open>
  \<open>rabbitmq_free\<close> of theory \<open>Connection\<close> is one operation, whose joins are events. Here it is cut at
  its joins and interleaved with the threads it joins: a join lets it pass only when the thread has
  returned. The result is when \<open>rabbitmq_free\<close> comes to its end and when it waits for ever. No other
  thread calls the client meanwhile.
\<close>

subsection \<open>The parts of freeing\<close>

datatype free_pc = Join_send | Join_receive | Join_timer | Disconnect | Freed

definition free_begin :: "unit op" where
  "free_begin = do {
     emit (Printed ''start wrapper destroy.'');
     log ''start wrapper destroy.'';
     modify (\<lambda>s. s\<lparr>stopThreads := True\<rparr>)
   }"

fun free_step :: "free_pc \<Rightarrow> free_pc op" where
  "free_step Join_send = do {
     s \<leftarrow> State_Monad.get;
     only_if (send_thread s) (do { emit (Joined Send_thread); modify (\<lambda>s. s\<lparr>send_thread := False\<rparr>) });
     log ''send_thread complete.'';
     ret Join_receive
   }"
| "free_step Join_receive = do {
     s \<leftarrow> State_Monad.get;
     only_if (recv_thread s) (do { emit (Joined Receive_thread); modify (\<lambda>s. s\<lparr>recv_thread := False\<rparr>) });
     log ''recv_thread complete.'';
     ret Join_timer
   }"
| "free_step Join_timer = do {
     s \<leftarrow> State_Monad.get;
     only_if (timer_thread s) (do { emit (Joined Timer_thread); modify (\<lambda>s. s\<lparr>timer_thread := False\<rparr>) });
     log ''timer_thread complete.'';
     ret Disconnect
   }"
| "free_step Disconnect = do {
     s \<leftarrow> State_Monad.get;
     only_if (connection s \<noteq> None) (locked conn_mutex close_connection);
     log ''close socket and destroy connect complete.'';
     modify (\<lambda>s. s\<lparr>initialized := False\<rparr>);
     emit (Printed ''wrapper destroy complete.'');
     log ''RabbitMQWrapper destroy complete.'';
     ret Freed
   }"
| "free_step Freed = ret Freed"

text \<open>Without a break the parts are the operation.\<close>

lemma free_parts:
  assumes "initialized s"
  shows "run_state rabbitmq_free s = run_state (do {
    free_begin;
    pc \<leftarrow> free_step Join_send;
    pc \<leftarrow> free_step pc;
    pc \<leftarrow> free_step pc;
    pc \<leftarrow> free_step pc;
    ret ()
  }) s"
  using assms
  by (cases "send_thread s"; cases "recv_thread s"; cases "timer_thread s"; cases "connection s")
    (simp_all add: rabbitmq_free_def free_begin_def close_connection_def)

subsection \<open>Freeing and the threads\<close>

definition may_pass :: "free_pc \<Rightarrow> client_system \<Rightarrow> bool" where
  "may_pass pc sys \<longleftrightarrow> (case pc of
     Join_send \<Rightarrow> send_thread (client sys) \<longrightarrow> send_at sys = None
   | Join_receive \<Rightarrow> recv_thread (client sys) \<longrightarrow> recv_at sys = Returned
   | Join_timer \<Rightarrow> timer_thread (client sys) \<longrightarrow> \<not> timer_on sys
   | _ \<Rightarrow> True)"

text \<open>
  \<open>free_run call env start pc sys\<close>: a thread has called \<open>rabbitmq_free\<close> in \<open>start\<close> and is at \<open>pc\<close>, and
  the threads of the client have gone on to \<open>sys\<close>.
\<close>

inductive free_run ::
  "(callback_call \<Rightarrow> unit op) \<Rightarrow> environment \<Rightarrow> client_system \<Rightarrow> free_pc \<Rightarrow> client_system \<Rightarrow> bool"
  for call env start where
  Begin: "free_run call env start Join_send (start\<lparr>client := state_after free_begin (client start)\<rparr>)"
| Free: "free_run call env start pc sys \<Longrightarrow> may_pass pc sys \<Longrightarrow>
    run_state (free_step pc) (client sys) = (pc', t) \<Longrightarrow>
    free_run call env start pc' (sys\<lparr>client := t\<rparr>)"
| Receive: "free_run call env start pc sys \<Longrightarrow>
    run_state (recv_step call env (recv_at sys)) (client sys) = (at, t) \<Longrightarrow>
    free_run call env start pc (sys\<lparr>client := t, recv_at := at\<rparr>)"
| Send: "free_run call env start pc sys \<Longrightarrow> send_at sys = Some cnt \<Longrightarrow>
    run_state (send_round env cnt) (client sys) = (next_cnt, t) \<Longrightarrow>
    free_run call env start pc (sys\<lparr>client := t, send_at := next_cnt\<rparr>)"
| Timer: "free_run call env start pc sys \<Longrightarrow> timer_on sys \<Longrightarrow>
    run_state (timer_step call env) (client sys) = (goes_on, t) \<Longrightarrow>
    free_run call env start pc (sys\<lparr>client := t, timer_on := goes_on\<rparr>)"

inductive_cases free_runE: "free_run call env start pc sys"

lemma run_stopped:
  assumes "stopThreads s"
  shows "run_state (send_round env cnt) s = (None, s)" "run_state (timer_step call env) s = (False, s)"
    "run_state (recv_step call env Loop_test) s = (Returned, s)"
  using assms by (simp_all add: send_round_def timer_step_def recv_step_def recv_round_def)

text \<open>What a stopped client keeps while its threads end.\<close>

definition ending :: "RabbitMQWrapper \<Rightarrow> RabbitMQWrapper \<Rightarrow> bool" where
  "ending s t \<longleftrightarrow> stopThreads t = stopThreads s \<and> initialized t = initialized s \<and>
     recv_thread t = recv_thread s"

lemma ending_consume: "ending s (state_after (recv_consume env) s)"
  by (simp add: recv_consume_def amqp_basic_consume_def Let_def ending_def)

lemma restart_step:
  assumes "unlocked s" "\<And>h. reply_type (last_reply env h) \<noteq> AMQP_RESPONSE_NORMAL"
    and "run_state (recv_step call env Thread_restart) s = (pc, t)"
  shows "pc = Thread_restart \<and> unlocked t \<and> ending s t"
proof -
  have "result_of (recv_steps call env 1 Thread_restart) s = Thread_restart"
    by (rule restart_for_ever [OF assms(2,1)])
  then have pc: "pc = Thread_restart" using assms(3) by simp
  obtain r u where ru: "run_state (recv_consume env) s = (r, u)" by fastforce
  let ?u = "u\<lparr>trace := trace u @ [Logged (''amqp_basic_consume err: '' @ queue_name u), Slept 3000]\<rparr>"
  have "reply_type r \<noteq> AMQP_RESPONSE_NORMAL"
    using recv_consume_reply [of env s] assms(2) ru by (metis fst_conv)
  then have "t = state_after (ReconnectProc env) ?u"
    using assms(3) by (auto simp: recv_step_def run_recv_subscribe [OF ru] reconnect_restart_def split_beta)
  then have "ending s t"
    using ReconnectProc_kept [of ?u env] ending_consume [of s env] ru by (simp add: kept_def ending_def)
  moreover have "unlocked t"
    using unlocked_tidy [OF assms(1) carefulD [OF careful_subscribe assms(1), of env]] assms(3)
    by (simp add: recv_step_def)
  ultimately show ?thesis using pc by simp
qed

text \<open>A receiving thread that never returns: it waits for itself, or no subscription is accepted.\<close>

definition stuck_receiver :: "environment \<Rightarrow> client_system \<Rightarrow> bool" where
  "stuck_receiver env sys \<longleftrightarrow> recv_at sys = Self_blocked \<or>
     recv_at sys = Thread_restart \<and> unlocked (client sys) \<and>
     (\<forall>h. reply_type (last_reply env h) \<noteq> AMQP_RESPONSE_NORMAL)"

lemma stuck_run:
  assumes "free_run call env start pc sys" "recv_thread (client start)" "stuck_receiver env start"
  shows "pc \<in> {Join_send, Join_receive} \<and> stopThreads (client sys) \<and> recv_thread (client sys) \<and>
    initialized (client sys) = initialized (client start) \<and> stuck_receiver env sys"
  using assms(1)
proof induction
  case Begin
  then show ?case
    using assms(2,3) by (auto simp: free_begin_def stuck_receiver_def unlocked_def locks_append)
next
  case (Free pc sys pc' t)
  then have "pc = Join_send" by (auto simp: may_pass_def stuck_receiver_def)
  with Free show ?case
    by (cases "send_thread (client sys)") (auto simp: stuck_receiver_def unlocked_def locks_append)
next
  case (Receive pc sys at t)
  then show ?case
    using restart_step [of "client sys" env call at t]
    by (auto simp: stuck_receiver_def recv_step_def ending_def)
next
  case (Send pc sys cnt next_cnt t)
  then show ?case by (simp add: run_stopped stuck_receiver_def)
next
  case (Timer pc sys goes_on t)
  then show ?case by (simp add: run_stopped stuck_receiver_def)
qed

text \<open>The other case: the threads return, one after the other, and then \<open>rabbitmq_free\<close>.\<close>

lemma threads_end:
  assumes "free_run call env start pc sys" "stopThreads (client sys)" "recv_at sys = Loop_test \<or> recv_at sys = Returned"
  obtains sys' where "free_run call env start pc sys'" "client sys' = client sys"
    "send_at sys' = None" "recv_at sys' = Returned" "\<not> timer_on sys'"
proof -
  let ?s = "client sys"
  have recv: "free_run call env start pc (sys\<lparr>recv_at := Returned\<rparr>)"
  proof (cases "recv_at sys")
    case Loop_test
    then show ?thesis
      using free_run.Receive [OF assms(1), of Returned ?s] run_stopped(3) [OF assms(2), of call env] by simp
  next
    case Returned
    then show ?thesis using assms(1) by (cases sys) simp
  qed (use assms(3) in simp_all)
  have send: "free_run call env start pc (sys\<lparr>recv_at := Returned, send_at := None\<rparr>)"
  proof (cases "send_at sys")
    case None
    then show ?thesis using recv by (cases sys) simp
  next
    case (Some cnt)
    then show ?thesis
      using free_run.Send [OF recv, of cnt None ?s] run_stopped(1) [OF assms(2), of env cnt] by simp
  qed
  have "free_run call env start pc (sys\<lparr>recv_at := Returned, send_at := None, timer_on := False\<rparr>)"
  proof (cases "timer_on sys")
    case True
    then show ?thesis
      using free_run.Timer [OF send, of False ?s] run_stopped(2) [OF assms(2), of call env] by simp
  next
    case False
    then show ?thesis using send by (cases sys) simp
  qed
  then show thesis by (rule that) simp_all
qed

lemma free_comes_through:
  assumes "free_run call env start Join_send sys" "send_at sys = None" "recv_at sys = Returned" "\<not> timer_on sys"
  shows "\<exists>sys'. free_run call env start Freed sys' \<and> connection (client sys') = NULL \<and>
    \<not> initialized (client sys')"
proof -
  have step: "\<exists>sys'. free_run call env start (result_of (free_step pc) (client sys)) sys' \<and>
      client sys' = state_after (free_step pc) (client sys) \<and>
      send_at sys' = None \<and> recv_at sys' = Returned \<and> \<not> timer_on sys'"
    if "free_run call env start pc sys" "send_at sys = None" "recv_at sys = Returned" "\<not> timer_on sys" for pc sys
  proof -
    have "may_pass pc sys" using that(2-4) by (cases pc) (simp_all add: may_pass_def)
    from free_run.Free [OF that(1) this surjective_pairing] that(2-4) show ?thesis
      by (intro exI [of _ "sys\<lparr>client := state_after (free_step pc) (client sys)\<rparr>"]) simp
  qed
  have pcs: "result_of (free_step Join_send) s = Join_receive" "result_of (free_step Join_receive) s = Join_timer"
    "result_of (free_step Join_timer) s = Disconnect" "result_of (free_step Disconnect) s = Freed" for s
    by (simp_all add: split_beta)
  obtain s1 where s1: "free_run call env start Join_receive s1" "send_at s1 = None" "recv_at s1 = Returned" "\<not> timer_on s1"
    using step [OF assms] unfolding pcs by blast
  obtain s2 where s2: "free_run call env start Join_timer s2" "send_at s2 = None" "recv_at s2 = Returned" "\<not> timer_on s2"
    using step [OF s1] unfolding pcs by blast
  obtain s3 where s3: "free_run call env start Disconnect s3" "send_at s3 = None" "recv_at s3 = Returned" "\<not> timer_on s3"
    using step [OF s2] unfolding pcs by blast
  obtain s4 where s4: "free_run call env start Freed s4" "client s4 = state_after (free_step Disconnect) (client s3)"
    using step [OF s3] unfolding pcs by blast
  have "connection (client s4) = NULL \<and> \<not> initialized (client s4)"
    by (cases "connection (client s3)") (simp_all add: s4(2) close_connection_def)
  with s4(1) show ?thesis by blast
qed

section \<open>Properties of the end\<close>

text \<open>
  C18: \<open>rabbitmq_free\<close> of an initialized client waits for its receiving thread, while no other
  thread calls the client. If that thread has blocked itself, or is at \<open>thread_restart\<close> with no
  mutex held and the broker accepts no subscription, then however the rounds of the threads and the parts of
  \<open>rabbitmq_free\<close> interleave, \<open>rabbitmq_free\<close> never passes its second join, and
  the client stays initialized. If the receiving thread is at the test of its loop, or at
  \<open>thread_restart\<close> and the broker accepts the subscription, there is a run in which
  \<open>rabbitmq_free\<close> comes to its end, with the connection gone and the client uninitialized.
\<close>

theorem free_waits_for_receiver:
  assumes "recv_thread (client start)" and "initialized (client start)"
  shows "(stuck_receiver env start \<longrightarrow> (\<forall>pc sys. free_run call env start pc sys \<longrightarrow>
      pc \<in> {Join_send, Join_receive} \<and> initialized (client sys))) \<and>
    (recv_at start = Loop_test \<or>
      recv_at start = Thread_restart \<and> (\<forall>h. reply_type (last_reply env h) = AMQP_RESPONSE_NORMAL) \<longrightarrow>
     (\<exists>sys. free_run call env start Freed sys \<and> connection (client sys) = NULL \<and> \<not> initialized (client sys)))"
proof (intro conjI impI allI)
  fix pc sys
  assume "stuck_receiver env start" "free_run call env start pc sys"
  from stuck_run [OF this(2) assms(1) this(1)] assms(2)
  show "pc \<in> {Join_send, Join_receive}" "initialized (client sys)" by simp_all
next
  assume start: "recv_at start = Loop_test \<or>
    recv_at start = Thread_restart \<and> (\<forall>h. reply_type (last_reply env h) = AMQP_RESPONSE_NORMAL)"
  let ?begun = "start\<lparr>client := state_after free_begin (client start)\<rparr>"
  have begun: "free_run call env start Join_send ?begun" "stopThreads (client ?begun)"
    by (rule free_run.Begin) (simp add: free_begin_def)
  have "\<exists>sys. free_run call env start Join_send sys \<and> stopThreads (client sys) \<and> recv_at sys = Loop_test"
  proof (cases "recv_at start = Loop_test")
    case True
    then show ?thesis using begun by (intro exI [of _ ?begun]) simp
  next
    case False
    then have at: "recv_at ?begun = Thread_restart" and reply: "reply_type (last_reply env h) = AMQP_RESPONSE_NORMAL" for h
      using start by simp_all
    obtain r t where rt: "run_state (recv_consume env) (client ?begun) = (r, t)" by fastforce
    have "reply_type r = AMQP_RESPONSE_NORMAL"
      using recv_consume_reply [of env "client ?begun"] reply rt by (metis fst_conv)
    then have "run_state (recv_step call env (recv_at ?begun)) (client ?begun) = (Loop_test, t)"
      using run_recv_subscribe [OF rt] by (simp add: at recv_step_def)
    moreover have "stopThreads t"
      using begun(2) recv_consume_keeps [of env "client ?begun"] rt by simp
    ultimately show ?thesis using free_run.Receive [OF begun(1)] by (intro exI [of _ "?begun\<lparr>client := t, recv_at := Loop_test\<rparr>"]) simp
  qed
  then obtain sys where "free_run call env start Join_send sys" "stopThreads (client sys)" "recv_at sys = Loop_test"
    by blast
  from threads_end [OF this(1,2)] this(3) show "\<exists>sys. free_run call env start Freed sys \<and>
      connection (client sys) = NULL \<and> \<not> initialized (client sys)"
    using free_comes_through by metis
qed

theorem free_waits_for_receiver_witness:
  "(\<exists>sys. free_run silent sample_env (sample_system p2ptype\<lparr>client := sample_client p2ptype\<lparr>recv_thread := True, initialized := True\<rparr>\<rparr>) Freed sys) \<and>
   \<not> (\<exists>sys. free_run silent (sample_env\<lparr>last_reply := (\<lambda>_. sample_reply AMQP_RESPONSE_SERVER_EXCEPTION)\<rparr>)
     (sample_system p2ptype\<lparr>client := sample_client p2ptype\<lparr>recv_thread := True, initialized := True\<rparr>\<rparr>) Freed sys)"
proof -
  let ?sys = "sample_system p2ptype\<lparr>client := sample_client p2ptype\<lparr>recv_thread := True, initialized := True\<rparr>\<rparr>"
  let ?env = "sample_env\<lparr>last_reply := (\<lambda>_. sample_reply AMQP_RESPONSE_SERVER_EXCEPTION)\<rparr>"
  have recv: "recv_thread (client ?sys)" "initialized (client ?sys)" by simp_all
  have "recv_at ?sys = Thread_restart" by (simp add: sample_system_def)
  moreover have "stuck_receiver ?env ?sys" by (simp add: stuck_receiver_def unlocked_def sample_system_def)
  ultimately show ?thesis
    using free_waits_for_receiver [OF recv, of sample_env silent] free_waits_for_receiver [OF recv, of ?env silent]
    by auto
qed

end
