(* ===== verification/Deadlock.thy ===== *)
theory Deadlock
  imports System
begin

section \<open>Threads that run operations do not deadlock\<close>

text \<open>
  A machine of several threads that share the mutexes, each working through the events of one
  operation of the client: a thread takes the next event of its operation unless that is the locking of
  a mutex which some thread holds. Here the operations do interleave, at every event. The lock
  discipline of the operations (theory \<open>Lock_Order\<close>) makes this machine free of deadlock: as long as an
  operation is unfinished some thread can go on, and every schedule comes to an end.
\<close>

subsection \<open>The machine\<close>

text \<open>A thread: the events it has done and those it still has to do.\<close>

type_synonym thread_at = "event list \<times> event list"

definition mutexes_held :: "thread_at list \<Rightarrow> mutex set" where
  "mutexes_held ts = (\<Union>(past, todo)\<in>set ts. set (held past))"

definition may_go :: "thread_at list \<Rightarrow> thread_at \<Rightarrow> bool" where
  "may_go ts th \<longleftrightarrow> (case snd th of [] \<Rightarrow> False | Lock m # _ \<Rightarrow> m \<notin> mutexes_held ts | _ \<Rightarrow> True)"

definition go :: "thread_at \<Rightarrow> thread_at" where
  "go th = (fst th @ take 1 (snd th), drop 1 (snd th))"

inductive machine_step :: "thread_at list \<Rightarrow> thread_at list \<Rightarrow> bool" where
  Go: "i < length ts \<Longrightarrow> may_go ts (ts ! i) \<Longrightarrow> machine_step ts (ts[i := go (ts ! i)])"

inductive_cases machine_stepE: "machine_step ts us"

definition about_to :: "event list list \<Rightarrow> thread_at list" where
  "about_to programs = map (\<lambda>es. ([], es)) programs"

definition all_done :: "thread_at list \<Rightarrow> bool" where
  "all_done ts \<longleftrightarrow> (\<forall>th\<in>set ts. snd th = [])"

subsection \<open>Disciplined threads\<close>

text \<open>Each thread takes its mutexes in order and releases them all by its end.\<close>

definition disciplined :: "thread_at \<Rightarrow> bool" where
  "disciplined th \<longleftrightarrow> locks [] (fst th @ snd th) = Some []"

lemma go_disciplined: "disciplined th \<Longrightarrow> disciplined (go th)"
  by (cases "snd th") (simp_all add: disciplined_def go_def)

lemma machine_step_disciplined:
  assumes "machine_step ts us" "list_all disciplined ts"
  shows "list_all disciplined us"
  using assms by (auto elim!: machine_stepE simp: list_all_length nth_list_update go_disciplined)

lemma machine_steps_disciplined:
  "machine_step\<^sup>*\<^sup>* ts us \<Longrightarrow> list_all disciplined ts \<Longrightarrow> list_all disciplined us"
  by (induction rule: rtranclp_induct) (simp_all add: machine_step_disciplined)

lemma disciplined_past:
  assumes "disciplined th"
  shows "locks [] (fst th) = Some (held (fst th))"
  using assms by (auto simp: disciplined_def held_def locks_append split: option.splits)

text \<open>A thread that holds a mutex has not finished, and locks only mutexes above those it holds.\<close>

lemma holder_unfinished:
  assumes "disciplined th" "m \<in> set (held (fst th))"
  shows "snd th \<noteq> []"
  using assms disciplined_past [OF assms(1)] by (auto simp: disciplined_def locks_append)

lemma locks_upwards:
  assumes "disciplined th" "snd th = Lock n # rest" "m \<in> set (held (fst th))"
  shows "m < n"
proof -
  have "locks (held (fst th)) (Lock n # rest) \<noteq> None"
    using assms(1,2) disciplined_past [OF assms(1)] by (simp add: disciplined_def locks_append)
  then have "list_all (\<lambda>h. h < n) (held (fst th))"
    by (auto split: if_splits)
  then show ?thesis using assms(3) by (simp add: list_all_iff)
qed

text \<open>A thread that cannot go on waits for a mutex; one that waits for the highest can.\<close>

lemma stuck_waits:
  assumes "snd th \<noteq> []" "\<not> may_go ts th"
  obtains n rest where "snd th = Lock n # rest" "n \<in> mutexes_held ts"
  using assms by (cases "snd th") (auto simp: may_go_def split: event.splits)

definition wanted :: "thread_at \<Rightarrow> nat" where
  "wanted th = (case snd th of Lock m # _ \<Rightarrow> mutex_rank m | _ \<Rightarrow> 0)"

lemma some_thread_goes:
  assumes "list_all disciplined ts" "\<not> all_done ts"
  shows "\<exists>th\<in>set ts. may_go ts th"
proof (rule ccontr)
  assume stuck: "\<not> ?thesis"
  let ?U = "{th \<in> set ts. snd th \<noteq> []}"
  have U: "finite (wanted ` ?U)" by simp
  obtain any where "any \<in> set ts" "snd any \<noteq> []" using assms(2) by (auto simp: all_done_def)
  then have "wanted ` ?U \<noteq> {}" by blast
  from Max_in [OF U this] obtain th where th: "th \<in> ?U" "Max (wanted ` ?U) = wanted th" by blast
  have top: "wanted other \<le> wanted th" if "other \<in> ?U" for other
    using Max_ge [OF U imageI [OF that]] th(2) by simp
  obtain n rest where n: "snd th = Lock n # rest" "n \<in> mutexes_held ts"
    using th(1) stuck stuck_waits [of th ts] by blast
  then obtain holder where holder: "holder \<in> set ts" "n \<in> set (held (fst holder))"
    by (auto simp: mutexes_held_def)
  have good: "disciplined holder" using assms(1) holder(1) by (simp add: list_all_iff)
  have unfinished: "holder \<in> ?U" using holder holder_unfinished [OF good] by blast
  then obtain k rest' where k: "snd holder = Lock k # rest'"
    using stuck stuck_waits [of holder ts] by blast
  have "wanted th < wanted holder"
    using locks_upwards [OF good k holder(2)] n(1) k by (simp add: wanted_def less_mutex_def)
  with top [OF unfinished] show False by simp
qed

text \<open>Every step leaves less to do.\<close>

definition work :: "thread_at list \<Rightarrow> nat" where
  "work ts = sum_list (map (\<lambda>th. length (snd th)) ts)"

lemma machine_step_work:
  assumes "machine_step ts us"
  shows "work us < work ts"
  using assms
proof cases
  case (Go i)
  have pos: "snd (ts ! i) \<noteq> []" using Go(3) by (auto simp: may_go_def)
  have "map (\<lambda>th. length (snd th)) us = (map (\<lambda>th. length (snd th)) ts)[i := length (snd (ts ! i)) - 1]"
    unfolding Go(1) map_update by (simp add: go_def)
  moreover have "sum_list ((map (\<lambda>th. length (snd th)) ts)[i := length (snd (ts ! i)) - 1]) =
      work ts - 1"
    using Go(2) pos elem_le_sum_list [of i "map (\<lambda>th. length (snd th)) ts"]
    by (simp add: sum_list_update work_def neq_Nil_conv) (cases "snd (ts ! i)", auto)
  moreover have "1 \<le> work ts"
    using Go(2) pos elem_le_sum_list [of i "map (\<lambda>th. length (snd th)) ts"]
    by (cases "snd (ts ! i)") (simp_all add: work_def)
  ultimately show ?thesis by (simp add: work_def)
qed

subsection \<open>The operations of the client\<close>

text \<open>The events that an operation causes from a state.\<close>

definition events_of :: "'a op \<Rightarrow> RabbitMQWrapper \<Rightarrow> event list" where
  "events_of m s = drop (length (trace s)) (trace (state_after m s))"

text \<open>
  The operations that the threads of a client run: the calls of its user, and the rounds of its own
  threads with what the user's functions do in them, except the round of the receiving thread that
  finds the heartbeat lost. What an operation does is taken from any state and any behaviour of the
  outside; of the user's functions only their contract (\<open>user_code\<close>) is used.
\<close>

inductive operation :: "event list \<Rightarrow> bool" where
  Call: "operation (events_of (perform env c) s)"
| Send: "operation (events_of (send_round env cnt) s)"
| Timer: "user_code call \<Longrightarrow> operation (events_of (timer_step call env) s)"
| Receive: "user_code call \<Longrightarrow> unlocked s \<Longrightarrow> pc \<noteq> Self_blocked \<Longrightarrow>
    pc \<noteq> Loop_test \<or> stopThreads s \<or> \<not> heartbeat_lost s \<Longrightarrow>
    operation (events_of (recv_step call env pc) s)"

lemma tidy_events_of: "tidy n s (state_after m s) \<Longrightarrow> locks [] (events_of m s) = Some []"
  by (auto simp: tidy_def events_of_def)

lemma operation_locks: "operation es \<Longrightarrow> locks [] es = Some []"
proof (induction rule: operation.induct)
  case (Timer call env s)
  then show ?case by (rule tidy_events_of [OF alongD [OF user_code.orderly_timer_step]])
next
  case (Receive call s pc env)
  then have "tidy 0 s (state_after (recv_step call env pc) s)"
    using user_code.recv_step_result [of call s pc env] by (auto split: if_splits)
  then show ?case by (rule tidy_events_of)
qed (rule tidy_events_of, rule alongD, rule orderly_perform orderly_send_round)+

section \<open>The property\<close>

text \<open>
  C10: Threads that run operations of the client at the same time, interleaved at every event, do not
  deadlock on its mutexes: whatever has happened so far, either all operations are complete or some
  thread can go on; and every step leaves less to do, so every schedule completes all of them. The
  operations are the calls of the interface that a client in service gets and the rounds of its
  threads; starting and freeing the client (\<open>rabbitmq_init\<close>, \<open>rabbitmq_free\<close>, \<open>MidwareClientDestroy\<close>)
  are not among them. The functions that the operations call may call the client in turn, as their
  contract allows. Excepted is the round of the receiving thread that finds the heartbeat lost.
\<close>

theorem operations_do_not_deadlock:
  assumes "\<forall>es\<in>set programs. operation es" and "machine_step\<^sup>*\<^sup>* (about_to programs) ts"
  shows "(all_done ts \<or> (\<exists>us. machine_step ts us)) \<and> (\<forall>us. machine_step ts us \<longrightarrow> work us < work ts)"
proof -
  have "list_all disciplined (about_to programs)"
    using assms(1) by (auto simp: list_all_iff about_to_def disciplined_def operation_locks)
  then have "list_all disciplined ts" by (rule machine_steps_disciplined [OF assms(2)])
  then have "all_done ts \<or> (\<exists>th\<in>set ts. may_go ts th)" using some_thread_goes by blast
  then show ?thesis
    using machine_step.Go machine_step_work by (metis in_set_conv_nth)
qed

theorem operations_do_not_deadlock_witness:
  "\<exists>us. machine_step (about_to
     [events_of (perform sample_env sample_request) (sample_client p2ptype),
      events_of (recv_step (reacting sample_env answer_requests) sample_env Thread_restart) (sample_client p2ptype)]) us"
proof -
  let ?programs = "[events_of (perform sample_env sample_request) (sample_client p2ptype),
      events_of (recv_step (reacting sample_env answer_requests) sample_env Thread_restart) (sample_client p2ptype)]"
  have "\<forall>es\<in>set ?programs. operation es"
    using operation.Call operation.Receive [OF reacting_user_code sample_system_starts(2)] by simp
  moreover have "\<not> all_done (about_to ?programs)"
  proof -
    have "trace (state_after (recv_step (reacting sample_env answer_requests) sample_env Thread_restart) (sample_client p2ptype)) \<noteq> []"
      by (simp add: recv_step_def recv_subscribe_def recv_consume_def amqp_basic_consume_def)
    then show ?thesis by (simp add: all_done_def about_to_def events_of_def)
  qed
  ultimately show ?thesis using operations_do_not_deadlock by blast
qed

section \<open>Two mutexes for one map\<close>

text \<open>Operations that take different mutexes can both be inside.\<close>

lemma two_sections:
  assumes "a \<noteq> b" "\<not> is_lock_event e" "\<not> is_lock_event e'"
  shows "machine_step\<^sup>*\<^sup>* (about_to [[Lock a, e, Unlock a], [Lock b, e', Unlock b]])
    [([Lock a, e], [Unlock a]), ([Lock b, e'], [Unlock b])]"
proof -
  let ?A0 = "([], [Lock a, e, Unlock a]) :: thread_at" and ?A1 = "([Lock a], [e, Unlock a]) :: thread_at"
  let ?A2 = "([Lock a, e], [Unlock a]) :: thread_at"
  let ?B0 = "([], [Lock b, e', Unlock b]) :: thread_at" and ?B1 = "([Lock b], [e', Unlock b]) :: thread_at"
  let ?B2 = "([Lock b, e'], [Unlock b]) :: thread_at"
  have work_on: "may_go ts (past, e # rest)" "may_go ts (past, e' # rest)" for ts past rest
    using assms(2,3) by (auto simp: may_go_def split: event.splits)
  have holds: "held [Lock a, e] = [a]" using assms(2) by (simp add: held_def)
  have "machine_step [?A0, ?B0] [?A1, ?B0]"
    using machine_step.Go [of 0 "[?A0, ?B0]"] by (simp add: may_go_def go_def mutexes_held_def held_def)
  moreover have "machine_step [?A1, ?B0] [?A2, ?B0]"
    using machine_step.Go [of 0 "[?A1, ?B0]"] work_on by (simp add: go_def)
  moreover have "machine_step [?A2, ?B0] [?A2, ?B1]"
    using machine_step.Go [of 1 "[?A2, ?B0]"] assms(1) holds
    by (simp add: may_go_def go_def mutexes_held_def held_def [of "[]"])
  moreover have "machine_step [?A2, ?B1] [?A2, ?B2]"
    using machine_step.Go [of 1 "[?A2, ?B1]"] work_on by (simp add: go_def)
  ultimately have "machine_step\<^sup>*\<^sup>* [?A0, ?B0] [?A2, ?B2]"
    by (meson rtranclp.rtrancl_refl rtranclp.rtrancl_into_rtrancl)
  then show ?thesis by (simp add: about_to_def)
qed

text \<open>
  C27: The map of the topic callbacks has two mutexes and so none: a subscription writes it under
  \<open>conn_mutex\<close>, the receiving thread reads it under \<open>handle_mutex\<close>. There is a schedule in which both
  are inside at once: the subscription with its binding made and its callback being registered, the
  receiving thread in the callback it has found by going through the map.
\<close>

theorem subscription_during_dispatch:
  assumes "exchange_type s = topictype" and "topic \<noteq> []" and "exchange_type r = topictype"
    and "find (\<lambda>e. matches_key env (fst e) routing) (routing_key_callbacks r) = Some (k, f)"
  shows "\<exists>past past'. machine_step\<^sup>*\<^sup>*
      (about_to [events_of (subscribleTopicMsg env topic g inst) s,
        events_of (handle_message silent env routing msg p) r])
      [(past, [Unlock conn_mutex]), (past', [Unlock handle_mutex])] \<and>
    held past = [conn_mutex] \<and> held past' = [handle_mutex] \<and>
    (\<exists>queue. bind_event env s queue topic \<in> set past) \<and>
    Called (CB_TOPIC f routing msg (sender p) (trans p)) \<in> set past' \<and>
    routing_key_callbacks (state_after (subscribleTopicMsg env topic g inst) s) =
      map_assign topic g (routing_key_callbacks s)"
proof -
  let ?q = "if inst = None then queue_name s else queue_name_self s"
  let ?bind = "bind_event env s ?q topic" and ?call = "Called (CB_TOPIC f routing msg (sender p) (trans p))"
  have subscribe: "events_of (subscribleTopicMsg env topic g inst) s = [Lock conn_mutex, ?bind, Unlock conn_mutex]"
    using assms(1,2) by (simp add: events_of_def run_subscribe)
  have dispatch: "events_of (handle_message silent env routing msg p) r = [Lock handle_mutex, ?call, Unlock handle_mutex]"
    using assms(3,4) by (simp add: events_of_def handle_message_def run_topicHandleMessage)
  have "machine_step\<^sup>*\<^sup>* (about_to [[Lock conn_mutex, ?bind, Unlock conn_mutex], [Lock handle_mutex, ?call, Unlock handle_mutex]])
      [([Lock conn_mutex, ?bind], [Unlock conn_mutex]), ([Lock handle_mutex, ?call], [Unlock handle_mutex])]"
    by (rule two_sections) (simp_all add: bind_event_def)
  moreover have "held [Lock conn_mutex, ?bind] = [conn_mutex]" "held [Lock handle_mutex, ?call] = [handle_mutex]"
    by (simp_all add: held_def bind_event_def)
  moreover have "routing_key_callbacks (state_after (subscribleTopicMsg env topic g inst) s) =
      map_assign topic g (routing_key_callbacks s)"
    using assms(1,2) by (simp add: run_subscribe)
  ultimately show ?thesis unfolding subscribe dispatch by (meson list.set_intros)
qed

theorem subscription_during_dispatch_witness:
  "\<exists>ts. machine_step\<^sup>*\<^sup>* (about_to [events_of (subscribleTopicMsg sample_env ''b'' 5 NULL) (sample_client topictype),
      events_of (handle_message silent sample_env ''a'' ''m'' sample_props)
        (sample_client topictype\<lparr>routing_key_callbacks := [(''a'', 4)]\<rparr>)]) ts \<and>
    map (\<lambda>th. held (fst th)) ts = [[conn_mutex], [handle_mutex]]"
proof -
  have "matches_key sample_env ''a'' ''a''"
    by (simp add: matches_key_def MatchRoutingKey_plain plain_pattern_def ordinary_def special_chars_def)
  then have "find (\<lambda>e. matches_key sample_env (fst e) ''a'')
      (routing_key_callbacks (sample_client topictype\<lparr>routing_key_callbacks := [(''a'', 4)]\<rparr>)) = Some (''a'', 4)"
    by simp
  from subscription_during_dispatch [OF _ _ _ this, of "sample_client topictype" "''b''" 5 NULL "''m''" sample_props]
  obtain past past' where "machine_step\<^sup>*\<^sup>* (about_to [events_of (subscribleTopicMsg sample_env ''b'' 5 NULL) (sample_client topictype),
      events_of (handle_message silent sample_env ''a'' ''m'' sample_props)
        (sample_client topictype\<lparr>routing_key_callbacks := [(''a'', 4)]\<rparr>)])
      [(past, [Unlock conn_mutex]), (past', [Unlock handle_mutex])]"
    "held past = [conn_mutex]" "held past' = [handle_mutex]"
    by auto
  then show ?thesis by (intro exI [of _ "[(past, [Unlock conn_mutex]), (past', [Unlock handle_mutex])]"]) simp
qed

end
