(* ===== verification/Service.thy ===== *)
theory Service
  imports System
begin

section \<open>A client in service\<close>

text \<open>
  What every step of a client in service keeps. Most operations leave alone what ties a client to the
  broker: its names, its recorded keys and its bindings there. The locale \<open>service_relation\<close> lifts a
  relation that such operations respect to whole runs of the system; it is interpreted for clients of
  each type, here for those that are bound to one key from the start, in theory \<open>Topic_Runs\<close> for
  topic clients.
\<close>

subsection \<open>What the log tells about connecting\<close>

abbreviation connect_errors :: "string set" where
  "connect_errors \<equiv> {''Error opening socket'', ''Login failed!'', ''Failed to open channel''}"

fun attempt_step :: "bool \<Rightarrow> event \<Rightarrow> bool" where
  "attempt_step b (Library Amqp_new_connection) = False"
| "attempt_step b (Logged l) = (b \<or> l \<in> connect_errors)"
| "attempt_step b e = b"

text \<open>An error has been logged since the last connection was made.\<close>

definition connect_failed :: "event list \<Rightarrow> bool" where
  "connect_failed es = foldl attempt_step False es"

lemma connect_failed_append: "connect_failed (es @ fs) = foldl attempt_step (connect_failed es) fs"
  by (simp add: connect_failed_def)

subsection \<open>Operations that leave the client's ties alone\<close>

fun touches_bindings :: "event \<Rightarrow> bool" where
  "touches_bindings (Library Amqp_new_connection) = True"
| "touches_bindings (Library (Amqp_rpc c ch (Topology (Rpc_queue_bind q x k t)))) = True"
| "touches_bindings (Library (Amqp_rpc c ch (Topology (Rpc_queue_unbind q x k t)))) = True"
| "touches_bindings e = False"

lemma untouched_step:
  assumes "\<not> touches_bindings e"
  shows "bind_step B e = B" and "b \<Longrightarrow> attempt_step b e"
  using assms by (cases e rule: touches_bindings.cases; simp)+

lemma untouched_events:
  assumes "list_all (\<lambda>e. \<not> touches_bindings e) es"
  shows "session_bindings (h @ es) = session_bindings h" and "connect_failed h \<Longrightarrow> connect_failed (h @ es)"
  using assms
  by (induction es rule: rev_induct)
    (simp_all add: session_bindings_append connect_failed_append untouched_step)

definition ties_kept :: "RabbitMQWrapper \<Rightarrow> RabbitMQWrapper \<Rightarrow> bool" where
  "ties_kept s t \<longleftrightarrow> instance_set t = instance_set s \<and> instanceType t = instanceType s \<and>
     exchange_type t = exchange_type s \<and> m_module_name t = m_module_name s \<and>
     queue_name t = queue_name s \<and> queue_name_self t = queue_name_self s \<and>
     exchange_name t = exchange_name s \<and>
     bound_routing_keys_share t = bound_routing_keys_share s \<and>
     bound_routing_keys_self t = bound_routing_keys_self s \<and>
     routing_key_callbacks t = routing_key_callbacks s"

definition quiet :: "RabbitMQWrapper \<Rightarrow> RabbitMQWrapper \<Rightarrow> bool" where
  "quiet s t \<longleftrightarrow> (instance_set s \<longrightarrow> ties_kept s t \<and> stClientCBHandle t = stClientCBHandle s \<and>
     (\<exists>es. trace t = trace s @ es \<and> list_all (\<lambda>e. \<not> touches_bindings e) es))"

lemma quiet_events:
  "ties_kept s t \<Longrightarrow> stClientCBHandle t = stClientCBHandle s \<Longrightarrow> trace t = trace s @ es \<Longrightarrow>
    list_all (\<lambda>e. \<not> touches_bindings e) es \<Longrightarrow> quiet s t"
  by (auto simp: quiet_def)

named_theorems quiet_intros

interpretation quiet: emit_relation quiet "\<lambda>e. \<not> touches_bindings e"
proof unfold_locales
  show "quiet s s" for s by (simp add: quiet_def ties_kept_def)
  show "quiet s t \<Longrightarrow> quiet t u \<Longrightarrow> quiet s u" for s t u
    by (cases "instance_set s") (auto simp: quiet_def ties_kept_def)
  show "\<not> touches_bindings e \<Longrightarrow> quiet s (s\<lparr>trace := trace s @ [e]\<rparr>)" for e s
    by (rule quiet_events [where es = "[e]"]) (simp_all add: ties_kept_def)
qed simp_all

declare quiet.along_intros [quiet_intros] quiet.emit_intros [quiet_intros]
  quiet.along_emit [quiet_intros]

lemma quiet_locked [quiet_intros]: "along quiet f \<Longrightarrow> along quiet (locked m f)"
  unfolding locked_def by (intro quiet_intros) simp_all

lemma quiet_modify [quiet_intros]:
  "(\<And>s. ties_kept s (f s)) \<Longrightarrow> (\<And>s. stClientCBHandle (f s) = stClientCBHandle s) \<Longrightarrow>
    (\<And>s. trace (f s) = trace s) \<Longrightarrow> along quiet (modify f)"
  by (simp add: along_def quiet_def)

lemma quiet_instance [quiet_intros]: "along quiet (getInstance env type)"
proof (rule alongI)
  fix s
  show "quiet s (state_after (getInstance env type) s)"
  proof (cases "instance_set s")
    case True
    then show ?thesis
      by (intro quiet_events [where es = "[Lock instanceMutex, Unlock instanceMutex]"])
        (simp_all add: getInstance_set ties_kept_def)
  qed (simp add: quiet_def)
qed

lemma quiet_sends [quiet_intros]:
  "along quiet (SendRabbitmqMessage env routing msg inprops)"
  "along quiet (SendRabbitmqMessage_fanout env msg inprops)"
  unfolding SendRabbitmqMessage_def SendRabbitmqMessage_fanout_def check_published_def
    amqp_basic_publish_def Let_def
  by (intro quiet_intros; simp)+

lemma quiet_timers [quiet_intros]:
  "along quiet p2pReqTimerId"
  "along quiet (p2pAddTimerTask env i k msg interval props)"
  "along quiet (p2pRemoveTimerTask i)"
  unfolding p2pReqTimerId_def p2pAddTimerTask_def p2pRemoveTimerTask_def
  by (intro quiet_intros; simp add: ties_kept_def)+

lemma quiet_interface [quiet_intros]:
  "along quiet (publishTopicMsg env msg topic transinfo)"
  "along quiet (publishFanoutMsg env msg)"
  "along quiet (rmRequestMake env m n a b r timeout)"
  "along quiet (rmNotifyMake env m n a b r timeout)"
  "along quiet (rmReportMake env m n b)"
  "along quiet (rmRequestTempResponse env m i c d b)"
  "along quiet (rmRequestFinalResponse env m i c d b)"
  unfolding publishTopicMsg_def publishFanoutMsg_def rmRequestMake_def rmNotifyMake_def rmReportMake_def
    rmRequestTempResponse_def rmRequestFinalResponse_def make_call_def send_props_def GetModuleName_def Let_def
  by (intro quiet_intros; simp add: ties_kept_def)+

lemma quiet_rounds:
  "along quiet (send_round env cnt)"
  "along quiet (recv_consume env)"
  "along quiet (read_properties env props)"
proof -
  show "along quiet (read_properties env props)"
    unfolding read_properties_def
    by (cases "AmqpTable2IntProps (headers props) (uninit_props env)") (auto intro!: quiet_intros)
qed (unfold send_round_def recv_consume_def amqp_basic_consume_def Let_def;
  intro quiet_intros; simp add: ties_kept_def)+

text \<open>Setting the callbacks leaves everything else.\<close>

lemma set_handler_effect:
  assumes "instance_set s"
  shows "ties_kept s (state_after (rmSetMidMsgHandler env pfn) s) \<and>
    trace (state_after (rmSetMidMsgHandler env pfn) s) = trace s @ [Lock instanceMutex, Unlock instanceMutex]"
  using assms
  by (cases pfn) (simp_all add: rmSetMidMsgHandler_def p2pSetCallback_def getInstance_set ties_kept_def)

subsection \<open>Runs\<close>

text \<open>A relation that quiet operations and reconnections respect, whatever the state.\<close>

locale service_relation = emit_relation R "\<lambda>e. \<not> touches_bindings e"
  for R :: "RabbitMQWrapper \<Rightarrow> RabbitMQWrapper \<Rightarrow> bool" +
  fixes env :: environment
  assumes quiet_rel: "quiet s t \<Longrightarrow> R s t"
    and along_reconnect_locked: "along R (reconnect_locked env)"
begin

lemma rel_after: "R s t \<Longrightarrow> along R m \<Longrightarrow> R s (state_after m t)"
  by (rule rel_trans [OF _ alongD])

lemma along_quiet: "along quiet m \<Longrightarrow> along R m"
  by (erule along_mono) (rule quiet_rel)

lemma along_locked: "along R f \<Longrightarrow> along R (locked m f)"
  unfolding locked_def by (intro along_intros emit_intros along_emit) simp_all

lemma along_reconnect: "along R (ReconnectProc env)"
  unfolding ReconnectProc_def
  by (intro along_intros emit_intros along_emit along_locked along_reconnect_locked) simp_all

lemmas service_intros = along_intros emit_intros along_emit along_locked along_reconnect

lemma along_ignore: "along R m \<Longrightarrow> along R (ignore m)"
  unfolding ignore_def by (intro along_intros)

lemma along_perform:
  assumes "\<And>topic f inst. c = Subscribe_topic topic f inst \<Longrightarrow> along R (subscribleTopicMsg env topic f inst)"
    and "\<And>topic. c = Unsubscribe_topic topic \<Longrightarrow> along R (unSubscribleTopicMsg env topic)"
    and "\<And>pfn. c = Set_handler pfn \<Longrightarrow> along R (rmSetMidMsgHandler env pfn)"
  shows "along R (perform env c)"
  by (cases c) (simp_all add: along_ignore along_quiet quiet_interface assms)

end

text \<open>Functions of the user that respect the relation.\<close>

locale service_user = service_relation +
  fixes call :: "callback_call \<Rightarrow> unit op"
  assumes along_call: "along R (call c)"
begin

lemma along_timer: "along R (timer_step call env)"
proof -
  have proc: "along R (p2pTimeoutProc call task)" for task
    unfolding p2pTimeoutProc_def Let_def
    by (auto split: message_type_t.splits option.splits intro!: service_intros along_call)
  have set_tasks: "along R (modify (\<lambda>s. s\<lparr>timer_tasks := f s\<rparr>))" for f
    by (intro along_quiet quiet_modify) (simp_all add: ties_kept_def)
  have "along R (expire_loop call ids past todo)" for ids past todo
    by (induction todo arbitrary: past) (auto intro!: service_intros proc set_tasks)
  then show ?thesis
    unfolding timer_step_def timer_round_def Let_def by (intro service_intros) simp_all
qed

lemma along_dispatch: "along R (dispatch call env' es routing msg p)"
  by (induction es) (auto intro!: service_intros along_call)

lemma along_p2pHandle: "along R (p2pHandleMessage call env' routing msg p)"
proof -
  have task: "along R (p2pGetTimerTaskInfo i)" "along R (p2pRestartTimerTask env' i)" for i
    by (intro along_quiet; unfold p2pGetTimerTaskInfo_def p2pRestartTimerTask_def;
      intro quiet_intros; simp add: ties_kept_def)+
  have final: "along R (final_response call f p msg info)" for f info
    unfolding final_response_def
    by (intro service_intros along_call along_quiet [OF quiet_timers(3)])
  show ?thesis
    unfolding p2pHandleMessage_def Let_def
    by (intro along_bind along_get)
      (auto split: message_type_t.splits option.splits
        intro!: service_intros along_call task final along_quiet [OF quiet_interface(7)])
qed

lemma along_receive: "along R (receive_message call env' envelope)"
  unfolding receive_message_def handle_message_def topicHandleMessage_def fanoutHandleMessage_def
  by (intro service_intros along_dispatch along_p2pHandle along_quiet [OF quiet_rounds(3)]) simp_all

lemma along_recv_step: "along R (recv_step call env pc)"
proof -
  have restart: "along R (reconnect_restart env)"
    unfolding reconnect_restart_def by (intro service_intros)
  have "along R (recv_subscribe env)"
    unfolding recv_subscribe_def
    by (intro service_intros restart along_quiet [OF quiet_rounds(2)]) simp_all
  moreover have "along R (recv_reply call env r envelope)" for r envelope
    unfolding recv_reply_def by (intro service_intros restart along_receive) simp_all
  then have "along R (recv_round call env)"
    unfolding recv_round_def by (intro service_intros restart) simp_all
  ultimately show ?thesis by (cases pc) (simp_all add: recv_step_def along_return)
qed

lemma along_run:
  assumes "system_run call env start cs sys" and "\<And>c. c \<in> set cs \<Longrightarrow> along R (perform env c)"
  shows "R (client start) (client sys)"
  using assms
proof induction
  case Start
  show ?case by (rule rel_refl)
next
  case (Call cs sys c)
  then show ?case by (auto intro: rel_after)
next
  case (Receive cs sys pc t)
  then show ?case using rel_after [OF _ along_recv_step, of _ "client sys" "recv_at sys"] by simp
next
  case (Send cs sys cnt next_cnt t)
  then show ?case
    using rel_after [OF _ along_quiet [OF quiet_rounds(1)], of _ "client sys" env cnt] by simp
next
  case (Timer cs sys goes_on t)
  then show ?case using rel_after [OF _ along_timer, of _ "client sys"] by simp
next
  case (Stop cs sys)
  have "quiet (client sys) ((client sys)\<lparr>stopThreads := True\<rparr>)"
    by (rule quiet_events [where es = "[]"]) (simp_all add: ties_kept_def)
  then show ?case using Stop rel_trans quiet_rel by simp
qed

end

context service_relation
begin

text \<open>The functions that only record their call, and those that make calls which respect the relation.\<close>

lemma silent_user: "service_user R env silent"
  by unfold_locales (simp add: silent_def along_emit)

lemma reacting_user:
  assumes "\<And>h c a. a \<in> set (react h c) \<Longrightarrow> along R (perform env a)"
  shows "service_user R env (reacting env react)"
proof (unfold_locales, rule alongI)
  fix c and s :: RabbitMQWrapper
  let ?s = "s\<lparr>trace := trace s @ [Called c]\<rparr>"
  have performs: "along R (for_each calls (perform env))" if "\<And>a. a \<in> set calls \<Longrightarrow> along R (perform env a)" for calls
    using that by (induction calls) (auto intro!: along_intros)
  have "R s ?s" by (rule calm_step) simp
  moreover have "R ?s (state_after (for_each (react (trace ?s) c) (perform env)) ?s)"
    by (intro alongD performs assms)
  ultimately show "R s (state_after (reacting env react c) s)"
    using rel_trans by (simp add: run_reacting)
qed

end

subsection \<open>Names and connections\<close>

text \<open>The names that \<open>SetupExchgQueChannel\<close> gives a client; connecting again does not change them.\<close>

definition standard_names :: "RabbitMQWrapper \<Rightarrow> bool" where
  "standard_names s \<longleftrightarrow> (case exchange_type s of
     p2ptype \<Rightarrow> queue_name s = m_module_name s @ ''-'' @ RBMQ_P2P_QUE_PRE \<and> exchange_name s = RBMQ_P2P_EXCHG
   | topictype \<Rightarrow> queue_name s = m_module_name s @ ''-'' @ RBMQ_TOPIC_QUE_PRE \<and>
       exchange_name s = RBMQ_TOPIC_EXCHG \<and> queue_name_self s \<noteq> []
   | broadcasttype \<Rightarrow> queue_name s = m_module_name s @ ''-'' @ RBMQ_BROAD_QUE_PRE \<and>
       exchange_name s = RBMQ_BROAD_EXCHG
   | Unlisted_exchange_type i \<Rightarrow> False)"

definition names_hold :: "RabbitMQWrapper \<Rightarrow> RabbitMQWrapper \<Rightarrow> bool" where
  "names_hold s t \<longleftrightarrow> (standard_names s \<longrightarrow>
     exchange_type t = exchange_type s \<and> m_module_name t = m_module_name s \<and> queue_name t = queue_name s \<and>
     queue_name_self t = queue_name_self s \<and> exchange_name t = exchange_name s)"

lemma standard_names_cong:
  "exchange_type t = exchange_type s \<Longrightarrow> m_module_name t = m_module_name s \<Longrightarrow> queue_name t = queue_name s \<Longrightarrow>
    queue_name_self t = queue_name_self s \<Longrightarrow> exchange_name t = exchange_name s \<Longrightarrow>
    standard_names t = standard_names s"
  by (cases "exchange_type s") (simp_all add: standard_names_def)

lemma names_hold_standard: "names_hold s t \<Longrightarrow> standard_names s \<Longrightarrow> standard_names t"
  using standard_names_cong [of t s] by (simp add: names_hold_def)

lemma standard_known: "standard_names s \<Longrightarrow> known_type (exchange_type s)"
  by (cases "exchange_type s") (simp_all add: standard_names_def)

named_theorems names_intros

interpretation names_hold: event_relation names_hold "\<lambda>e. True"
proof unfold_locales
  show "names_hold s t \<Longrightarrow> names_hold t u \<Longrightarrow> names_hold s u" for s t u
    using names_hold_standard [of s t] by (simp add: names_hold_def)
qed (simp_all add: names_hold_def)

declare names_hold.along_intros [names_intros] names_hold.event_intros [names_intros]
  names_hold.along_emit [names_intros]

lemma names_hold_modify [names_intros]: "(\<And>s. names_hold s (f s)) \<Longrightarrow> along names_hold (modify f)"
  by (simp add: along_def)

lemma names_hold_name_queues [names_intros]: "along names_hold (name_queues env)"
  by (rule alongI) (simp add: name_queues_def names_hold_def standard_names_def split: ExchangeType.splits)

lemma names_hold_reconnect: "along names_hold (reconnect_locked env)"
proof -
  have channel: "along names_hold (SetupExchgQueChannel env)"
    unfolding SetupExchgQueChannel_def amqp_queue_bind_def amqp_queue_declare_def
    by (intro names_intros; simp add: names_hold_def)
  have "along names_hold (ConnectInit env)"
    unfolding ConnectInit_def by (intro names_intros channel; simp add: names_hold_def)
  then show ?thesis
    unfolding reconnect_locked_def close_connection_def rebind_def amqp_queue_bind_def
    by (intro names_intros; simp add: names_hold_def)
qed

text \<open>An attempt to connect that fails has logged why.\<close>

lemma channel_failure:
  assumes "known_type (exchange_type s)" "run_state (SetupExchgQueChannel env) s = (False, t)"
  shows "\<exists>h. trace t = h @ [Logged ''Failed to open channel'']"
  using assms by (auto simp: SetupExchgQueChannel_def name_queues_def split: if_splits ExchangeType.splits)

lemma connect_failure:
  assumes "known_type (exchange_type s)" "connection s = None" "run_state (ConnectInit env) s = (False, t)"
  shows "connect_failed (trace t)"
proof -
  have "\<exists>h l. trace t = h @ [Logged l] \<and> l \<in> connect_errors"
    using assms(1,3) channel_failure [of "logged_in env s" env t]
    by (auto simp: ConnectInit_run [OF assms(2)] split: if_splits)
  then show ?thesis by (auto simp: connect_failed_append)
qed

lemma connect_success:
  assumes "run_state (ConnectInit env) s = (True, t)"
  shows "\<not> connect_failed (trace t)"
proof -
  have ok: "connection s = None" "known_type (exchange_type s)"
    using assms ConnectInit_result [of env s] by (simp_all add: channel_opened_def)
  then have "run_state (SetupExchgQueChannel env) (logged_in env s) = (True, t)"
    using assms by (simp add: ConnectInit_run split: if_splits)
  then show ?thesis
    using ok(2)
    by (cases "exchange_type s") (auto simp: SetupExchgQueChannel_def name_queues_def connect_failed_def
      login_history_def open_history_def Let_def split: if_splits)
qed

lemma reconnect_failure:
  assumes "known_type (exchange_type s)" "t = state_after (reconnect_locked env) s"
    and "\<not> result_of (ConnectInit env) (closed s)"
  shows "connect_failed (trace t)"
proof -
  have "exchange_type (closed s) = exchange_type s" "connection (closed s) = None"
    using closed_summary [of env s] by (simp_all add: setup_summary_def kept_def)
  moreover have "run_state (ConnectInit env) (closed s) = (False, t)"
    using assms(2,3) by (simp add: reconnect_locked_eq prod_eq_iff)
  ultimately show ?thesis using assms(1) connect_failure by metis
qed

text \<open>
  The client has requested no binding that it does not expect, and unless an attempt to connect has
  failed it has requested them all.
\<close>

definition bound :: "environment \<Rightarrow> RabbitMQWrapper \<Rightarrow> bool" where
  "bound env s \<longleftrightarrow> session_bindings (trace s) \<subseteq> expected_bindings env s \<and>
     (connect_failed (trace s) \<or> in_step env s)"

lemma bound_kept:
  assumes "ties_kept s t" "trace t = trace s @ es" "list_all (\<lambda>e. \<not> touches_bindings e) es" "bound env s"
  shows "bound env t"
proof -
  have "expected_bindings env t = expected_bindings env s"
    using assms(1) by (simp add: expected_bindings_def connect_bindings_def ties_kept_def split: ExchangeType.splits)
  then show ?thesis
    using assms(4) untouched_events [OF assms(3), of "trace s"] by (auto simp: bound_def in_step_def assms(2))
qed

lemma bound_reconnect:
  assumes "known_type (exchange_type s)"
  shows "bound env (state_after (reconnect_locked env) s)"
proof -
  let ?t = "state_after (reconnect_locked env) s" and ?ok = "result_of (ConnectInit env) (closed s)"
  have "session_bindings (trace ?t) = (if ?ok then expected_bindings env ?t else {})"
    using adds_bindings [OF conjunct2 [OF reconnect_locked_summary [OF refl refl]]] .
  moreover have "connect_failed (trace ?t)" if "\<not> ?ok" using reconnect_failure [OF assms refl that] .
  ultimately show ?thesis by (auto simp: bound_def in_step_def)
qed

subsection \<open>The start of a client\<close>

text \<open>A client that \<open>getInstance\<close> has made and \<open>rabbitmq_init\<close> has started.\<close>

definition client_start :: "ExchangeType \<Rightarrow> environment \<Rightarrow> string \<Rightarrow> RabbitMQWrapper \<Rightarrow> bool" where
  "client_start type env module t \<longleftrightarrow> (\<exists>s0 s1 host port user password. \<not> instance_set s0 \<and>
     run_state (getInstance env type) s0 = (Inr (), s1) \<and>
     run_state (rabbitmq_init env host port user password module) s1 = (True, t))"

lemma c_str_append: "no_nul m \<Longrightarrow> c_str (m @ x) = m @ c_str x"
  unfolding c_str_def no_nul_def by (subst takeWhile_append2) auto

text \<open>The names that the first connection gives a client.\<close>

lemma first_names:
  assumes "result_of (ConnectInit env) s" "t = state_after (ConnectInit env) s" "queue_name_self s = []"
  shows "standard_names t"
    and "exchange_type s = topictype \<Longrightarrow> no_nul (m_module_name s) \<Longrightarrow>
      c_str (queue_name t) \<noteq> c_str (queue_name_self t)"
proof -
  have run: "connection s = None" "known_type (exchange_type s)" using assms(1)
    by (simp_all add: ConnectInit_result channel_opened_def)
  moreover have self: "queue_name_self (logged_in env s) = []" using assms(3) by (simp add: logged_in_def Let_def)
  ultimately have t: "t = state_after (SetupExchgQueChannel env) (logged_in env s)"
    using assms(1) by (simp add: assms(2) ConnectInit_run split: if_splits)
  have opened: "channel_opened env (logged_in env s)" using assms(1) by (simp add: ConnectInit_result)
  then show "standard_names t"
    using run self unfolding t
    by (cases "exchange_type s") (simp_all add: channel_opened_def channel_history_def SetupExchgQueChannel_def
      name_queues_def standard_names_def Let_def)
  assume "exchange_type s = topictype" "no_nul (m_module_name s)"
  then obtain pid tm where t: "queue_name t = m_module_name s @ ''-'' @ RBMQ_TOPIC_QUE_PRE"
    "queue_name_self t = m_module_name s @ ''-'' @ c_str (host_name env) @ ''-'' @ to_string pid @ ''-'' @ tm"
    using run self opened by (simp add: t channel_opened_def channel_history_def
      SetupExchgQueChannel_def name_queues_def Let_def)
  have "CHR ''-'' \<in> set (c_str (c_str (host_name env) @ ''-'' @ to_string pid @ ''-'' @ tm))"
    by (simp add: c_str_append) (simp add: c_str_def)
  moreover have "CHR ''-'' \<notin> set (c_str RBMQ_TOPIC_QUE_PRE)" by (simp add: c_str_def RBMQ_TOPIC_QUE_PRE_def)
  ultimately have "c_str (''-'' @ RBMQ_TOPIC_QUE_PRE) \<noteq>
      c_str (''-'' @ c_str (host_name env) @ ''-'' @ to_string pid @ ''-'' @ tm)"
    using c_str_append [of "''-''"] by auto
  then show "c_str (queue_name t) \<noteq> c_str (queue_name_self t)"
    using t \<open>no_nul (m_module_name s)\<close> by (simp add: c_str_append)
qed

lemma started_client:
  assumes "client_start type env module t"
  shows "instance_set t" "instanceType t = type" "exchange_type t = type" "m_module_name t = module"
    and "standard_names t" "bound env t"
    and "bound_routing_keys_self t = []" "routing_key_callbacks t = []" "\<not> connect_failed (trace t)"
    and "type = topictype \<Longrightarrow> bound_routing_keys_share t = []"
    and "type = topictype \<Longrightarrow> no_nul module \<Longrightarrow> c_str (queue_name t) \<noteq> c_str (queue_name_self t)"
proof -
  obtain s0 s1 host port user password where s1: "\<not> instance_set s0"
    "run_state (getInstance env type) s0 = (Inr (), s1)"
    and t: "run_state (rabbitmq_init env host port user password module) s1 = (True, t)"
    using assms by (auto simp: client_start_def)
  have fresh: "instance_set s1" "instanceType s1 = type" "exchange_type s1 = type"
    "\<not> initialized s1" "queue_name_self s1 = []" "bound_routing_keys_share s1 = []"
    "bound_routing_keys_self s1 = []" "routing_key_callbacks s1 = []"
    using s1 by (auto simp: getInstance_def construct_def)
  let ?s = "s1\<lparr>m_host := host, m_port := port, m_username := user, m_password := password,
    m_module_name := module\<rparr>"
  let ?u = "state_after (ConnectInit env) ?s"
  have ok: "result_of (ConnectInit env) ?s"
    and t: "t = ?u\<lparr>trace := trace ?u @ [Started Send_thread, Started Receive_thread, Started Timer_thread],
      send_thread := True, recv_thread := True, timer_thread := True, initialized := True\<rparr>"
    using t fresh(4) by (auto simp: rabbitmq_init_def split_beta split: if_splits)
  then have "run_state (ConnectInit env) ?s = (True, ?u)" by (simp add: prod_eq_iff)
  from connect_success [OF this] show "\<not> connect_failed (trace t)" by (simp add: t connect_failed_append)
  note sum = ConnectInit_summary [OF surjective_pairing [of "run_state (ConnectInit env) ?s"]]
  then have kept: "kept ?s ?u" by (simp add: setup_summary_def)
  then show "instance_set t" "instanceType t = type" "exchange_type t = type" "m_module_name t = module"
    "bound_routing_keys_self t = []" "routing_key_callbacks t = []"
    using fresh by (simp_all add: t kept_def)
  show share: "bound_routing_keys_share t = []" if "type = topictype"
    using sum fresh that by (simp add: setup_summary_def t)
  have names: "standard_names ?u" "type = topictype \<Longrightarrow> no_nul module \<Longrightarrow>
      c_str (queue_name ?u) \<noteq> c_str (queue_name_self ?u)"
    using first_names [OF ok refl] fresh by simp_all
  have "standard_names t = standard_names ?u" by (rule standard_names_cong) (simp_all add: t)
  with names(1) show "standard_names t" by simp
  show "c_str (queue_name t) \<noteq> c_str (queue_name_self t)" if "type = topictype" "no_nul module"
    using names(2) fresh that by (simp add: t)
  have "connect_bindings env ?u = expected_bindings env t"
    using kept share fresh
    by (simp add: expected_bindings_def connect_bindings_def t kept_def split: ExchangeType.splits)
  moreover have "session_bindings (trace ?u) = connect_bindings env ?u"
    using adds_bindings [OF conjunct1 [OF conjunct2 [OF sum]]] sum ok by simp
  ultimately have "in_step env t" by (simp add: in_step_def t session_bindings_append)
  then show "bound env t" by (simp add: bound_def in_step_def)
qed

subsection \<open>Clients that are bound once\<close>

text \<open>
  A point-to-point or broadcast client has one binding, made when it connects: its queue, its exchange
  and, for a point-to-point client, its module name.
\<close>

definition home_binding :: "ExchangeType \<Rightarrow> environment \<Rightarrow> string \<Rightarrow> binding" where
  "home_binding type env module =
     (if type = p2ptype
      then (cbytes env (module @ ''-'' @ RBMQ_P2P_QUE_PRE), cbytes env RBMQ_P2P_EXCHG, cbytes env module)
      else (cbytes env (module @ ''-'' @ RBMQ_BROAD_QUE_PRE), cbytes env RBMQ_BROAD_EXCHG, empty_bytes env))"

definition at_home :: "ExchangeType \<Rightarrow> environment \<Rightarrow> string \<Rightarrow> RabbitMQWrapper \<Rightarrow> bool" where
  "at_home type env module s \<longleftrightarrow> instance_set s \<and> instanceType s = type \<and> exchange_type s = type \<and>
     m_module_name s = module \<and> standard_names s \<and> bound env s"

definition stays_home ::
  "ExchangeType \<Rightarrow> environment \<Rightarrow> string \<Rightarrow> RabbitMQWrapper \<Rightarrow> RabbitMQWrapper \<Rightarrow> bool" where
  "stays_home type env module s t \<longleftrightarrow> (at_home type env module s \<longrightarrow> at_home type env module t)"

lemma home_kept:
  assumes "ties_kept s t" "trace t = trace s @ es" "list_all (\<lambda>e. \<not> touches_bindings e) es"
  shows "stays_home type env module s t"
  using bound_kept [OF assms] standard_names_cong [of t s] assms(1)
  by (auto simp: stays_home_def at_home_def ties_kept_def)

interpretation stays_home: service_relation "stays_home type env module" env for type env module
proof unfold_locales
  show "quiet s t \<Longrightarrow> stays_home type env module s t" for s t
    by (cases "instance_set s")
      (auto simp: quiet_def intro: home_kept, simp add: stays_home_def at_home_def)
  show "\<not> touches_bindings e \<Longrightarrow> stays_home type env module s (s\<lparr>trace := trace s @ [e]\<rparr>)" for e s
    by (rule home_kept [where es = "[e]"]) (simp_all add: ties_kept_def)
  show "along (stays_home type env module) (reconnect_locked env)"
  proof (rule alongI, unfold stays_home_def, intro impI)
    fix s
    assume s: "at_home type env module s"
    note hold = alongD [OF names_hold_reconnect, of s env]
    show "at_home type env module (state_after (reconnect_locked env) s)"
      using s hold names_hold_standard [OF hold] bound_reconnect [OF standard_known, of s env]
        reconnect_locked_summary [OF refl refl, of env s]
      by (simp add: at_home_def names_hold_def setup_summary_def kept_def)
  qed
qed (simp_all add: stays_home_def)

lemma home_perform:
  assumes "type \<noteq> topictype"
  shows "along (stays_home type env module) (perform env c)"
proof (rule stays_home.along_perform)
  show "along (stays_home type env module) (rmSetMidMsgHandler env pfn)" for pfn
  proof (rule alongI)
    fix s
    show "stays_home type env module s (state_after (rmSetMidMsgHandler env pfn) s)"
    proof (cases "instance_set s")
      case True
      note effect = set_handler_effect [OF True, of env pfn]
      show ?thesis by (rule home_kept [OF conjunct1 [OF effect] conjunct2 [OF effect]]) simp
    qed (simp add: stays_home_def at_home_def)
  qed
qed (use assms in \<open>simp_all add: along_def stays_home_def at_home_def run_subscribe_refused
    run_unsubscribe_refused\<close>)

interpretation silent_home: service_user "stays_home type env module" env silent for type env module
  by (rule stays_home.silent_user)

lemma home_expected:
  assumes "at_home type env module s" "type \<in> {p2ptype, broadcasttype}"
  shows "expected_bindings env s = {home_binding type env module}"
  using assms by (auto simp: at_home_def standard_names_def expected_bindings_def connect_bindings_def home_binding_def)

lemma run_home:
  assumes "client_start type env module (client start)" "system_run (reacting env react) env start cs sys"
    and "type \<in> {p2ptype, broadcasttype}"
  shows "at_home type env module (client sys)"
proof -
  have other: "type \<noteq> topictype" using assms(3) by auto
  have "service_user (stays_home type env module) env (reacting env react)"
    by (intro stays_home.reacting_user home_perform other)
  from service_user.along_run [OF this assms(2)] home_perform [OF other]
  have "stays_home type env module (client start) (client sys)" by blast
  moreover have "at_home type env module (client start)"
    using started_client [OF assms(1)] by (simp add: at_home_def)
  ultimately show ?thesis by (simp add: stays_home_def)
qed

text \<open>
  Nothing stands between the request for the binding and the success that \<open>rabbitmq_init\<close> reports: the
  answer of the broker is not looked at, so a client whose binding is refused has started as well, and
  as long as the broker refuses, it has no binding in any run.
\<close>

lemma init_ignores_binding_reply:
  assumes "client_start type env module t" and "type \<in> {p2ptype, broadcasttype}"
  shows "\<exists>h c ch q x k a. trace t = h @ [Library (Amqp_rpc c ch (Topology (Rpc_queue_bind q x k a))),
      Started Send_thread, Started Receive_thread, Started Timer_thread] \<and> initialized t"
    and "(\<And>h e. bind_request e \<Longrightarrow> \<not> accepts h e) \<Longrightarrow> broker_bindings accepts es = {}"
proof -
  obtain s0 s1 host port user password where s1: "\<not> instance_set s0"
    "run_state (getInstance env type) s0 = (Inr (), s1)"
    and t: "run_state (rabbitmq_init env host port user password module) s1 = (True, t)"
    using assms by (auto simp: client_start_def)
  have fresh: "exchange_type s1 = type" "\<not> initialized s1"
    using s1 by (auto simp: getInstance_def construct_def)
  let ?s = "s1\<lparr>m_host := host, m_port := port, m_username := user, m_password := password,
    m_module_name := module\<rparr>"
  let ?u = "state_after (ConnectInit env) ?s"
  have ok: "result_of (ConnectInit env) ?s"
    and t: "t = ?u\<lparr>trace := trace ?u @ [Started Send_thread, Started Receive_thread, Started Timer_thread],
      send_thread := True, recv_thread := True, timer_thread := True, initialized := True\<rparr>"
    using t fresh(2) by (auto simp: rabbitmq_init_def split_beta split: if_splits)
  have "\<exists>h c ch q x k a. trace ?u = h @ [Library (Amqp_rpc c ch (Topology (Rpc_queue_bind q x k a)))]"
  proof -
    have up: "connection ?s = None" using ok by (simp add: ConnectInit_result)
    have u: "?u = state_after (SetupExchgQueChannel env) (logged_in env ?s)"
      using ok up by (simp add: ConnectInit_run split: if_splits)
    have "channel_opened env (logged_in env ?s)" using ok by (simp add: ConnectInit_result)
    then show ?thesis
      using fresh(1) assms(2) unfolding u
      by (auto simp: channel_opened_def channel_history_def SetupExchgQueChannel_def name_queues_def Let_def)
  qed
  then show "\<exists>h c ch q x k a. trace t = h @ [Library (Amqp_rpc c ch (Topology (Rpc_queue_bind q x k a))),
      Started Send_thread, Started Receive_thread, Started Timer_thread] \<and> initialized t"
    by (auto simp: t)
qed (rule broker_refuses_all)

section \<open>Properties of a client in service\<close>

text \<open>The type of the instance, in whatever happens to it.\<close>

definition one_type :: "RabbitMQWrapper \<Rightarrow> RabbitMQWrapper \<Rightarrow> bool" where
  "one_type s t \<longleftrightarrow> (instance_set s \<longrightarrow> instance_set t \<and> instanceType t = instanceType s)"

interpretation one_type: service_relation one_type env for env
proof unfold_locales
  show "one_type s t \<Longrightarrow> one_type t u \<Longrightarrow> one_type s u" for s t u by (simp add: one_type_def)
  show "\<not> touches_bindings e \<Longrightarrow> one_type s (s\<lparr>trace := trace s @ [e]\<rparr>)" for e s
    by (simp add: one_type_def)
  show "quiet s t \<Longrightarrow> one_type s t" for s t
    by (simp add: quiet_def ties_kept_def one_type_def)
  show "along one_type (reconnect_locked env)"
    unfolding along_def one_type_def
    using reconnect_locked_summary [OF refl refl, of env] by (simp add: setup_summary_def kept_def)
qed (simp_all add: one_type_def)

lemma one_type_perform: "along one_type (perform env c)"
proof (rule one_type.along_perform)
  show "along one_type (subscribleTopicMsg env topic f inst)" for topic f inst
    unfolding along_def one_type_def
    by (intro allI, rename_tac s, case_tac "exchange_type s \<noteq> topictype \<or> topic = []")
      (simp_all add: run_subscribe run_subscribe_refused)
  show "along one_type (unSubscribleTopicMsg env topic)" for topic
    unfolding along_def one_type_def
    by (intro allI, rename_tac s, case_tac "exchange_type s \<noteq> topictype \<or> topic = []")
      (simp_all add: run_unsubscribe run_unsubscribe_refused)
  show "along one_type (rmSetMidMsgHandler env pfn)" for pfn
    using set_handler_effect [of _ env pfn] by (auto simp: along_def one_type_def ties_kept_def)
qed

lemma one_type_init: "along one_type (rabbitmq_init env host port user password module)"
proof (rule alongI)
  fix s :: RabbitMQWrapper
  let ?s = "s\<lparr>m_host := host, m_port := port, m_username := user, m_password := password,
    m_module_name := module\<rparr>"
  have "kept ?s (state_after (ConnectInit env) ?s)"
    using ConnectInit_summary [OF surjective_pairing [of "run_state (ConnectInit env) ?s"]]
    by (simp add: setup_summary_def)
  then show "one_type s (state_after (rabbitmq_init env host port user password module) s)"
    by (simp add: one_type_def rabbitmq_init_def kept_def split_beta)
qed

lemma one_type_free: "along one_type rabbitmq_free"
  unfolding rabbitmq_free_def close_connection_def
  by (intro one_type.service_intros) (simp_all add: along_def one_type_def)

text \<open>
  \<open>lifetime env react s t\<close>: the instance gets from \<open>s\<close> to \<open>t\<close> by any number of initializations, of runs
  in service, of asking for the instance and of freeing the client.
\<close>

inductive lifetime ::
  "environment \<Rightarrow> (event list \<Rightarrow> callback_call \<Rightarrow> api_call list) \<Rightarrow> RabbitMQWrapper \<Rightarrow> RabbitMQWrapper \<Rightarrow> bool"
  for env react s where
  Created: "lifetime env react s s"
| Asked: "lifetime env react s t \<Longrightarrow> lifetime env react s (state_after (getInstance env type) t)"
| Started: "lifetime env react s t \<Longrightarrow>
    lifetime env react s (state_after (rabbitmq_init env host port user password module) t)"
| Served: "lifetime env react s (client start) \<Longrightarrow> system_run (reacting env react) env start cs sys \<Longrightarrow>
    lifetime env react s (client sys)"
| Released: "lifetime env react s t \<Longrightarrow> lifetime env react s (state_after rabbitmq_free t)"

lemma lifetime_type:
  assumes "lifetime env react s t" "instance_set s"
  shows "instance_set t \<and> instanceType t = instanceType s"
  using assms(1)
proof induction
  case (Asked t type)
  then show ?case by (simp add: getInstance_set)
next
  case (Started t host port user password module)
  then show ?case using alongD [OF one_type_init] by (simp add: one_type_def)
next
  case (Served start cs sys)
  have "service_user one_type env (reacting env react)"
    by (intro one_type.reacting_user one_type_perform)
  from service_user.along_run [OF this Served.hyps(2)] one_type_perform
  have "one_type (client start) (client sys)" by blast
  then show ?case using Served.IH by (simp add: one_type_def)
next
  case (Released t)
  then show ?case using alongD [OF one_type_free] by (simp add: one_type_def)
qed (use assms(2) in simp)

text \<open>
  C40: The client is a singleton of one type. Once \<open>getInstance\<close> has returned an instance of a type, then
  after any sequence of initializations, runs in service (with whatever its user and its functions
  call), requests for an instance and releases, it returns the instance for this type, leaving it
  unchanged but for the history, and throws for every other type; and the exchange type the instance
  reports is that type.
\<close>

theorem instance_has_one_type:
  assumes "run_state (getInstance env type) s = (Inr (), t)" and "lifetime env' react t u"
  shows "run_state (getInstance env'' type') u =
      (if type' = type then Inr ()
       else Inl (Runtime_error ''RabbitMQWrapper instance already created with a different type!''),
       u\<lparr>trace := trace u @ [Lock instanceMutex, Unlock instanceMutex]\<rparr>) \<and>
    run_state GetInstanceType u = (type, u)"
  using getInstance_Inr [OF assms(1)] lifetime_type [OF assms(2)]
  by (auto simp: getInstance_set GetInstanceType_def)

theorem instance_has_one_type_witness:
  "\<exists>t m. run_state (getInstance sample_env p2ptype) (sample_client p2ptype) = (Inr (), t) \<and>
    result_of (getInstance sample_env topictype) (state_after rabbitmq_free t) = Inl (Runtime_error m)"
proof -
  obtain t where t: "run_state (getInstance sample_env p2ptype) (sample_client p2ptype) = (Inr (), t)"
    by (simp add: getInstance_set)
  have "lifetime sample_env answer_requests t (state_after rabbitmq_free t)"
    by (intro lifetime.intros)
  from instance_has_one_type [OF t this, of sample_env topictype]
  have "\<exists>m. result_of (getInstance sample_env topictype) (state_after rabbitmq_free t) = Inl (Runtime_error m)"
    by simp
  with t show ?thesis by blast
qed

text \<open>
  C13: A point-to-point or broadcast client that was constructed and initialized stays reachable under its
  name, however often it reconnects and whatever its user does, in every run of whole calls and rounds in
  which the broker accepts the bindings the client requests (hypothesis \<open>binds_accepted\<close>; the
  code does not look at the answers). Of the bindings that the client's own requests make, the broker has
  none but that of its one queue to its one key, and it has this one unless the log shows that the last
  attempt to connect has failed.
\<close>

theorem client_stays_bound:
  assumes "client_start type env module (client start)"
    and "system_run (reacting env react) env start cs sys"
    and "type \<in> {p2ptype, broadcasttype}"
    and "binds_accepted accepts (trace (client sys))"
  shows "broker_bindings accepts (trace (client sys)) \<subseteq> {home_binding type env module} \<and>
    (connect_failed (trace (client sys)) \<or>
      broker_bindings accepts (trace (client sys)) = {home_binding type env module})"
  using run_home [OF assms(1-3)] home_expected [OF run_home [OF assms(1-3)] assms(3)]
  by (simp add: at_home_def bound_def in_step_def broker_bindings_accepted [OF assms(4)])

lemma sample_start:
  assumes "known_type type"
  obtains t where "client_start type sample_env module t"
proof -
  let ?s = "(sample_client type)\<lparr>instance_set := False\<rparr>"
  obtain s1 where s1: "run_state (getInstance sample_env type) ?s = (Inr (), s1)" "connection s1 = None"
    "exchange_type s1 = type" "\<not> initialized s1"
    by (simp add: getInstance_def construct_def)
  obtain ok t where t: "run_state (rabbitmq_init sample_env ''host'' 5672 ''user'' ''pw'' module) s1 = (ok, t)"
    by fastforce
  have "ok" using s1(2-4) t assms
    by (auto simp: rabbitmq_init_def split_beta ConnectInit_result channel_opened_def split: if_splits)
  then have "client_start type sample_env module t" unfolding client_start_def using s1(1) t
    by (intro exI [of _ ?s] exI [of _ s1] exI [of _ "''host''"] exI [of _ 5672] exI [of _ "''user''"]
      exI [of _ "''pw''"]) simp
  then show thesis by (rule that)
qed

theorem client_stays_bound_witness:
  "\<exists>s. client_start p2ptype sample_env ''module'' s \<and>
    broker_bindings (\<lambda>_ _. True) (trace s) \<subseteq> {home_binding p2ptype sample_env ''module''}"
proof -
  obtain t where t: "client_start p2ptype sample_env ''module'' t" using sample_start [of p2ptype] by auto
  let ?sys = "\<lparr>client = t, recv_at = Thread_restart, send_at = Some 0, timer_on = True\<rparr>"
  have "system_run (reacting sample_env answer_requests) sample_env ?sys [] ?sys" by (rule system_run.Start)
  from client_stays_bound [OF _ this, of p2ptype "''module''" "\<lambda>_ _. True"] t show ?thesis
    by (auto simp: binds_accepted_def)
qed

end
