(* ===== verification/Call_Table.thy ===== *)
theory Call_Table
  imports System
begin

section \<open>Requests and notifications as a table of pending calls\<close>

text \<open>
  An abstract specification of what a point-to-point client promises about its requests and
  notifications, and the proof that every run of a client in service (theory \<open>System\<close>) refines it:
  the tasks are the pending calls, and the callbacks for final responses and timeouts complete them.
  From the refinement follows that no call is completed twice. This theory has the table and the
  operations of the interface; theory \<open>Call_Runs\<close> has the threads, the user's functions and the runs.
\<close>

subsection \<open>The table\<close>

text \<open>
  The specification: which calls are pending, how many have been issued
  and how often each has been completed. A call is issued with the next number, withdrawn when it could
  not be sent or needs no completion, and completed by a final response or by its timeout.
\<close>

record call_table =
  pending :: "i32 set"
  issued :: nat
  completed :: "i32 \<Rightarrow> nat"

inductive table_step :: "call_table \<Rightarrow> call_table \<Rightarrow> bool" where
  Issue: "table_step T (T\<lparr>pending := insert (of_nat (issued T)) (pending T), issued := issued T + 1\<rparr>)"
| Withdraw: "i \<in> pending T \<Longrightarrow> table_step T (T\<lparr>pending := pending T - {i}\<rparr>)"
| Complete: "i \<in> pending T \<Longrightarrow> table_step T
    (T\<lparr>pending := pending T - {i}, completed := (completed T)(i := completed T i + 1)\<rparr>)"

inductive_cases table_stepE: "table_step T U"

lemma table_step_issued: "table_step T U \<Longrightarrow> issued T \<le> issued U"
  by (auto elim: table_stepE)

lemma table_steps_issued: "table_step\<^sup>*\<^sup>* T U \<Longrightarrow> issued T \<le> issued U"
  by (induction rule: rtranclp_induct) (auto dest: table_step_issued)

definition once :: "call_table \<Rightarrow> bool" where
  "once T \<longleftrightarrow> (\<forall>i. completed T i + (if i \<in> pending T then 1 else 0) \<le>
     (if i \<in> of_nat ` {..<issued T} then 1 else 0))"

lemma issue_fresh: "k < 2 ^ 32 \<Longrightarrow> (of_nat k :: i32) \<notin> of_nat ` {..<k}"
proof
  assume k: "k < 2 ^ 32" "(of_nat k :: i32) \<in> of_nat ` {..<k}"
  then obtain j where "j < k" "(of_nat k :: i32) = of_nat j" by auto
  then have "unat (of_nat k :: i32) = unat (of_nat j :: i32)" "j < k" by simp_all
  then show False using k(1) by (simp add: unat_of_nat)
qed

lemma once_step:
  assumes "table_step T U" "once T" "issued U \<le> 2 ^ 32"
  shows "once U"
  using assms(1)
proof cases
  case Issue
  let ?i = "of_nat (issued T) :: i32"
  have "?i \<notin> of_nat ` {..<issued T}" using assms(3) Issue by (intro issue_fresh) simp
  moreover from this have "completed T ?i = 0"
    using assms(2) [unfolded once_def, rule_format, of ?i] by simp
  ultimately have "completed U j + (if j \<in> pending U then 1 else 0) \<le>
      (if j \<in> of_nat ` {..<issued U} then 1 else 0)" for j
    using assms(2) [unfolded once_def, rule_format, of j]
    by (cases "j = ?i") (simp_all add: Issue lessThan_Suc split: if_splits)
  then show ?thesis by (simp add: once_def)
next
  case (Withdraw i)
  have "completed U j + (if j \<in> pending U then 1 else 0) \<le> (if j \<in> of_nat ` {..<issued U} then 1 else 0)"
    for j
    using assms(2) [unfolded once_def, rule_format, of j] by (simp add: Withdraw split: if_splits)
  then show ?thesis by (simp add: once_def)
next
  case (Complete i)
  have "completed U j + (if j \<in> pending U then 1 else 0) \<le> (if j \<in> of_nat ` {..<issued U} then 1 else 0)"
    for j
    using assms(2) [unfolded once_def, rule_format, of j] Complete by (cases "j = i") (simp_all split: if_splits)
  then show ?thesis by (simp add: once_def)
qed

lemma once_steps: "table_step\<^sup>*\<^sup>* T U \<Longrightarrow> once T \<Longrightarrow> issued U \<le> 2 ^ 32 \<Longrightarrow> once U"
proof (induction rule: rtranclp_induct)
  case (step U V)
  then show ?case using once_step table_step_issued le_trans by blast
qed simp


subsection \<open>The client's calls as such a table\<close>

fun completes :: "callback_call \<Rightarrow> i32 option" where
  "completes (CB_RESP_FINAL f server dst name i code descr text a) = Some i"
| "completes (CB_REQUEST_TIMEOUT f server dst name i a) = Some i"
| "completes (CB_NOTIFY_TIMEOUT f server dst name i a) = Some i"
| "completes c = None"

definition completions :: "i32 \<Rightarrow> callback_call list \<Rightarrow> nat" where
  "completions i cs = length (filter (\<lambda>c. completes c = Some i) cs)"

lemma completions_Nil [simp]: "completions i [] = 0"
  by (simp add: completions_def)

lemma completions_append [simp]: "completions i (cs @ ds) = completions i cs + completions i ds"
  by (simp add: completions_def)

lemma completions_none: "list_all (\<lambda>c. completes c = None) cs \<Longrightarrow> completions i cs = 0"
  by (induction cs) (auto simp: completions_def)

lemma completions_pos: "0 < completions i cs \<longleftrightarrow> (\<exists>c\<in>set cs. completes c = Some i)"
  by (auto simp: completions_def filter_empty_conv)

text \<open>
  The calls still to be completed: those with a task, unless the callback that completes them has just
  been made. Such a task is \<open>stale\<close>; there is one only while that callback runs.
\<close>

definition stale :: "RabbitMQWrapper \<Rightarrow> i32 set" where
  "stale s = {i \<in> task_id ` set (timer_tasks s). 0 < completions i (called (trace s))}"

definition table_of :: "nat \<Rightarrow> RabbitMQWrapper \<Rightarrow> call_table" where
  "table_of k s =
     \<lparr>pending = task_id ` set (timer_tasks s) - stale s, issued = k,
      completed = (\<lambda>i. completions i (called (trace s)))\<rparr>"

text \<open>A client that has issued \<open>k\<close> calls: every task and every completion belongs to one of them.\<close>

definition calls_ok :: "nat \<Rightarrow> RabbitMQWrapper \<Rightarrow> bool" where
  "calls_ok k s \<longleftrightarrow> p2p_client s \<and> ids_differ (timer_tasks s) \<and>
     (\<forall>t\<in>set (timer_tasks s). rid (task_props t) = task_id t) \<and>
     m_next_timer_id s = of_nat k \<and> task_id ` set (timer_tasks s) \<subseteq> of_nat ` {..<k} \<and>
     (\<forall>i. 0 < completions i (called (trace s)) \<longrightarrow> i \<in> of_nat ` {..<k})"

text \<open>The table goes from one state to the other by its steps, and no task becomes stale.\<close>

definition refines :: "nat \<Rightarrow> RabbitMQWrapper \<Rightarrow> nat \<Rightarrow> RabbitMQWrapper \<Rightarrow> bool" where
  "refines k s l t \<longleftrightarrow> calls_ok l t \<and> stale t \<subseteq> stale s \<and> table_step\<^sup>*\<^sup>* (table_of k s) (table_of l t)"

lemma refines_trans: "refines k s l t \<Longrightarrow> refines l t m u \<Longrightarrow> refines k s m u"
  by (auto simp: refines_def)

lemma refines_refl: "calls_ok k s \<Longrightarrow> refines k s k s"
  by (simp add: refines_def)

subsection \<open>Operations that issue no call\<close>

text \<open>What happens from \<open>s\<close> to \<open>t\<close> calls no function of the user.\<close>

definition uncalled :: "RabbitMQWrapper \<Rightarrow> RabbitMQWrapper \<Rightarrow> bool" where
  "uncalled s t \<longleftrightarrow> (\<exists>es. trace t = trace s @ es \<and> called es = [])"

lemma uncalled_called: "uncalled s t \<Longrightarrow> called (trace t) = called (trace s)"
  by (auto simp: uncalled_def)

lemma uncalled_trans: "uncalled s t \<Longrightarrow> uncalled t u \<Longrightarrow> uncalled s u"
  by (auto simp: uncalled_def)

lemma uncalled_events: "trace t = trace s @ es \<Longrightarrow> called es = [] \<Longrightarrow> uncalled s t"
  by (auto simp: uncalled_def)

lemma uncalled_same [simp]: "trace t = trace s \<Longrightarrow> uncalled s t"
  by (rule uncalled_events [where es = "[]"]) simp_all

definition is_called :: "event \<Rightarrow> bool" where
  "is_called e \<longleftrightarrow> (case e of Called c \<Rightarrow> True | _ \<Rightarrow> False)"

lemma is_called_simps [simp]:
  "is_called (Called c)" "\<not> is_called (Lock m)" "\<not> is_called (Unlock m)" "\<not> is_called (Library lc)"
  "\<not> is_called (Logged l)" "\<not> is_called (Printed l)" "\<not> is_called (Slept n)" "\<not> is_called (Started th)"
  "\<not> is_called (Joined th)" "\<not> is_called Read_clock"
  by (simp_all add: is_called_def)

lemma called_single: "\<not> is_called e \<Longrightarrow> called [e] = []"
  by (cases e) simp_all

text \<open>An operation that leaves the tasks and the counter alone, and one that follows the table.\<close>

definition steady :: "RabbitMQWrapper \<Rightarrow> RabbitMQWrapper \<Rightarrow> bool" where
  "steady s t \<longleftrightarrow> uncalled s t \<and> (p2p_client s \<longrightarrow> timer_tasks t = timer_tasks s \<and>
     m_next_timer_id t = m_next_timer_id s \<and> p2p_client t)"

definition progress :: "RabbitMQWrapper \<Rightarrow> RabbitMQWrapper \<Rightarrow> bool" where
  "progress s t \<longleftrightarrow> uncalled s t \<and> (\<forall>k. calls_ok k s \<longrightarrow> refines k s k t)"

lemma progressD: "progress s t \<Longrightarrow> calls_ok k s \<Longrightarrow> refines k s k t \<and> uncalled s t"
  by (simp add: progress_def)

lemma refines_ok: "refines k s l t \<Longrightarrow> calls_ok l t"
  by (simp add: refines_def)

lemma steady_view:
  fixes s t :: RabbitMQWrapper
  assumes "steady s t" "p2p_client s"
  shows "stale t = stale s" "table_of k t = table_of k s" "calls_ok k t = calls_ok k s"
  using assms uncalled_called [of s t] by (simp_all add: steady_def stale_def table_of_def calls_ok_def)

lemma steady_progress: "steady s t \<Longrightarrow> progress s t"
  unfolding progress_def
proof (intro conjI allI impI)
  fix k
  assume "steady s t" "calls_ok k s"
  moreover from this have "p2p_client s" by (simp add: calls_ok_def)
  ultimately show "refines k s k t"
    using steady_view [of s t] by (simp add: refines_def)
qed (simp add: steady_def)

lemma steady_events:
  "timer_tasks t = timer_tasks s \<Longrightarrow> m_next_timer_id t = m_next_timer_id s \<Longrightarrow>
    p2p_client t = p2p_client s \<Longrightarrow> trace t = trace s @ es \<Longrightarrow> called es = [] \<Longrightarrow> steady s t"
  by (auto simp: steady_def uncalled_def)

lemma steady_same:
  "timer_tasks t = timer_tasks s \<Longrightarrow> m_next_timer_id t = m_next_timer_id s \<Longrightarrow>
    p2p_client t = p2p_client s \<Longrightarrow> trace t = trace s \<Longrightarrow> steady s t"
  by (auto simp: steady_def)

lemma steady_event: "\<not> is_called e \<Longrightarrow> steady s (s\<lparr>trace := trace s @ [e]\<rparr>)"
  by (rule steady_events [where es = "[e]"]) (simp_all add: p2p_client_def called_single)

named_theorems uncalled_intros
named_theorems steady_intros
named_theorems progress_intros

interpretation uncalled: event_relation uncalled "\<lambda>e. \<not> is_called e"
proof unfold_locales
  show "\<not> is_called e \<Longrightarrow> uncalled s (s\<lparr>trace := trace s @ [e]\<rparr>)" for e s
    by (rule uncalled_events [where es = "[e]"]) (simp_all add: called_single)
qed (auto intro: uncalled_trans)

interpretation steady: event_relation steady "\<lambda>e. \<not> is_called e"
proof unfold_locales
  show "steady s s" for s by (simp add: steady_def)
  show "steady s t \<Longrightarrow> steady t u \<Longrightarrow> steady s u" for s t u
    unfolding steady_def by (auto dest: uncalled_trans)
qed (simp_all add: steady_event)

interpretation progress: event_relation progress "\<lambda>e. \<not> is_called e"
proof unfold_locales
  show "progress s t \<Longrightarrow> progress t u \<Longrightarrow> progress s u" for s t u
    unfolding progress_def by (blast intro: refines_trans uncalled_trans dest: refines_ok)
qed (auto simp: steady_event steady_progress intro: steady_progress steady_same)

declare uncalled.along_intros [uncalled_intros] uncalled.event_intros [uncalled_intros]
  uncalled.along_emit [uncalled_intros]
  steady.along_intros [steady_intros] steady.event_intros [steady_intros]
  steady.along_emit [steady_intros]
  progress.along_intros [progress_intros] progress.event_intros [progress_intros]
  progress.along_emit [progress_intros]

lemma steady_along: "along steady m \<Longrightarrow> along progress m"
  by (erule along_mono) (rule steady_progress)

lemma steady_locked [steady_intros]: "along steady f \<Longrightarrow> along steady (locked m f)"
  unfolding locked_def by (intro steady_intros) simp_all

lemma progress_locked [progress_intros]: "along progress f \<Longrightarrow> along progress (locked m f)"
  unfolding locked_def by (intro progress_intros) simp_all

lemma uncalled_locked [uncalled_intros]: "along uncalled f \<Longrightarrow> along uncalled (locked m f)"
  unfolding locked_def by (intro uncalled_intros) simp_all

lemma uncalled_modify [uncalled_intros]: "(\<And>s. trace (f s) = trace s) \<Longrightarrow> along uncalled (modify f)"
  by (simp add: along_def)

lemma steady_modify [steady_intros]: "(\<And>s. steady s (f s)) \<Longrightarrow> along steady (modify f)"
  by (simp add: along_def)

lemma steady_p2p:
  "along uncalled m \<Longrightarrow> (\<And>s. p2p_client s \<Longrightarrow> steady s (state_after m s)) \<Longrightarrow> along steady m"
  by (auto simp: along_def steady_def)

lemma steady_instance [steady_intros]: "along steady (getInstance env type)"
proof (rule steady_p2p)
  show "along uncalled (getInstance env type)"
    unfolding getInstance_def construct_def by (intro uncalled_intros) simp_all
next
  fix s
  assume "p2p_client s"
  then show "steady s (state_after (getInstance env type) s)"
    by (intro steady_events [where es = "[Lock instanceMutex, Unlock instanceMutex]"])
      (simp_all add: getInstance_set p2p_client_def)
qed

lemma steady_send [steady_intros]:
  "along steady (SendRabbitmqMessage env routing msg inprops)"
  "along steady (SendRabbitmqMessage_fanout env msg inprops)"
  unfolding SendRabbitmqMessage_def SendRabbitmqMessage_fanout_def check_published_def
    amqp_basic_publish_def Let_def
  by (intro steady_intros; simp)+

lemma steady_publish:
  "along steady (publishTopicMsg env msg topic transinfo)" "along steady (publishFanoutMsg env msg)"
  unfolding publishTopicMsg_def publishFanoutMsg_def Let_def
  by (intro steady_intros; simp)+

lemma steady_topic:
  "along steady (subscribleTopicMsg env topic callback inst)"
  "along steady (unSubscribleTopicMsg env topic)"
  unfolding subscribleTopicMsg_def unSubscribleTopicMsg_def topicAddBind_def topicRemoveBinding_def
    bind_key_def amqp_queue_bind_def amqp_queue_unbind_def topicRegisterCallback_def
    topicUnregisterCallback_def
  by (intro steady_intros steady_same; simp add: p2p_client_def)+

lemma steady_send_props [steady_intros]: "along steady (send_props env m b p)"
  unfolding send_props_def by (intro steady_intros)

lemma steady_interface [steady_intros]:
  "along steady (rmReportMake env modName msgName msgBody)"
  "along steady (rmRequestTempResponse env modName i respCode descr msgBody)"
  "along steady (rmRequestFinalResponse env modName i respCode descr msgBody)"
  "along steady (rmSetMidMsgHandler env pfn)"
  unfolding rmReportMake_def rmRequestTempResponse_def rmRequestFinalResponse_def
    rmSetMidMsgHandler_def p2pSetCallback_def GetModuleName_def
  by (intro steady_intros steady_same; simp add: p2p_client_def)+

subsection \<open>The operations on tasks\<close>

lemma set_drop_task: "ids_differ ts \<Longrightarrow> set (drop_task i ts) = {t \<in> set ts. task_id t \<noteq> i}"
  by (auto simp: ids_differ_def drop_task_def erase_first_key)

lemma ids_drop_task: "ids_differ ts \<Longrightarrow> task_id ` set (drop_task i ts) = task_id ` set ts - {i}"
  by (auto simp: set_drop_task)

text \<open>
  A task that is taken from the list, after a callback that completes its call or without one. A stale
  task goes without a step of the table.
\<close>

lemma drop_refines:
  assumes "calls_ok k s" and "timer_tasks t = drop_task i (timer_tasks s)"
    and "m_next_timer_id t = m_next_timer_id s" and "p2p_client t"
    and "called (trace t) = called (trace s) @ cs"
    and "list_all (\<lambda>c. completes c = None) cs \<or>
      (\<exists>c. cs = [c] \<and> completes c = Some i) \<and> i \<in> task_id ` set (timer_tasks s) - stale s"
  shows "refines k s k t" and "stale t = stale s - {i}"
proof -
  have ids: "ids_differ (timer_tasks s)" using assms(1) by (simp add: calls_ok_def)
  note dropped = ids_drop_task [OF ids, of i] set_drop_task [OF ids, of i] ids_differ_drop [OF ids, of i]
  have same: "completions j cs = 0" if "j \<noteq> i" for j
    using assms(6) that by (elim disjE) (simp add: completions_none, auto simp: completions_def)
  have made: "j \<in> of_nat ` {..<k}" if "0 < completions j (called (trace t))" for j
  proof (cases "0 < completions j (called (trace s))")
    case False
    with that have "0 < completions j cs" by (simp add: assms(5))
    moreover from this have "j = i" using same [of j] by (cases "j = i") simp_all
    ultimately have "j \<in> task_id ` set (timer_tasks s)" using assms(6) by (auto simp: completions_none)
    then show ?thesis using assms(1) unfolding calls_ok_def by blast
  qed (use assms(1) in \<open>simp add: calls_ok_def\<close>)
  have *: "calls_ok k t"
    using assms(1,3,4) dropped made unfolding calls_ok_def assms(2) by auto
  show stale: "stale t = stale s - {i}"
    using assms(2,5) dropped same by (auto simp: stale_def)
  have "table_step\<^sup>*\<^sup>* (table_of k s) (table_of k t)"
  proof (cases "list_all (\<lambda>c. completes c = None) cs")
    case True
    then have t: "table_of k t = (table_of k s)\<lparr>pending := pending (table_of k s) - {i}\<rparr>"
      using assms(2,5) dropped stale by (auto simp: table_of_def completions_none)
    show ?thesis
    proof (cases "i \<in> pending (table_of k s)")
      case True
      then show ?thesis unfolding t by (intro r_into_rtranclp table_step.Withdraw)
    qed (simp add: t)
  next
    case False
    then obtain c where c: "cs = [c]" "completes c = Some i" "i \<in> pending (table_of k s)"
      using assms(6) by (auto simp: table_of_def)
    have "table_of k t = (table_of k s)\<lparr>pending := pending (table_of k s) - {i},
        completed := (completed (table_of k s))(i := completed (table_of k s) i + 1)\<rparr>"
      using assms(2,5) dropped stale c by (auto simp: table_of_def completions_def fun_eq_iff)
    then show ?thesis using r_into_rtranclp [where r = table_step, OF table_step.Complete [OF c(3)]] by simp
  qed
  with * stale show "refines k s k t" by (auto simp: refines_def)
qed

text \<open>The callback that completes a call, on its own: its task becomes stale.\<close>

lemma complete_refines:
  assumes "calls_ok k s" "completes c = Some i" "i \<in> task_id ` set (timer_tasks s) - stale s"
    and "t = s\<lparr>trace := trace s @ [Called c]\<rparr>"
  shows "calls_ok k t" and "stale t = insert i (stale s)"
    and "table_step (table_of k s) (table_of k t)"
proof -
  have called: "completions j (called (trace t)) =
      completions j (called (trace s)) + (if j = i then 1 else 0)" for j
    using assms(2) by (simp add: assms(4) completions_def)
  show "calls_ok k t"
    using assms(1,3) called unfolding calls_ok_def
    by (simp add: assms(4) p2p_client_def) (auto split: if_splits)
  show stale: "stale t = insert i (stale s)"
    using assms(3) called by (auto simp: stale_def assms(4) split: if_splits)
  have "table_of k t = (table_of k s)\<lparr>pending := pending (table_of k s) - {i},
      completed := (completed (table_of k s))(i := completed (table_of k s) i + 1)\<rparr>"
    using stale called by (auto simp: table_of_def assms(4) fun_eq_iff)
  moreover have "i \<in> pending (table_of k s)" using assms(3) by (simp add: table_of_def)
  ultimately show "table_step (table_of k s) (table_of k t)" by (simp only: table_step.Complete)
qed

lemma progress_ok:
  assumes "along uncalled m"
    and "\<And>k s. calls_ok k s \<Longrightarrow> p2p_client s \<Longrightarrow> uncalled s (state_after m s) \<Longrightarrow>
      refines k s k (state_after m s)"
  shows "along progress m"
  using assms by (auto simp: along_def progress_def calls_ok_def)

lemma progress_remove [progress_intros]: "along progress (p2pRemoveTimerTask i)"
proof (rule progress_ok)
  show "along uncalled (p2pRemoveTimerTask i)"
    unfolding p2pRemoveTimerTask_def by (intro uncalled_intros) simp
next
  fix k s
  assume "calls_ok k s" "p2p_client s"
  then show "refines k s k (state_after (p2pRemoveTimerTask i) s)"
    by (intro drop_refines(1) [where i = i and cs = "[]"]) (simp_all add: run_remove_task p2p_client_def)
qed

lemma steady_get_task [steady_intros]: "along steady (p2pGetTimerTaskInfo i)"
  unfolding p2pGetTimerTaskInfo_def by (intro steady_intros)

lemma set_alter_task:
  assumes "\<And>t. task_id (f t) = task_id t \<and> task_props (f t) = task_props t"
  shows "(\<lambda>t. (task_id t, task_props t)) ` set (alter_task i f ts) = (\<lambda>t. (task_id t, task_props t)) ` set ts"
  using assms by (induction ts) (auto simp: alter_task_def)

lemma alter_refines:
  assumes "calls_ok k s" "uncalled s t" "m_next_timer_id t = m_next_timer_id s" "p2p_client t"
    and "timer_tasks t = alter_task i f (timer_tasks s)"
    and "\<And>t. task_id (f t) = task_id t \<and> task_props (f t) = task_props t"
  shows "refines k s k t"
proof -
  have view: "(\<lambda>t. (task_id t, task_props t)) ` set (timer_tasks t) =
      (\<lambda>t. (task_id t, task_props t)) ` set (timer_tasks s)"
    using set_alter_task [OF assms(6)] by (simp add: assms(5))
  have ids: "task_id ` set (timer_tasks t) = task_id ` set (timer_tasks s)"
    using arg_cong [OF view, of "image fst"] by (simp add: image_image)
  have "(\<forall>t\<in>set (timer_tasks t). rid (task_props t) = task_id t) =
      (\<forall>t\<in>set (timer_tasks s). rid (task_props t) = task_id t)"
    using arg_cong [OF view, of "\<lambda>A. \<forall>(j, p)\<in>A. rid p = j"] by simp
  moreover have "ids_differ (timer_tasks t) = ids_differ (timer_tasks s)"
    using ids_differ_alter [of f i "timer_tasks s"] assms(5,6) by simp
  moreover note uncalled_called [OF assms(2)]
  moreover from this have "stale t = stale s" "table_of k t = table_of k s"
    using ids by (simp_all add: stale_def table_of_def)
  ultimately show ?thesis
    using assms(1,3,4) ids by (simp add: refines_def calls_ok_def)
qed

lemma progress_restart [progress_intros]: "along progress (p2pRestartTimerTask env i)"
proof (rule progress_ok)
  show "along uncalled (p2pRestartTimerTask env i)"
    unfolding p2pRestartTimerTask_def by (intro uncalled_intros) simp
next
  fix k s
  let ?t = "state_after (p2pRestartTimerTask env i) s"
  assume s: "calls_ok k s" "p2p_client s" and u: "uncalled s ?t"
  note run = run_restart_task [OF p2p_client_type [OF s(2)], of env i]
  show "refines k s k ?t"
  proof (cases "find_task (timer_tasks s) i")
    case None
    then have "steady s ?t"
      by (intro steady_events [where es = "[Lock timer_mutex, Unlock timer_mutex]"])
        (simp_all add: run p2p_client_def)
    with steady_progress s(1) show ?thesis unfolding progress_def by blast
  next
    case (Some task)
    then show ?thesis
      using s(2) by (intro alter_refines [OF s(1) u, where i = i and f = "\<lambda>task. task\<lparr>expire_time :=
          expiry (steady_now env (trace s @ [Lock timer_mutex, Read_clock])) (task_interval task)\<rparr>"])
        (simp_all add: run p2p_client_def)
  qed
qed

subsection \<open>The calls of the user\<close>

lemma issue_refines:
  assumes "calls_ok k s" "k < 2 ^ 32"
  shows "refines k s (k + 1) (call_ready env type s m n a b timeout)"
    and "uncalled s (call_ready env type s m n a b timeout)"
proof -
  let ?u = "call_ready env type s m n a b timeout" and ?task = "call_task env type s m n a b timeout"
  have ok: "p2p_client s" "ids_differ (timer_tasks s)" "m_next_timer_id s = of_nat k"
    "\<forall>t\<in>set (timer_tasks s). rid (task_props t) = task_id t"
    "task_id ` set (timer_tasks s) \<subseteq> of_nat ` {..<k}"
    "\<forall>i. 0 < completions i (called (trace s)) \<longrightarrow> i \<in> of_nat ` {..<k}"
    using assms(1) by (simp_all add: calls_ok_def)
  note new = issue_fresh [OF assms(2)]
  have fresh: "find_task (timer_tasks s) (task_id ?task) = None"
    using ok(3,5) new by (auto simp: find_task_None)
  have ids: "ids_differ (timer_tasks ?u)"
    using timers.valid_add [OF ok(2) fresh] by simp
  have set: "set (timer_tasks ?u) = insert ?task (set (timer_tasks s))" by (simp add: push_task_def)
  have task: "task_id ?task = of_nat k" "rid (task_props ?task) = of_nat k"
    using ok(3) by (simp_all add: call_task_def new_TimerTask_def call_props_def)
  show uncalled: "uncalled s ?u"
    by (simp add: uncalled_def call_ready_def)
  note same = uncalled_called [OF this]
  have "calls_ok (k + 1) ?u"
    using ids set task ok same by (auto simp: calls_ok_def lessThan_Suc)
  moreover have stale: "stale ?u = stale s"
    using ok(6) new set task same by (auto simp: stale_def)
  moreover have "of_nat k \<notin> stale s" using ok(6) new by (auto simp: stale_def)
  then have "table_of (k + 1) ?u = (table_of k s)\<lparr>pending := insert (of_nat (issued (table_of k s)))
      (pending (table_of k s)), issued := issued (table_of k s) + 1\<rparr>"
    using set task same stale by (auto simp: table_of_def)
  then have "table_step (table_of k s) (table_of (k + 1) ?u)" by (simp only: table_step.Issue)
  ultimately show "refines k s (k + 1) ?u" by (auto simp: refines_def)
qed

lemma make_call_refines:
  assumes "calls_ok k s" "k < 2 ^ 32"
    and "t = state_after (make_call env type m n a b rpid timeout) s"
  shows "refines k s (k + 1) t \<and> uncalled s t"
proof -
  let ?u = "call_ready env type s m n a b timeout" and ?i = "m_next_timer_id s"
  let ?send = "SendRabbitmqMessage env m b (Some (header_props env (call_props env type s m n a)))"
  let ?finish = "if rpid = NULL then ret () else do {
    ok \<leftarrow> ?send; if ok then ret () else p2pRemoveTimerTask ?i }"
  have "exchange_type s = p2ptype" using assms(1) by (simp add: calls_ok_def)
  then have t: "t = state_after ?finish ?u"
    using assms(3) run_make_call [of s env type m n a b rpid timeout] by (simp add: Let_def split_beta)
  have "along progress ?finish"
    by (intro progress_intros steady_along [OF steady_send(1)])
  then have "progress ?u t" unfolding t by (rule alongD)
  then show ?thesis
    using issue_refines [OF assms(1,2), of env type m n a b timeout]
    by (blast intro: refines_trans uncalled_trans dest: progressD refines_ok)
qed

lemma steady_entered: "steady s (entered s)"
  by (rule steady_events [where es = "[Lock instanceMutex, Unlock instanceMutex]"])
    (simp_all add: p2p_client_def)

text \<open>A request or notification, with all its arguments or without.\<close>

lemma call_refines:
  fixes m n b
  assumes "(type, rm_call) \<in> {(RB_REQUEST, rmRequestMake), (RB_NOTIFICATION, rmNotifyMake)}"
    and "calls_ok k s"
    and "d = (if m = NULL \<or> n = NULL \<or> b = NULL then 0 else 1)" and "k + d \<le> 2 ^ 32"
    and "t = state_after (rm_call env m n a b r timeout) s"
  shows "refines k s (k + d) t \<and> uncalled s t"
proof -
  have client: "p2p_client s" using assms(2) by (simp add: calls_ok_def)
  have enter: "refines k s k (entered s)" "uncalled s (entered s)"
    using steady_progress [OF steady_entered] assms(2) unfolding progress_def by blast+
  show ?thesis
  proof (cases "m = NULL \<or> n = NULL \<or> b = NULL")
    case True
    then have "t = entered s"
      using assms(1,5) client by (cases m; cases n; cases b) (auto simp: rmRequestMake_def rmNotifyMake_def)
    then show ?thesis using assms(3) enter True by simp
  next
    case False
    then obtain m' n' b' where args: "m = Some m'" "n = Some n'" "b = Some b'"
      by (cases m; cases n; cases b) auto
    then have "t = state_after (make_call env type m' n' a b' r timeout) (entered s)"
      using assms(1,5) client by (auto simp: rmRequestMake_def rmNotifyMake_def)
    moreover have "calls_ok k (entered s)" using enter(1) by (simp add: refines_def)
    ultimately have "refines k (entered s) (k + 1) t \<and> uncalled (entered s) t"
      using assms(3,4) args by (intro make_call_refines) simp_all
    then show ?thesis using enter refines_trans uncalled_trans assms(3) args by auto
  qed
qed

lemma steady_ignore: "along steady m \<Longrightarrow> along steady (ignore m)"
  unfolding ignore_def by (intro steady_intros)

lemma steady_perform:
  assumes "ids_taken c = 0"
  shows "along steady (perform env c)"
proof -
  have call: "along steady (ignore (rm_call env m n a b r timeout))"
    if "m = NULL \<or> n = NULL \<or> b = NULL" "rm_call \<in> {rmRequestMake, rmNotifyMake}"
    for rm_call m n a b r timeout
    using that by (cases m; cases n; cases b)
      (auto simp: rmRequestMake_def rmNotifyMake_def intro!: steady_ignore steady_intros)
  show ?thesis
  proof (cases c)
    case (Request m n a b r timeout)
    with assms have "m = NULL \<or> n = NULL \<or> b = NULL" by (cases m; cases n; cases b) simp_all
    then show ?thesis using call Request by simp
  next
    case (Notification m n a b r timeout)
    with assms have "m = NULL \<or> n = NULL \<or> b = NULL" by (cases m; cases n; cases b) simp_all
    then show ?thesis using call Notification by simp
  qed (simp_all add: steady_ignore steady_publish steady_topic steady_interface)
qed

lemma perform_refines:
  assumes "calls_ok k s" "k + ids_taken c \<le> 2 ^ 32" "t = state_after (perform env c) s"
  shows "refines k s (k + ids_taken c) t \<and> uncalled s t"
proof (cases "ids_taken c = 0")
  case True
  then show ?thesis
    using alongD [OF steady_along [OF steady_perform [OF True]], of s env] assms(1,3)
    by (simp add: progress_def)
next
  case False
  have ignore: "state_after (ignore f) s = state_after f s" for f :: "'b op"
    by (simp add: ignore_def split_beta)
  note call = call_refines [OF _ assms(1) refl _ refl, where m = "Some m" and n = "Some n" and b = "Some b" for m n b]
  show ?thesis
    using False assms(2,3) call [of RB_REQUEST rmRequestMake] call [of RB_NOTIFICATION rmNotifyMake]
    by (cases c rule: ids_taken.cases) (auto simp: ignore)
qed

lemma uncalled_send [uncalled_intros]:
  "along uncalled (SendRabbitmqMessage env routing msg inprops)"
  using steady_send(1) by (rule along_mono) (simp add: steady_def)

lemma uncalled_perform: "along uncalled (perform env c)"
proof (cases "ids_taken c = 0")
  case True
  show ?thesis by (rule along_mono [OF steady_perform [OF True]]) (simp add: steady_def)
next
  case False
  have call: "along uncalled (make_call env type m n a b r timeout)" for type m n a b r timeout
    unfolding make_call_def p2pReqTimerId_def p2pAddTimerTask_def p2pRemoveTimerTask_def GetModuleName_def
      Let_def
    by (intro uncalled_intros) simp_all
  have inst: "along uncalled (getInstance env p2ptype)"
    using steady_instance by (rule along_mono) (simp add: steady_def)
  from False show ?thesis
    by (cases c rule: ids_taken.cases)
      (auto simp: ignore_def rmRequestMake_def rmNotifyMake_def intro!: uncalled_intros inst call)
qed

end
