(* ===== verification/Call_Runs.thy ===== *)
theory Call_Runs
  imports Call_Table "HOL-Library.Sublist"
begin

section \<open>The table of pending calls in runs of a client\<close>

text \<open>
  Every run of a client in service refines the table of pending calls (theory \<open>Call_Table\<close>), also
  when the functions the client calls make calls of their own: a request may be made from the callback
  for the answer to another. The number of ids a run takes is counted along its history.
\<close>

subsection \<open>The ids that reactions take\<close>

definition ids_of :: "api_call list \<Rightarrow> nat" where
  "ids_of calls = sum_list (map ids_taken calls)"

lemma ids_of_simps [simp]: "ids_of [] = 0" "ids_of (c # cs) = ids_taken c + ids_of cs"
  by (simp_all add: ids_of_def)

lemma ids_of_append [simp]: "ids_of (cs @ ds) = ids_of cs + ids_of ds"
  by (simp add: ids_of_def)

lemma ids_of_none: "takes_no_id cs \<Longrightarrow> ids_of cs = 0"
  by (induction cs) (simp_all add: takes_no_id_def)

text \<open>The ids taken by the reaction to the last event of a history, and by all reactions in it.\<close>

definition last_ids :: "(event list \<Rightarrow> callback_call \<Rightarrow> api_call list) \<Rightarrow> event list \<Rightarrow> nat" where
  "last_ids react h = (case rev h of Called c # before \<Rightarrow> ids_of (react h c) | _ \<Rightarrow> 0)"

definition reaction_ids ::
  "(event list \<Rightarrow> callback_call \<Rightarrow> api_call list) \<Rightarrow> event list \<Rightarrow> nat" where
  "reaction_ids react h = sum_list (map (last_ids react) (prefixes h))"

lemma reaction_ids_Nil [simp]: "reaction_ids react [] = 0"
  by (simp add: reaction_ids_def last_ids_def)

lemma reaction_ids_Called [simp]:
  "reaction_ids react (h @ [Called c]) = reaction_ids react h + ids_of (react (h @ [Called c]) c)"
  by (simp add: reaction_ids_def last_ids_def)

lemma reaction_ids_other: "\<not> is_called e \<Longrightarrow> reaction_ids react (h @ [e]) = reaction_ids react h"
  by (cases e) (simp_all add: reaction_ids_def last_ids_def)

lemma reaction_ids_uncalled: "called es = [] \<Longrightarrow> reaction_ids react (h @ es) = reaction_ids react h"
proof (induction es rule: rev_induct)
  case (snoc e es)
  then have "\<not> is_called e" "called es = []" by (cases e; simp)+
  then show ?case using snoc.IH reaction_ids_other [of e react "h @ es"] by simp
qed simp

lemma reaction_ids_mono: "reaction_ids react h \<le> reaction_ids react (h @ es)"
  by (simp add: reaction_ids_def prefixes_append)

lemma uncalled_ids: "uncalled s t \<Longrightarrow> reaction_ids react (trace t) = reaction_ids react (trace s)"
  by (auto simp: uncalled_def reaction_ids_uncalled)

subsection \<open>What a function of the user does\<close>

lemma performs_refine:
  assumes "calls_ok k s" "k + ids_of calls \<le> 2 ^ 32"
  shows "refines k s (k + ids_of calls) (state_after (for_each calls (perform env)) s) \<and>
    uncalled s (state_after (for_each calls (perform env)) s)"
  using assms
proof (induction calls arbitrary: k s)
  case Nil
  then show ?case by (simp add: refines_refl)
next
  case (Cons c calls)
  let ?t = "state_after (perform env c) s"
  have first: "refines k s (k + ids_taken c) ?t" "uncalled s ?t"
    using perform_refines [OF Cons.prems(1) _ refl, of c env] Cons.prems(2) by simp_all
  show ?case
    using first Cons.IH [OF refines_ok [OF first(1)]] Cons.prems(2)
    by (auto simp: split_beta add.assoc intro: refines_trans uncalled_trans)
qed

text \<open>
  From \<open>s\<close> to \<open>t\<close> the table advances by its steps, counting the \<open>k\<close> ids the user has taken and those
  of the reactions; no callback is running at either end.
\<close>

definition reacts ::
  "(event list \<Rightarrow> callback_call \<Rightarrow> api_call list) \<Rightarrow> nat \<Rightarrow> RabbitMQWrapper \<Rightarrow> RabbitMQWrapper \<Rightarrow> bool" where
  "reacts react k s t \<longleftrightarrow> prefix (trace s) (trace t) \<and>
     (calls_ok (k + reaction_ids react (trace s)) s \<and> stale s = {} \<and>
        k + reaction_ids react (trace t) \<le> 2 ^ 32 \<longrightarrow>
      refines (k + reaction_ids react (trace s)) s (k + reaction_ids react (trace t)) t)"

lemma ids_prefix: "prefix h h' \<Longrightarrow> reaction_ids react h \<le> reaction_ids react h'"
  using reaction_ids_mono by (auto simp: prefix_def)

lemma reacts_trans:
  assumes "reacts react k s t" "reacts react k t u"
  shows "reacts react k s u"
proof -
  have pre: "prefix (trace s) (trace t)" "prefix (trace t) (trace u)"
    using assms by (simp_all add: reacts_def)
  note ids_prefix [OF pre(2), of react]
  then show ?thesis
    using assms pre refines_trans [of _ s _ t _ u] prefix_order.trans [OF pre]
    unfolding reacts_def by (auto simp: refines_def)
qed

lemma progress_reacts: "progress s t \<Longrightarrow> reacts react k s t"
  unfolding reacts_def progress_def using uncalled_ids [of s t react]
  by (auto simp: uncalled_def)

interpretation reacts: event_relation "reacts react k" "\<lambda>e. \<not> is_called e" for react k
proof unfold_locales
  show "reacts react k s t \<Longrightarrow> reacts react k t u \<Longrightarrow> reacts react k s u" for s t u
    by (rule reacts_trans)
qed (auto intro!: progress_reacts steady_progress steady_event steady.rel_refl)

named_theorems reacts_intros
declare reacts.along_intros [reacts_intros] reacts.event_intros [reacts_intros]
  reacts.along_emit [reacts_intros]

lemma progress_along: "along progress m \<Longrightarrow> along (reacts react k) m"
  by (erule along_mono) (rule progress_reacts)

lemmas along_reacts = progress_along [OF steady_along]

lemma reacts_locked [reacts_intros]: "along (reacts react k) f \<Longrightarrow> along (reacts react k) (locked m f)"
  unfolding locked_def by (intro reacts_intros) simp_all

lemma reacting_prefix: "prefix (trace s) (trace (state_after (reacting env react c) s))"
proof -
  have "orderly 1 (for_each calls (perform env))" for calls
    by (intro orderly_intros orderly_perform)
  from alongD [OF this, of "s\<lparr>trace := trace s @ [Called c]\<rparr>" "react (trace s @ [Called c]) c"]
  show ?thesis by (auto simp: run_reacting tidy_def)
qed

text \<open>A function that completes no call.\<close>

lemma call_steady:
  fixes s :: RabbitMQWrapper
  assumes "completes c = None"
  shows "stale (s\<lparr>trace := trace s @ [Called c]\<rparr>) = stale s"
    and "table_of k (s\<lparr>trace := trace s @ [Called c]\<rparr>) = table_of k s"
    and "calls_ok k (s\<lparr>trace := trace s @ [Called c]\<rparr>) = calls_ok k s"
  using assms by (simp_all add: stale_def table_of_def calls_ok_def p2p_client_def completions_def)

lemma run_reaction:
  assumes "t = state_after (reacting env react c) s" and "u = s\<lparr>trace := trace s @ [Called c]\<rparr>"
    and "calls_ok (k + reaction_ids react (trace s)) u" and "k + reaction_ids react (trace t) \<le> 2 ^ 32"
  shows "refines (k + reaction_ids react (trace s)) u (k + reaction_ids react (trace t)) t"
    and "called (trace t) = called (trace s) @ [c]"
proof -
  let ?calls = "react (trace u) c"
  have t: "t = state_after (for_each ?calls (perform env)) u" by (simp add: assms(1,2) run_reacting)
  have ext: "uncalled u t"
    unfolding t
  proof (rule alongD [of uncalled])
    show "along uncalled (for_each ?calls (perform env))"
      by (intro uncalled_intros uncalled_perform)
  qed
  have ids: "reaction_ids react (trace t) = reaction_ids react (trace s) + ids_of ?calls"
    using uncalled_ids [OF ext, of react] by (simp add: assms(2))
  show "refines (k + reaction_ids react (trace s)) u (k + reaction_ids react (trace t)) t"
    using performs_refine [OF assms(3), of ?calls env] assms(4) ids t by (simp add: add.assoc)
  show "called (trace t) = called (trace s) @ [c]"
    using uncalled_called [OF ext] by (simp add: assms(2))
qed

lemma reacting_other [reacts_intros]:
  assumes "completes c = None"
  shows "along (reacts react k) (reacting env react c)"
proof (rule alongI, unfold reacts_def, intro conjI impI reacting_prefix)
  fix s
  let ?t = "state_after (reacting env react c) s" and ?u = "s\<lparr>trace := trace s @ [Called c]\<rparr>"
  assume a: "calls_ok (k + reaction_ids react (trace s)) s \<and> stale s = {} \<and>
    k + reaction_ids react (trace ?t) \<le> 2 ^ 32"
  note same = call_steady [OF assms, where s = s]
  have "refines (k + reaction_ids react (trace s)) ?u (k + reaction_ids react (trace ?t)) ?t"
    using a same by (intro run_reaction(1) [OF refl refl]) simp_all
  then show "refines (k + reaction_ids react (trace s)) s (k + reaction_ids react (trace ?t)) ?t"
    using same by (simp add: refines_def)
qed

subsection \<open>Received messages\<close>

text \<open>Histories only grow.\<close>

definition grows :: "RabbitMQWrapper \<Rightarrow> RabbitMQWrapper \<Rightarrow> bool" where
  "grows s t \<longleftrightarrow> prefix (trace s) (trace t)"

interpretation grows: event_relation grows "\<lambda>e. True"
  by unfold_locales (auto simp: grows_def intro: prefix_order.trans)

lemma uncalled_grows: "along uncalled m \<Longrightarrow> along grows m"
  by (erule along_mono) (auto simp: uncalled_def grows_def)

lemma grows_reacting: "along grows (reacting env react c)"
  by (rule alongI) (simp add: grows_def reacting_prefix)

lemma grows_final: "along grows (final_response (reacting env react) f p msg info)"
proof -
  have "along grows (p2pRemoveTimerTask i)" for i
    by (intro uncalled_grows along_mono [OF progress_remove]) (simp add: progress_def)
  then show ?thesis
    unfolding final_response_def
    by (intro grows.along_intros grows.event_intros grows_reacting)
qed

lemma reacts_if:
  assumes "grows s t" "calls_ok (k + reaction_ids react (trace s)) s \<Longrightarrow> stale s = {} \<Longrightarrow> reacts react k s t"
  shows "reacts react k s t"
  using assms by (auto simp: reacts_def grows_def)

text \<open>
  A final response: the callback completes the call, what the callback does follows, and then the task,
  stale by now, is removed.
\<close>

lemma final_reacts:
  assumes "p2p_client s" and "stale s = {}" and "find_task (timer_tasks s) (rid p) = Some task"
    and "t = state_after (final_response (reacting env react) f p msg (Some task)) s"
  shows "reacts react k s t"
proof (cases "msgtype (task_props task) = RB_REQUEST")
  case False
  then have "t = state_after (p2pRemoveTimerTask (rid p)) s"
    by (simp add: assms(4) final_response_def split_beta)
  then show ?thesis using progress_reacts alongD [OF progress_remove] by simp
next
  case True
  let ?c = "final_call f task p msg" and ?k = "k + reaction_ids react (trace s)"
  define u where "u = s\<lparr>trace := trace s @ [Called ?c]\<rparr>"
  define v where "v = state_after (reacting env react ?c) s"
  have t: "t = state_after (p2pRemoveTimerTask (rid p)) v"
    using True by (simp add: assms(4) final_response_def v_def final_call_def split_beta)
  have remove: "progress v t" unfolding t by (rule alongD [OF progress_remove])
  have vt: "uncalled v t" using remove by (simp add: progress_def)
  have "prefix (trace s) (trace v)" by (simp add: v_def reacting_prefix)
  moreover have "prefix (trace v) (trace t)" using vt by (auto simp: uncalled_def)
  ultimately have "prefix (trace s) (trace t)" by (rule prefix_order.trans)
  moreover have "refines ?k s (k + reaction_ids react (trace t)) t"
    if ok: "calls_ok ?k s" and bound: "k + reaction_ids react (trace t) \<le> 2 ^ 32"
  proof -
    have i: "rid p \<in> task_id ` set (timer_tasks s) - stale s"
      using assms(2,3) find_task_None [of "timer_tasks s" "rid p"] by auto
    note made = complete_refines [OF ok _ i u_def]
    have c: "completes ?c = Some (rid p)" by (simp add: final_call_def)
    note ids = uncalled_ids [OF vt, of react]
    note after = run_reaction [OF v_def u_def made(1) [OF c] bound [unfolded ids]]
    have "stale v \<subseteq> {rid p}" using after(1) made(2) [OF c] assms(2) by (simp add: refines_def)
    moreover have v: "calls_ok (k + reaction_ids react (trace v)) v" using after(1) by (rule refines_ok)
    moreover from v have client: "p2p_client v" by (simp add: calls_ok_def)
    moreover have "stale t = stale v - {rid p}"
      using client by (intro drop_refines(2) [OF v, where cs = "[]"])
        (simp_all add: t run_remove_task p2p_client_def)
    ultimately have "stale t \<subseteq> stale s" by auto
    moreover have "refines (k + reaction_ids react (trace v)) v (k + reaction_ids react (trace t)) t"
      using remove v ids by (simp add: progress_def)
    ultimately show ?thesis
      using made(3) [OF c] after(1) by (auto simp: refines_def intro: converse_rtranclp_into_rtranclp)
  qed
  ultimately show ?thesis by (simp add: reacts_def)
qed

lemma reacts_handle_final:
  assumes "msgtype p = RB_FINAL_RESPONSE"
  shows "along (reacts react k) (p2pHandleMessage (reacting env react) env routing msg p)"
proof (rule alongI)
  fix s
  let ?t = "state_after (p2pHandleMessage (reacting env react) env routing msg p) s"
  show "reacts react k s ?t"
  proof (cases "m_cbRespFinal (stClientCBHandle s)")
    case None
    then have "?t = s" using assms by (simp add: p2pHandleMessage_def Let_def)
    then show ?thesis by (simp add: reacts.rel_refl)
  next
    case (Some f)
    obtain info u where u: "run_state (p2pGetTimerTaskInfo (rid p)) s = (info, u)" by fastforce
    then have t: "?t = state_after (final_response (reacting env react) f p msg info) u"
      using Some assms by (simp add: p2pHandleMessage_def Let_def split_beta)
    have su: "reacts react k s u"
      using alongD [OF steady_get_task, of s "rid p"] u by (simp add: progress_reacts steady_progress)
    have "reacts react k u ?t"
    proof (cases info)
      case None
      have "along (reacts react k) (final_response (reacting env react) f p msg NULL)"
        unfolding final_response_def by (simp add: reacts_intros)
      with None show ?thesis unfolding t by (simp add: alongD)
    next
      case (Some task)
      show ?thesis
      proof (rule reacts_if)
        show "grows u ?t" unfolding t by (rule alongD [OF grows_final])
      next
        assume "calls_ok (k + reaction_ids react (trace u)) u" and stale: "stale u = {}"
        then have client: "p2p_client u" by (simp add: calls_ok_def)
        have "exchange_type s = exchange_type u"
          using u by (auto simp: p2pGetTimerTaskInfo_def split: if_splits)
        then have "exchange_type s = p2ptype" using p2p_client_type [OF client] by simp
        then have "find_task (timer_tasks u) (rid p) = Some task" using u Some by (auto simp: run_get_task)
        then show "reacts react k u ?t" using final_reacts [OF client stale] t Some by blast
      qed
    qed
    with su show ?thesis by (rule reacts_trans)
  qed
qed

lemma reacts_handle_other:
  assumes "msgtype p \<noteq> RB_FINAL_RESPONSE"
  shows "along (reacts react k) (p2pHandleMessage (reacting env react) env routing msg p)"
proof -
  note parts = along_reacts [OF steady_interface(3)] along_reacts [OF steady_get_task]
    progress_along [OF progress_restart]
  show ?thesis
    unfolding p2pHandleMessage_def Let_def
    by (intro reacts.along_bind reacts.along_get)
      (auto simp: assms split: message_type_t.splits option.splits intro!: reacts_intros parts)
qed

lemma reacts_p2pHandle [reacts_intros]:
  "along (reacts react k) (p2pHandleMessage (reacting env react) env routing msg p)"
  using reacts_handle_final reacts_handle_other by blast

lemma reacts_dispatch [reacts_intros]:
  "along (reacts react k) (dispatch (reacting env react) env' es routing msg p)"
  by (induction es) (auto intro!: reacts_intros)

lemma reacts_handlers [reacts_intros]:
  "along (reacts react k) (handle_message (reacting env react) env routing msg p)"
  unfolding handle_message_def topicHandleMessage_def fanoutHandleMessage_def
  by (intro reacts_intros) simp_all

lemma reacts_receive [reacts_intros]:
  "along (reacts react k) (receive_message (reacting env react) env envelope)"
proof -
  have "along (reacts react k) (read_properties env props)" for props
    unfolding read_properties_def
    by (cases "AmqpTable2IntProps (headers props) (uninit_props env)") (auto intro!: reacts_intros)
  then show ?thesis unfolding receive_message_def by (intro reacts_intros)
qed

subsection \<open>Time\<close>

text \<open>What the functions for timeouts do leaves the tasks alone.\<close>

lemma steady_performs: "takes_no_id calls \<Longrightarrow> along steady (for_each calls (perform env))"
  by (induction calls) (auto simp: takes_no_id_def intro!: steady_intros steady_perform)

lemma reacting_timeout:
  assumes "timeouts_take_no_id react" "is_timeout c" "p2p_client s"
    and "t = state_after (reacting env react c) s"
  shows "timer_tasks t = timer_tasks s \<and> m_next_timer_id t = m_next_timer_id s \<and> p2p_client t \<and>
    called (trace t) = called (trace s) @ [c] \<and>
    reaction_ids react (trace t) = reaction_ids react (trace s)"
proof -
  let ?u = "s\<lparr>trace := trace s @ [Called c]\<rparr>" and ?calls = "react (trace s @ [Called c]) c"
  have no_id: "takes_no_id ?calls" using assms(1,2) by (simp add: timeouts_take_no_id_def)
  have "steady ?u t" unfolding assms(4) run_reacting by (rule alongD [OF steady_performs [OF no_id]])
  moreover have "p2p_client ?u" using assms(3) by (simp add: p2p_client_def)
  ultimately show ?thesis
    using uncalled_called [of ?u t] uncalled_ids [of ?u t react] ids_of_none [OF no_id]
    by (simp add: steady_def)
qed

lemma timeout_proc:
  assumes "timeouts_take_no_id react" "p2p_client s"
    and "t = state_after (p2pTimeoutProc (reacting env react) task) s"
  shows "timer_tasks t = timer_tasks s \<and> m_next_timer_id t = m_next_timer_id s \<and> p2p_client t \<and>
    called (trace t) = called (trace s) @ timeout_calls (stClientCBHandle s) task \<and>
    reaction_ids react (trace t) = reaction_ids react (trace s)"
proof -
  let ?u = "s\<lparr>trace := trace s @ [Logged (''timerout, id: '' @ to_string (sint (task_id task)))]\<rparr>"
  have u: "p2p_client ?u" "reaction_ids react (trace ?u) = reaction_ids react (trace s)"
    using assms(2) by (simp_all add: p2p_client_def reaction_ids_other)
  show ?thesis
    using reacting_timeout [OF assms(1) _ u(1) refl, of _ env] u assms(2)
    by (auto simp: assms(3) p2pTimeoutProc_def timeout_calls_def Let_def
        split: message_type_t.splits option.splits)
qed

lemma drop_middle:
  "ids_differ (seen @ t # todo) \<Longrightarrow> drop_task (task_id t) (seen @ t # todo) = seen @ todo"
  by (induction seen) (auto simp: drop_task_def ids_differ_def)

lemma timeout_calls_complete:
  assumes "rid (task_props t) = task_id t"
  shows "list_all (\<lambda>c. completes c = None) (timeout_calls h t) \<or>
    (\<exists>c. timeout_calls h t = [c] \<and> completes c = Some (task_id t))"
  using assms by (auto simp: timeout_calls_def Let_def split: message_type_t.splits option.splits)

text \<open>One task that has expired.\<close>

lemma expire_one:
  assumes "timeouts_take_no_id react" "calls_ok k s" "stale s = {}" "timer_tasks s = seen @ task # todo"
    and "t = (state_after (p2pTimeoutProc (reacting env react) task) s)\<lparr>timer_tasks := seen @ todo\<rparr>"
  shows "refines k s k t" and "reaction_ids react (trace t) = reaction_ids react (trace s)"
    and "called (trace t) = called (trace s) @ timeout_calls (stClientCBHandle s) task"
    and "timer_tasks t = drop_task (task_id task) (timer_tasks s)"
proof -
  define u where "u = state_after (p2pTimeoutProc (reacting env react) task) s"
  have t: "t = u\<lparr>timer_tasks := seen @ todo\<rparr>" using assms(5) by (simp add: u_def)
  have ok: "p2p_client s" "ids_differ (seen @ task # todo)" "rid (task_props task) = task_id task"
    using assms(2,4) by (simp_all add: calls_ok_def)
  note u = timeout_proc [OF assms(1) ok(1) u_def]
  show ids: "reaction_ids react (trace t) = reaction_ids react (trace s)"
    and called: "called (trace t) = called (trace s) @ timeout_calls (stClientCBHandle s) task"
    using u by (simp_all add: t)
  show tasks: "timer_tasks t = drop_task (task_id task) (timer_tasks s)"
    by (simp add: t assms(4) drop_middle [OF ok(2)])
  show "refines k s k t"
  proof (rule drop_refines(1) [OF assms(2) tasks _ _ called])
    show "list_all (\<lambda>c. completes c = None) (timeout_calls (stClientCBHandle s) task) \<or>
        (\<exists>c. timeout_calls (stClientCBHandle s) task = [c] \<and> completes c = Some (task_id task)) \<and>
        task_id task \<in> task_id ` set (timer_tasks s) - stale s"
      using timeout_calls_complete [OF ok(3)] assms(3,4) by simp
  qed (use u in \<open>simp_all add: t p2p_client_def\<close>)
qed

lemma expire_refines:
  assumes "timeouts_take_no_id react" "calls_ok k s" "stale s = {}" "timer_tasks s = seen @ todo"
    and "t = state_after (expire_loop (reacting env react) ids seen todo) s"
  shows "refines k s k t \<and> reaction_ids react (trace t) = reaction_ids react (trace s)"
  using assms(2-5)
proof (induction todo arbitrary: seen s)
  case Nil
  then show ?case by (simp add: refines_refl)
next
  case (Cons task todo)
  show ?case
  proof (cases "task_id task \<in> set ids")
    case False
    then show ?thesis using Cons.IH [of s "seen @ [task]"] Cons.prems by simp
  next
    case True
    define v where "v = (state_after (p2pTimeoutProc (reacting env react) task) s)\<lparr>timer_tasks := seen @ todo\<rparr>"
    note one = expire_one [OF assms(1) Cons.prems(1-3) v_def]
    have "t = state_after (expire_loop (reacting env react) ids seen todo) v"
      using True Cons.prems(4) by (simp add: v_def split_beta)
    moreover have "stale v = {}" "timer_tasks v = seen @ todo"
      using one(1) Cons.prems(2) by (simp_all add: refines_def v_def)
    ultimately show ?thesis using Cons.IH [OF refines_ok [OF one(1)]] one refines_trans by auto
  qed
qed

lemma grows_expire: "along grows (expire_loop (reacting env react) ids seen todo)"
proof -
  have "along grows (p2pTimeoutProc (reacting env react) task)" for task
    unfolding p2pTimeoutProc_def Let_def
    by (intro grows.along_intros grows.event_intros)
      (auto split: message_type_t.splits option.splits intro: grows_reacting grows.along_return)
  moreover have "along grows (modify (\<lambda>s. s\<lparr>timer_tasks := ts\<rparr>))" for ts
    by (simp add: along_def grows_def)
  ultimately show ?thesis
    by (induction todo arbitrary: seen) (auto intro!: grows.along_intros)
qed

lemma reacts_timer_round:
  assumes "timeouts_take_no_id react"
  shows "along (reacts react k) (timer_round (reacting env react) env')"
proof (rule alongI)
  fix s :: RabbitMQWrapper
  let ?s = "s\<lparr>trace := trace s @ [Lock timer_mutex, Read_clock]\<rparr>"
  define ids where "ids = map task_id (filter (expired (steady_now env' (trace ?s))) (timer_tasks s))"
  define u where "u = state_after (only_if (ids \<noteq> []) (expire_loop (reacting env react) ids [] (timer_tasks s))) ?s"
  let ?t = "u\<lparr>trace := trace u @ [Unlock timer_mutex, Slept 1000]\<rparr>"
  have t: "state_after (timer_round (reacting env react) env') s = ?t"
    by (simp add: timer_round_def ids_def u_def Let_def split_beta)
  have "steady s ?s"
    by (rule steady_events [where es = "[Lock timer_mutex, Read_clock]"]) (simp_all add: p2p_client_def)
  moreover have "steady u ?t"
    by (rule steady_events [where es = "[Unlock timer_mutex, Slept 1000]"]) (simp_all add: p2p_client_def)
  moreover have "reacts react k ?s u"
  proof (cases "ids = []")
    case True
    then show ?thesis by (simp add: u_def reacts.rel_refl)
  next
    case False
    then have u: "u = state_after (expire_loop (reacting env react) ids [] (timer_tasks s)) ?s"
      by (simp add: u_def)
    show ?thesis
      using expire_refines [OF assms, of _ ?s "[]" "timer_tasks s" u env ids]
        alongD [OF grows_expire, of ?s env react ids "[]" "timer_tasks s"] u
      by (auto simp: reacts_def grows_def)
  qed
  ultimately show "reacts react k s (state_after (timer_round (reacting env react) env') s)"
    unfolding t using reacts_trans progress_reacts steady_progress by meson
qed

subsection \<open>Runs of the system\<close>

lemma steady_kept: "kept s t \<Longrightarrow> uncalled s t \<Longrightarrow> steady s t"
  by (simp add: steady_def kept_def p2p_client_def)

lemma steady_reconnect [steady_intros]: "along steady (ReconnectProc env)"
proof (rule alongI, rule steady_kept [OF ReconnectProc_kept])
  fix s
  show "uncalled s (state_after (ReconnectProc env) s)"
  proof (cases "conn_mutex \<in> set (held (trace s))")
    case True
    then show ?thesis
      by (intro uncalled_events [where es = "[Logged ''reconnect proc...'', Lock conn_mutex]"])
        (simp_all add: ReconnectProc_stuck)
  next
    case False
    let ?s = "s\<lparr>trace := trace s @ [Logged ''reconnect proc...'', Lock conn_mutex]\<rparr>"
    obtain es where "trace (state_after (reconnect_locked env) ?s) = trace ?s @ es" "called es = []"
      using conjunct2 [OF reconnect_locked_summary [OF refl refl, of env ?s]] by (auto simp: adds_def)
    then show ?thesis
      by (intro uncalled_events [where es = "[Logged ''reconnect proc...'', Lock conn_mutex] @ es @ [Unlock conn_mutex]"])
        (simp_all add: ReconnectProc_run [OF False refl])
  qed
qed

lemma steady_heartbeat [steady_intros]: "along steady (modify (\<lambda>s. s\<lparr>heartbeaterr := f s\<rparr>))"
  by (rule steady_modify, rule steady_same) (simp_all add: p2p_client_def)

lemma steady_restart_thread [steady_intros]: "along steady (reconnect_restart env)"
  unfolding reconnect_restart_def by (intro steady_intros)

lemma steady_subscribe: "along steady (recv_subscribe env)"
  unfolding recv_subscribe_def recv_consume_def amqp_basic_consume_def by (intro steady_intros) simp_all

lemma steady_send_round: "along steady (send_round env cnt)"
  unfolding send_round_def Let_def by (intro steady_intros) simp_all

lemma reacts_recv_step: "along (reacts react k) (recv_step (reacting env react) env pc)"
proof -
  note restart = along_reacts [OF steady_restart_thread]
  have "along (reacts react k) (recv_reply (reacting env react) env r envelope)" for r envelope
    unfolding recv_reply_def by (intro reacts_intros restart) simp_all
  then have "along (reacts react k) (recv_round (reacting env react) env)"
    unfolding recv_round_def by (intro reacts_intros restart) simp_all
  then show ?thesis
    by (cases pc) (simp_all add: recv_step_def along_reacts [OF steady_subscribe] reacts.along_return)
qed

lemma reacts_timer_step:
  "timeouts_take_no_id react \<Longrightarrow> along (reacts react k) (timer_step (reacting env react) env)"
  unfolding timer_step_def by (intro reacts_intros reacts_timer_round)

text \<open>A run: \<open>k\<close> ids before it, those of the user's calls, and those of the reactions.\<close>

lemma reacts_step:
  assumes "reacts react (k + n) s t" "stale r = {}"
    and "prefix (trace r) (trace s) \<and> (k + n + reaction_ids react (trace s) \<le> 2 ^ 32 \<longrightarrow>
      refines l r (k + n + reaction_ids react (trace s)) s)"
  shows "prefix (trace r) (trace t) \<and> (k + n + reaction_ids react (trace t) \<le> 2 ^ 32 \<longrightarrow>
      refines l r (k + n + reaction_ids react (trace t)) t)"
proof -
  have pre: "prefix (trace s) (trace t)" using assms(1) by (simp add: reacts_def)
  show ?thesis
    using assms ids_prefix [OF pre, of react] prefix_order.trans [OF _ pre]
      refines_trans [of l r _ s _ t]
    unfolding reacts_def by (auto simp: refines_def)
qed

lemma run_prefix:
  assumes "system_run (reacting env react) env start cs sys"
  shows "prefix (trace (client start)) (trace (client sys))"
  using assms
proof induction
  case (Call cs sys c)
  have "grows (client sys) (state_after (perform env c) (client sys))"
    by (rule alongD [OF uncalled_grows [OF uncalled_perform]])
  with Call show ?case by (auto simp: grows_def intro: prefix_order.trans)
next
  case (Receive cs sys pc t)
  have "reacts react 0 (client sys) t"
    using alongD [OF reacts_recv_step, of react 0 "client sys" env "recv_at sys"] Receive.hyps(3) by simp
  with Receive.IH show ?case by (auto simp: reacts_def intro: prefix_order.trans)
next
  case (Send cs sys cnt next_cnt t)
  have "reacts react 0 (client sys) t"
    using alongD [OF along_reacts [OF steady_send_round], of react 0 "client sys" env cnt] Send.hyps(4) by simp
  with Send.IH show ?case by (auto simp: reacts_def intro: prefix_order.trans)
next
  case (Timer cs sys goes_on t)
  have "along grows (timer_step (reacting env react) env)"
    unfolding timer_step_def timer_round_def Let_def locked_def
    by (intro grows.along_intros grows.event_intros grows.along_emit grows_expire) simp_all
  from alongD [OF this, of "client sys"] Timer show ?case by (auto simp: grows_def intro: prefix_order.trans)
qed simp_all

lemma run_refines:
  assumes "system_run (reacting env react) env start cs sys" and "timeouts_take_no_id react"
    and "calls_ok (k + reaction_ids react (trace (client start))) (client start)"
    and "stale (client start) = {}"
  shows "prefix (trace (client start)) (trace (client sys)) \<and>
    (k + ids_of cs + reaction_ids react (trace (client sys)) \<le> 2 ^ 32 \<longrightarrow>
      refines (k + reaction_ids react (trace (client start))) (client start)
        (k + ids_of cs + reaction_ids react (trace (client sys))) (client sys))"
  using assms(1)
proof induction
  case Start
  then show ?case using assms(3) by (simp add: refines_refl)
next
  case (Call cs sys c)
  let ?t = "state_after (perform env c) (client sys)"
  have un: "uncalled (client sys) ?t" by (rule alongD [OF uncalled_perform])
  note same = uncalled_ids [OF un, of react]
  have "prefix (trace (client sys)) (trace ?t)" using un by (auto simp: uncalled_def)
  moreover have "refines (k + ids_of cs + reaction_ids react (trace (client sys))) (client sys)
      (k + ids_of cs + reaction_ids react (trace (client sys)) + ids_taken c) ?t"
    if "calls_ok (k + ids_of cs + reaction_ids react (trace (client sys))) (client sys)"
      "k + ids_of cs + reaction_ids react (trace (client sys)) + ids_taken c \<le> 2 ^ 32"
    using perform_refines [OF that refl] by simp
  ultimately show ?case
    using Call.IH same by (auto simp: ac_simps intro: refines_trans prefix_order.trans dest: refines_ok)
next
  case (Receive cs sys pc t)
  have "reacts react (k + ids_of cs) (client sys) t"
    using alongD [OF reacts_recv_step, of react "k + ids_of cs" "client sys" env "recv_at sys"] Receive.hyps(3) by simp
  from reacts_step [OF this assms(4) Receive.IH] show ?case by simp
next
  case (Send cs sys cnt next_cnt t)
  have "reacts react (k + ids_of cs) (client sys) t"
    using alongD [OF along_reacts [OF steady_send_round], of react "k + ids_of cs" "client sys" env cnt] Send.hyps(4)
    by simp
  from reacts_step [OF this assms(4) Send.IH] show ?case by simp
next
  case (Timer cs sys goes_on t)
  have "reacts react (k + ids_of cs) (client sys) t"
    using alongD [OF reacts_timer_step [OF assms(2)], of "k + ids_of cs" "client sys" env] Timer.hyps(4) by simp
  from reacts_step [OF this assms(4) Timer.IH] show ?case by simp
next
  case (Stop cs sys)
  have "steady (client sys) ((client sys)\<lparr>stopThreads := True\<rparr>)"
    by (rule steady_same) (simp_all add: p2p_client_def)
  then have "reacts react (k + ids_of cs) (client sys) ((client sys)\<lparr>stopThreads := True\<rparr>)"
    by (intro progress_reacts steady_progress)
  from reacts_step [OF this assms(4) Stop.IH] show ?case by simp
qed

text \<open>
  C2: The requests and notifications of a client refine the table of pending calls, in every
  interleaving of whole steps: calls of the user, messages received and rounds of the threads, each
  carried through, with what the user's functions call in turn, before the next begins. Whatever the
  user calls and the broker delivers, if the functions for timeouts make no request and no
  notification and no more than \<open>2 ^ 32\<close> ids are taken (by a counter that wraps), the pending tasks and
  the callbacks made follow a sequence of steps of the table, which issues as many calls as ids have
  been taken, and every task stays under an id of its own, the one in its message. (Steps that
  interleave inside each other are the subject of theory \<open>Stages\<close>.)
\<close>

theorem calls_refine_table:
  assumes "system_run (reacting env react) env start cs sys" and "timeouts_take_no_id react"
    and "calls_ok (k + reaction_ids react (trace (client start))) (client start)"
    and "stale (client start) = {}"
    and "l = k + ids_of cs + reaction_ids react (trace (client sys))" and "l \<le> 2 ^ 32"
  shows "calls_ok l (client sys) \<and> stale (client sys) = {} \<and>
    table_step\<^sup>*\<^sup>* (table_of (k + reaction_ids react (trace (client start))) (client start))
      (table_of l (client sys))"
  using run_refines [OF assms(1-4)] assms(4-6) by (simp add: refines_def)

lemma sample_calls_ok: "calls_ok 0 (sample_client p2ptype)" "stale (sample_client p2ptype) = {}"
  by (simp_all add: calls_ok_def p2p_client_def ids_differ_def stale_def completions_def)

lemma sample_run:
  "system_run (reacting sample_env answer_requests) sample_env (sample_system p2ptype)
    ([] @ [sample_request]) ((sample_system p2ptype)\<lparr>client :=
      state_after (perform sample_env sample_request) (client (sample_system p2ptype))\<rparr>)"
  by (rule system_run.Call [OF system_run.Start]) (simp add: sample_system_starts)

lemma sample_run_ids:
  "reaction_ids react (trace (state_after (perform sample_env sample_request) (sample_client p2ptype))) = 0"
  using uncalled_ids [OF alongD [OF uncalled_perform [of sample_env sample_request],
      of "sample_client p2ptype"], of react]
  by simp

theorem calls_refine_table_witness:
  "calls_ok 1 (state_after (perform sample_env sample_request) (sample_client p2ptype))"
  using calls_refine_table [OF sample_run _ _ _ refl, of 0]
  by (simp add: sample_system_starts sample_calls_ok sample_run_ids) (simp add: sample_request_def)

text \<open>
  In a run of whole steps each id is completed at most once, by the callback for its final response or
  by that for its timeout; none is completed while it is still pending, and none that has not been
  issued. Where steps interleave inside each other it can be completed once by each (below).
\<close>

lemma run_once:
  assumes "system_run (reacting env react) env start cs sys" and "timeouts_take_no_id react"
    and "p2p_client (client start)" and "timer_tasks (client start) = []"
    and "m_next_timer_id (client start) = 0" and "trace (client start) = []"
    and "l = ids_of cs + reaction_ids react (trace (client sys))" and "l \<le> 2 ^ 32"
  shows "completions i (called (trace (client sys))) +
      (if find_task (timer_tasks (client sys)) i \<noteq> None then 1 else 0) \<le>
    (if i \<in> of_nat ` {..<l} then 1 else 0)"
proof -
  have ok: "calls_ok (0 + reaction_ids react (trace (client start))) (client start)"
    "stale (client start) = {}" and before: "once (table_of 0 (client start))"
    using assms(3-6)
    by (simp_all add: calls_ok_def ids_differ_def once_def table_of_def completions_def stale_def)
  have steps: "table_step\<^sup>*\<^sup>* (table_of 0 (client start)) (table_of l (client sys))"
    and "stale (client sys) = {}"
    using run_refines [OF assms(1,2) ok] assms(6-8) ok(2) by (simp_all add: refines_def)
  have "issued (table_of l (client sys)) \<le> 2 ^ 32" using assms(8) by (simp add: table_of_def)
  with steps before have "once (table_of l (client sys))" by (rule once_steps)
  from this [unfolded once_def, rule_format, of i] show ?thesis
    using \<open>stale (client sys) = {}\<close>
    by (simp only: table_of_def call_table.simps find_task_None not_not Diff_empty)
qed

subsection \<open>Inside a step\<close>

lemma called_timeouts: "called (concat (map (timeout_events h) ts)) = concat (map (timeout_calls h) ts)"
  by (induction ts) (simp_all add: timeout_events_def)

text \<open>
  C26: The look-up of a task and what the receiving thread does with it are separate critical sections.
  If the request times out in between, its timeout callback is made and then its final callback as
  well, so the request is completed twice. (The code then works on a pointer to an erased element; the
  model uses the task as it was.)
\<close>

theorem timeout_inside_final_response:
  assumes "calls_ok k s" and "find_task (timer_tasks s) i = Some task"
    and "msgtype (task_props task) = RB_REQUEST" and "rid p = i"
    and "m_cbRequestTimeout (stClientCBHandle s) = Some g"
    and "expire_time task \<le> steady_now env (trace s @ [Lock timer_mutex, Unlock timer_mutex,
      Lock timer_mutex, Read_clock])"
    and "t = state_after (do {
      info \<leftarrow> p2pGetTimerTaskInfo i;
      timer_round silent env;
      final_response silent f p msg info }) s"
  shows "2 \<le> completions i (called (drop (length (trace s)) (trace t)))"
proof -
  let ?s = "s\<lparr>trace := trace s @ [Lock timer_mutex, Unlock timer_mutex]\<rparr>"
  define now where "now = steady_now env (trace ?s @ [Lock timer_mutex, Read_clock])"
  have p2p: "exchange_type s = p2ptype" and ids: "ids_differ (timer_tasks s)"
    using assms(1) by (simp_all add: calls_ok_def)
  have task: "task \<in> set (timer_tasks s)" "task_id task = i"
    using find_task_in [OF assms(2)] find_task_id [OF assms(2)] .
  have own: "rid (task_props task) = i" using assms(1) task by (simp add: calls_ok_def)
  let ?over = "filter (expired now) (timer_tasks s)"
  have over: "task \<in> set ?over" using task(1) assms(6) by (simp add: expired_def now_def)
  have "completions i (timeout_calls (stClientCBHandle s) task) = 1"
    using assms(3,5) own by (simp add: timeout_calls_def completions_def Let_def)
  moreover have "completions i (h x) \<le> completions i (concat (map h ts))" if "x \<in> set ts" for h x ts
    using that by (induction ts) auto
  from this [of task ?over "timeout_calls (stClientCBHandle s)", OF over] calculation
  have "1 \<le> completions i (concat (map (timeout_calls (stClientCBHandle s)) ?over))" by simp
  moreover have "called (drop (length (trace s)) (trace t)) =
      concat (map (timeout_calls (stClientCBHandle s)) ?over) @ [final_call f task p msg]"
    using assms(3,4) p2p ids run_timer_round [of ?s now env]
    by (simp add: assms(2,7) run_get_task final_response_def run_remove_task now_def called_timeouts final_call_def)
  ultimately show ?thesis
    using assms(4) by (simp add: completions_def final_call_def)
qed

theorem timeout_inside_final_response_witness:
  "2 \<le> completions 123 (called (trace (state_after (do {
      info \<leftarrow> p2pGetTimerTaskInfo 123;
      timer_round silent sample_env;
      final_response silent 3 (final_props 123) ''done'' info })
    (sample_client p2ptype\<lparr>timer_tasks := [sample_task 123 1], m_next_timer_id := 124\<rparr>))))"
proof -
  let ?s = "sample_client p2ptype\<lparr>timer_tasks := [sample_task 123 1], m_next_timer_id := 124\<rparr>"
  have "(123 :: i32) \<in> of_nat ` {..<124}" by (intro image_eqI [where x = 123]) simp_all
  then have "calls_ok 124 ?s"
    by (simp add: calls_ok_def p2p_client_def ids_differ_def sample_task_def sample_props_def)
  from timeout_inside_final_response [OF this _ _ _ _ _ refl, of 123 "sample_task 123 1" "final_props 123" 2
      sample_env 3 "''done''"]
  show ?thesis by (simp add: sample_task_def sample_props_def final_props_def full_handler_def)
qed

subsection \<open>Requests from the functions for timeouts\<close>

lemma expire_loop_skips:
  "\<forall>x\<in>set earlier. task_id x \<notin> set ids \<Longrightarrow>
    expire_loop call ids seen (earlier @ todo) = expire_loop call ids (seen @ earlier) todo"
  by (induction earlier arbitrary: seen) simp_all

lemma grows_performs: "along grows (for_each calls (perform env))"
  by (intro grows.along_for_each uncalled_grows uncalled_perform)

text \<open>A call that takes an id locks \<open>timer_mutex\<close> after it has got hold of the instance.\<close>

lemma perform_locks_timer:
  assumes "p2p_client s" "ids_taken a \<noteq> 0"
  shows "prefix (trace s @ [Lock instanceMutex, Unlock instanceMutex, Lock timer_mutex])
    (trace (state_after (perform env a) s))"
proof -
  have send: "prefix (trace u) (trace (state_after (SendRabbitmqMessage env m b p) u))"
    for u m b and p :: "amqp_basic_properties_t option"
    using alongD [OF uncalled_grows [OF uncalled_send]] by (simp add: grows_def)
  have remove: "prefix (trace u) (trace (state_after (p2pRemoveTimerTask i) u))" for u i
    using alongD [OF uncalled_grows, OF along_mono [OF progress_remove]] by (simp add: grows_def progress_def)
  have call: "prefix (trace s @ [Lock instanceMutex, Unlock instanceMutex, Lock timer_mutex])
      (trace (state_after (make_call env type m n x b r timeout) (entered s)))" for type m n x b r timeout
  proof -
    let ?u = "call_ready env type (entered s) m n x b timeout"
    have "prefix (trace s @ [Lock instanceMutex, Unlock instanceMutex, Lock timer_mutex]) (trace ?u)"
      by (simp add: call_ready_def)
    moreover have "prefix (trace ?u) (trace (state_after (make_call env type m n x b r timeout) (entered s)))"
      using assms(1) send [of ?u] prefix_order.trans [OF send [of ?u] remove]
      by (simp add: run_make_call Let_def split_beta)
    ultimately show ?thesis by (rule prefix_order.trans)
  qed
  show ?thesis
    using assms call by (cases a rule: ids_taken.cases)
      (auto simp: ignore_def split_beta rmRequestMake_def rmNotifyMake_def)
qed

text \<open>
  C24: In a point-to-point client whose timer thread holds no mutex before its round, the function for the
  timeout of the first task that the round finds expired, if the first call it makes is a request or a
  notification with all its arguments, never gets it made. The timer thread has called the function with
  \<open>timer_mutex\<close> held, and the call locks that mutex, with \<open>timer_mutex\<close> still
  held: the history has no order of mutexes from there on, and the model follows the code no longer. What
  the function calls after that is arbitrary.
\<close>

theorem request_in_timeout_waits:
  assumes "p2p_client s" and "unlocked s" and "ids_differ (timer_tasks s)"
    and "timer_tasks s = earlier @ task # others"
    and "instant = steady_now env (trace s @ [Lock timer_mutex, Read_clock])"
    and "\<forall>x\<in>set earlier. \<not> expired instant x" and "expired instant task"
    and "timeout_calls (stClientCBHandle s) task = [c]"
    and "\<And>h. react h c = a # calls" and "ids_taken a \<noteq> 0"
  shows "\<exists>es rest. trace (state_after (timer_round (reacting env' react) env) s) =
      trace s @ es @ Lock timer_mutex # rest \<and> Called c \<in> set es \<and> timer_mutex \<in> set (held (trace s @ es)) \<and>
    locks [] (trace s @ es @ Lock timer_mutex # rest) = None"
proof -
  let ?s = "s\<lparr>trace := trace s @ [Lock timer_mutex, Read_clock]\<rparr>"
  define ids where "ids = map task_id (filter (expired instant) (timer_tasks s))"
  define u where "u = state_after (expire_loop (reacting env' react) ids [] (timer_tasks s)) ?s"
  define v where "v = state_after (p2pTimeoutProc (reacting env' react) task) ?s"
  let ?es = "[Lock timer_mutex, Read_clock, Logged (''timerout, id: '' @ to_string (sint (task_id task))),
    Called c, Lock instanceMutex, Unlock instanceMutex]"
  have in_ids: "task_id task \<in> set ids" "\<forall>x\<in>set earlier. task_id x \<notin> set ids"
    using assms(3,4,6,7) by (auto simp: ids_def ids_differ_def image_iff)
  then have "ids \<noteq> []" by auto
  have t: "trace (state_after (timer_round (reacting env' react) env) s) =
      trace u @ [Unlock timer_mutex, Slept 1000]"
    using \<open>ids \<noteq> []\<close> unfolding u_def ids_def assms(5)
    by (simp add: timer_round_def Let_def split_beta)
  have "u = state_after (expire_loop (reacting env' react) ids earlier others) (v\<lparr>timer_tasks := earlier @ others\<rparr>)"
    using in_ids by (simp add: u_def v_def assms(4) expire_loop_skips split_beta)
  then have "prefix (trace v) (trace u)"
    using alongD [OF grows_expire, of "v\<lparr>timer_tasks := earlier @ others\<rparr>" env' react ids earlier others]
    by (simp add: grows_def)
  moreover have "prefix (trace s @ ?es @ [Lock timer_mutex]) (trace v)"
  proof -
    let ?w = "s\<lparr>trace := trace s @ take 4 ?es\<rparr>"
    have "v = state_after (for_each calls (perform env')) (state_after (perform env' a) ?w)"
      using assms(1,8,9)
      by (auto simp: v_def p2pTimeoutProc_def timeout_calls_def run_reacting Let_def split_beta
          split: message_type_t.splits option.splits)
    then have "prefix (trace (state_after (perform env' a) ?w)) (trace v)"
      using alongD [OF grows_performs, of "state_after (perform env' a) ?w"] by (simp add: grows_def)
    moreover have "p2p_client ?w" using assms(1) by (simp add: p2p_client_def)
    from perform_locks_timer [OF this assms(10), of env']
    have "prefix (trace s @ ?es @ [Lock timer_mutex]) (trace (state_after (perform env' a) ?w))" by simp
    ultimately show ?thesis using prefix_order.trans by blast
  qed
  ultimately have "prefix (trace s @ ?es @ [Lock timer_mutex]) (trace u)" using prefix_order.trans by blast
  then obtain rest where "trace u = (trace s @ ?es @ [Lock timer_mutex]) @ rest" unfolding prefix_def by blast
  then have "trace (state_after (timer_round (reacting env' react) env) s) =
      trace s @ ?es @ Lock timer_mutex # rest @ [Unlock timer_mutex, Slept 1000]"
    unfolding t by simp
  moreover have "locks [] (trace s @ ?es) = Some [timer_mutex]"
    using assms(2) by (simp add: unlocked_def locks_append less_mutex_def)
  moreover from this have "held (trace s @ ?es) = [timer_mutex]" by (simp add: held_def)
  moreover have "locks [] (trace s @ ?es @ Lock timer_mutex # fs) = None" for fs
    using assms(2) by (simp add: unlocked_def locks_append less_mutex_def)
  ultimately show ?thesis by (intro exI [of _ ?es] exI conjI) (assumption | simp)+
qed

theorem request_in_timeout_waits_witness:
  "locks [] (trace (state_after (timer_round (reacting sample_env (\<lambda>_ _. [sample_request])) sample_env)
     (sample_client p2ptype\<lparr>timer_tasks := [sample_task 0 1]\<rparr>))) = None"
proof -
  let ?s = "sample_client p2ptype\<lparr>timer_tasks := [sample_task 0 1]\<rparr>"
  have "\<exists>c. timeout_calls (stClientCBHandle ?s) (sample_task 0 1) = [c]"
    by (simp add: timeout_calls_def full_handler_def sample_task_def sample_props_def)
  then obtain c where "timeout_calls (stClientCBHandle ?s) (sample_task 0 1) = [c]" by blast
  from request_in_timeout_waits [OF _ _ _ _ refl _ _ this, of "[]" "[]" sample_env
      "\<lambda>_ _. [sample_request]" sample_request "[]" sample_env]
  show ?thesis
    by (auto simp: p2p_client_def unlocked_def ids_differ_def expired_def sample_task_def sample_request_def)
qed

end
