(* ===== verification/Call_Fate.thy ===== *)
theory Call_Fate
  imports Service Call_Runs
begin

section \<open>No request is lost\<close>

text \<open>
  A request that is pending stays pending until one of its two callbacks completes it, in every run in
  which those callbacks are set: no operation drops the task of a request otherwise. With theory
  \<open>Call_Runs\<close>, where no request is completed twice, each request is completed exactly once.
\<close>

subsection \<open>The callbacks stay set\<close>

definition answerable :: "RabbitMQWrapper \<Rightarrow> bool" where
  "answerable s \<longleftrightarrow> m_cbRequestTimeout (stClientCBHandle s) \<noteq> NULL \<and>
     m_cbRespFinal (stClientCBHandle s) \<noteq> NULL"

definition answers :: "RabbitMQWrapper \<Rightarrow> RabbitMQWrapper \<Rightarrow> bool" where
  "answers s t \<longleftrightarrow> (instance_set s \<and> answerable s \<longrightarrow> instance_set t \<and> answerable t)"

lemma answers_same: "instance_set t = instance_set s \<Longrightarrow> stClientCBHandle t = stClientCBHandle s \<Longrightarrow> answers s t"
  by (simp add: answers_def answerable_def)

interpretation answers: service_relation answers env for env
proof unfold_locales
  show "answers s t \<Longrightarrow> answers t u \<Longrightarrow> answers s u" for s t u by (simp add: answers_def)
  show "\<not> touches_bindings e \<Longrightarrow> answers s (s\<lparr>trace := trace s @ [e]\<rparr>)" for e s
    by (rule answers_same) simp_all
  show "quiet s t \<Longrightarrow> answers s t" for s t
    by (cases "instance_set s") (simp_all add: quiet_def ties_kept_def answers_same, simp add: answers_def)
  show "along answers (reconnect_locked env)"
  proof (rule alongI, rule answers_same)
    fix s
    show "instance_set (state_after (reconnect_locked env) s) = instance_set s"
      "stClientCBHandle (state_after (reconnect_locked env) s) = stClientCBHandle s"
      using reconnect_locked_summary [OF refl refl, of env s] by (simp_all add: setup_summary_def kept_def)
  qed
qed (simp_all add: answers_same)

interpretation silent_answers: service_user answers env silent for env
  by (rule answers.silent_user)

text \<open>A call that leaves both callbacks set.\<close>

fun keeps_handlers :: "api_call \<Rightarrow> bool" where
  "keeps_handlers (Set_handler (Some h)) = (m_cbRequestTimeout h \<noteq> NULL \<and> m_cbRespFinal h \<noteq> NULL)"
| "keeps_handlers c = True"

lemma answers_perform:
  assumes "keeps_handlers c"
  shows "along answers (perform env c)"
proof (rule answers.along_perform)
  fix topic f inst
  show "along answers (subscribleTopicMsg env topic f inst)"
  proof (rule alongI, rule answers_same)
    fix s
    show "instance_set (state_after (subscribleTopicMsg env topic f inst) s) = instance_set s"
      "stClientCBHandle (state_after (subscribleTopicMsg env topic f inst) s) = stClientCBHandle s"
      by (cases "exchange_type s \<noteq> topictype \<or> topic = []"; simp add: run_subscribe run_subscribe_refused)+
  qed
next
  fix topic
  show "along answers (unSubscribleTopicMsg env topic)"
  proof (rule alongI, rule answers_same)
    fix s
    show "instance_set (state_after (unSubscribleTopicMsg env topic) s) = instance_set s"
      "stClientCBHandle (state_after (unSubscribleTopicMsg env topic) s) = stClientCBHandle s"
      by (cases "exchange_type s \<noteq> topictype \<or> topic = []"; simp add: run_unsubscribe run_unsubscribe_refused)+
  qed
next
  fix pfn
  assume "c = Set_handler pfn"
  then show "along answers (rmSetMidMsgHandler env pfn)"
    using assms by (cases pfn)
      (auto simp: along_def answers_def answerable_def rmSetMidMsgHandler_def p2pSetCallback_def getInstance_set)
qed

lemma answers_performs: "list_all keeps_handlers cs \<Longrightarrow> along answers (for_each cs (perform env))"
  by (induction cs) (auto intro!: answers.service_intros answers_perform)

lemma reacting_answers:
  assumes "\<And>h c. list_all keeps_handlers (react h c)"
  shows "service_user answers env (reacting env react)"
  using assms by (intro answers.reacting_user answers_perform) (auto simp: list_all_iff)

subsection \<open>What becomes of a request\<close>

text \<open>The request with the properties \<open>q\<close> is pending under the id \<open>i\<close>.\<close>

definition waiting :: "int_props_st \<Rightarrow> i32 \<Rightarrow> RabbitMQWrapper \<Rightarrow> bool" where
  "waiting q i s \<longleftrightarrow> (\<exists>task. find_task (timer_tasks s) i = Some task \<and> task_props task = q \<and> msgtype q = RB_REQUEST)"

lemma waiting_id: "waiting q i s \<Longrightarrow> i \<in> task_id ` set (timer_tasks s)"
  using find_task_None [of "timer_tasks s" i] by (auto simp: waiting_def)

text \<open>Completed or still waiting.\<close>

definition accounted :: "int_props_st \<Rightarrow> i32 \<Rightarrow> RabbitMQWrapper \<Rightarrow> bool" where
  "accounted q i s \<longleftrightarrow> 0 < completions i (called (trace s)) \<or> waiting q i s"

lemma accounted_same:
  "timer_tasks t = timer_tasks s \<Longrightarrow> called (trace t) = called (trace s) \<Longrightarrow> accounted q i t = accounted q i s"
  by (simp add: accounted_def waiting_def)

lemma accounted_steady: "steady s t \<Longrightarrow> p2p_client s \<Longrightarrow> accounted q i s \<Longrightarrow> accounted q i t"
  using uncalled_called [of s t] by (simp add: steady_def accounted_def waiting_def)

lemma accounted_grows: "grows s t \<Longrightarrow> 0 < completions i (called (trace s)) \<Longrightarrow> accounted q i t"
  by (auto simp: grows_def prefix_def accounted_def)

lemma accounted_tasks:
  "accounted q i s \<Longrightarrow> uncalled s t \<Longrightarrow> (waiting q i s \<Longrightarrow> waiting q i t) \<Longrightarrow> accounted q i t"
  using uncalled_called [of s t] by (auto simp: accounted_def)

lemma find_task_append: "find_task ts i = Some task \<Longrightarrow> find_task (ts @ us) i = Some task"
  by (induction ts) (auto split: if_splits)

lemma find_task_drop_other: "j \<noteq> i \<Longrightarrow> find_task (drop_task j ts) i = find_task ts i"
  by (induction ts) (auto simp: drop_task_def find_task_def)

text \<open>The user's calls, one and several.\<close>

lemma make_call_accounted:
  assumes "calls_ok k s" "k < 2 ^ 32" "accounted q i s"
  shows "accounted q i (state_after (make_call env type m n a b rpid timeout) s)"
proof -
  let ?u = "call_ready env type s m n a b timeout" and ?t = "state_after (make_call env type m n a b rpid timeout) s"
  let ?send = "SendRabbitmqMessage env m b (Some (header_props env (call_props env type s m n a)))"
  let ?v = "state_after ?send ?u"
  have p2p: "exchange_type s = p2ptype" and client: "p2p_client ?u"
    using assms(1) issue_refines(1) [OF assms(1,2), of env type m n a b timeout]
    by (auto simp: calls_ok_def refines_def)
  have t: "?t = ?u \<or> ?t = ?v \<or> ?t = state_after (p2pRemoveTimerTask (m_next_timer_id s)) ?v"
    by (simp add: run_make_call [OF p2p] Let_def split_beta)
  have steady: "steady ?u ?v" by (rule alongD [OF steady_send(1)])
  then have v: "timer_tasks ?v = timer_tasks ?u" "p2p_client ?v" using client by (simp_all add: steady_def)
  have "uncalled s ?t"
    using make_call_refines [OF assms(1,2) refl] by blast
  moreover have "waiting q i ?t" if "waiting q i s"
  proof -
    have "i \<in> task_id ` set (timer_tasks s)" using that by (rule waiting_id)
    then have "i \<noteq> of_nat k" using assms(1) issue_fresh [OF assms(2)] unfolding calls_ok_def by blast
    then have other: "m_next_timer_id s \<noteq> i" using assms(1) by (simp add: calls_ok_def)
    have "find_task (timer_tasks ?u) i = find_task (timer_tasks s) i"
      using that by (auto simp: waiting_def call_ready_def push_task_def find_task_append)
    then have "find_task (timer_tasks ?t) i = find_task (timer_tasks s) i"
      using t v(1) find_task_drop_other [OF other] p2p_client_type [OF v(2)] by (auto simp: run_remove_task)
    then show ?thesis using that by (simp add: waiting_def)
  qed
  ultimately show ?thesis by (rule accounted_tasks [OF assms(3)])
qed

lemma perform_accounted:
  assumes "calls_ok k s" "k + ids_taken c \<le> 2 ^ 32" "accounted q i s"
  shows "accounted q i (state_after (perform env c) s)"
proof (cases "ids_taken c = 0")
  case True
  have "p2p_client s" using assms(1) by (simp add: calls_ok_def)
  then show ?thesis using alongD [OF steady_perform [OF True]] accounted_steady assms(3) by blast
next
  case False
  have client: "p2p_client s" using assms(1) by (simp add: calls_ok_def)
  have enter: "calls_ok k (entered s)" "accounted q i (entered s)"
    using steady_view(3) [OF steady_entered client, of k] accounted_steady [OF steady_entered client assms(3)] assms(1)
    by simp_all
  have "k < 2 ^ 32" using False assms(2) by simp
  note call = make_call_accounted [OF enter(1) this enter(2)]
  show ?thesis
    using False client call by (cases c rule: ids_taken.cases)
      (auto simp: ignore_def split_beta rmRequestMake_def rmNotifyMake_def)
qed

lemma performs_accounted:
  assumes "calls_ok k s" "k + ids_of calls \<le> 2 ^ 32" "accounted q i s"
  shows "accounted q i (state_after (for_each calls (perform env)) s)"
  using assms
proof (induction calls arbitrary: k s)
  case (Cons c calls)
  let ?t = "state_after (perform env c) s"
  have "refines k s (k + ids_taken c) ?t" "accounted q i ?t"
    using perform_refines [OF Cons.prems(1) _ refl, of c env] perform_accounted [OF Cons.prems(1) _ Cons.prems(3), of c env]
      Cons.prems(2) by simp_all
  then show ?case using Cons.IH [OF refines_ok] Cons.prems(2) by (simp add: split_beta add.assoc)
qed simp

subsection \<open>The functions of the user\<close>

text \<open>
  From \<open>s\<close> to \<open>t\<close> the table of calls advances, the callbacks stay set, and the request \<open>i\<close> is accounted
  for at the end when it was at the beginning.
\<close>

definition fated ::
  "(event list \<Rightarrow> callback_call \<Rightarrow> api_call list) \<Rightarrow> nat \<Rightarrow> int_props_st \<Rightarrow> i32 \<Rightarrow> RabbitMQWrapper \<Rightarrow> RabbitMQWrapper \<Rightarrow> bool" where
  "fated react k q i s t \<longleftrightarrow> reacts react k s t \<and> answers s t \<and>
     (calls_ok (k + reaction_ids react (trace s)) s \<and> stale s = {} \<and>
        k + reaction_ids react (trace t) \<le> 2 ^ 32 \<and> answerable s \<and> accounted q i s \<longrightarrow> accounted q i t)"

lemma fated_trans:
  assumes "fated react k q i s t" "fated react k q i t u"
  shows "fated react k q i s u"
proof -
  have r: "reacts react k s t" "reacts react k t u" using assms by (simp_all add: fated_def)
  note both = reacts_trans [OF r]
  have ids: "reaction_ids react (trace t) \<le> reaction_ids react (trace u)"
    using r(2) by (intro ids_prefix) (simp add: reacts_def)
  have "accounted q i u"
    if ok: "calls_ok (k + reaction_ids react (trace s)) s" "stale s = {}" "k + reaction_ids react (trace u) \<le> 2 ^ 32"
      "answerable s" "accounted q i s"
  proof -
    have "refines (k + reaction_ids react (trace s)) s (k + reaction_ids react (trace t)) t"
      using r(1) ok ids by (simp add: reacts_def)
    then have t: "calls_ok (k + reaction_ids react (trace t)) t" "stale t = {}"
      using ok(2) by (simp_all add: refines_def)
    have "instance_set s" using ok(1) by (simp add: calls_ok_def p2p_client_def)
    then have "answerable t" using assms(1) ok(4) by (simp add: fated_def answers_def)
    moreover have "accounted q i t" using assms(1) ok ids by (simp add: fated_def)
    ultimately show ?thesis using assms(2) t ok(3) by (simp add: fated_def)
  qed
  moreover have "answers s u" using assms by (auto simp: fated_def answers_def)
  ultimately show ?thesis using both by (simp add: fated_def)
qed

text \<open>An operation that leaves the tasks alone and calls no function.\<close>

lemma steady_fated: "steady s t \<Longrightarrow> answers s t \<Longrightarrow> fated react k q i s t"
  unfolding fated_def
  using progress_reacts steady_progress accounted_steady calls_ok_def by blast

lemma along_fated: "along steady m \<Longrightarrow> along answers m \<Longrightarrow> along (fated react k q i) m"
  by (auto simp: along_def intro: steady_fated)

interpretation fated: event_relation "fated react k q i" "\<lambda>e. \<not> is_called e" for react k q i
proof unfold_locales
  show "fated react k q i s t \<Longrightarrow> fated react k q i t u \<Longrightarrow> fated react k q i s u" for s t u
    by (rule fated_trans)
  show "\<not> is_called e \<Longrightarrow> fated react k q i s (s\<lparr>trace := trace s @ [e]\<rparr>)" for e s
    by (intro steady_fated steady_event answers_same) simp_all
qed (auto intro: steady_fated steady.rel_refl answers_same)

named_theorems fated_intros
declare fated.along_intros [fated_intros] fated.event_intros [fated_intros]
  fated.along_emit [fated_intros]

lemma fated_locked [fated_intros]: "along (fated react k q i) f \<Longrightarrow> along (fated react k q i) (locked m f)"
  unfolding locked_def by (intro fated_intros) simp_all

text \<open>A function of the user, seen from the call itself on.\<close>

lemma reaction_accounted:
  assumes "t = state_after (reacting env react c) s" and "u = s\<lparr>trace := trace s @ [Called c]\<rparr>"
    and "calls_ok (k + reaction_ids react (trace s)) u" and "k + reaction_ids react (trace t) \<le> 2 ^ 32"
    and "accounted q i u"
  shows "accounted q i t"
proof -
  let ?calls = "react (trace u) c"
  have t: "t = state_after (for_each ?calls (perform env)) u" by (simp add: assms(1,2) run_reacting)
  have "along uncalled (for_each ?calls (perform env))" by (intro uncalled_intros uncalled_perform)
  from alongD [OF this] have "uncalled u t" unfolding t .
  from uncalled_ids [OF this, of react] assms(2)
  have "reaction_ids react (trace t) = reaction_ids react (trace s) + ids_of ?calls" by simp
  with assms(4) have "k + reaction_ids react (trace s) + ids_of ?calls \<le> 2 ^ 32" by (simp only: add.assoc)
  then show ?thesis unfolding t by (rule performs_accounted [OF assms(3) _ assms(5)])
qed

lemma accounted_call: "accounted q i s \<Longrightarrow> accounted q i (s\<lparr>trace := trace s @ [Called c]\<rparr>)"
  by (auto simp: accounted_def waiting_def)

lemma reacting_fated [fated_intros]:
  assumes "completes c = None" "\<And>h c. list_all keeps_handlers (react h c)"
  shows "along (fated react k q i) (reacting env react c)"
proof (rule alongI)
  fix s :: RabbitMQWrapper
  let ?t = "state_after (reacting env react c) s"
  have "answers s ?t" by (rule alongD [OF service_user.along_call [OF reacting_answers [OF assms(2)]]])
  moreover have "reacts react k s ?t" by (rule alongD [OF reacting_other [OF assms(1)]])
  moreover have "accounted q i ?t"
    if "calls_ok (k + reaction_ids react (trace s)) s" "k + reaction_ids react (trace ?t) \<le> 2 ^ 32" "accounted q i s"
    using that call_steady(3) [OF assms(1), of _ s]
    by (intro reaction_accounted [OF refl refl _ that(2) accounted_call]) simp_all
  ultimately show "fated react k q i s ?t" by (simp add: fated_def)
qed

subsection \<open>Received messages\<close>

lemma fated_if:
  assumes "reacts react k s t" "answers s t"
    and "calls_ok (k + reaction_ids react (trace s)) s \<Longrightarrow> stale s = {} \<Longrightarrow>
      k + reaction_ids react (trace t) \<le> 2 ^ 32 \<Longrightarrow> answerable s \<Longrightarrow> accounted q i s \<Longrightarrow> accounted q i t"
  shows "fated react k q i s t"
  using assms by (simp add: fated_def)

lemma reacting_answered: "\<forall>h c. list_all keeps_handlers (react h c) \<Longrightarrow> along answers (reacting env react c)"
  using service_user.along_call [OF reacting_answers] by blast

lemma answers_remove: "along answers (p2pRemoveTimerTask i)"
  by (rule answers.along_quiet) (rule quiet_timers)

lemma final_fated:
  assumes handlers: "\<forall>h c. list_all keeps_handlers (react h c)"
    and "p2p_client s" and "find_task (timer_tasks s) (rid p) = Some task"
    and "t = state_after (final_response (reacting env react) f p msg (Some task)) s"
    and "reacts react k s t"
  shows "fated react k q i s t"
proof (rule fated_if [OF assms(5)])
  show "answers s t"
    unfolding assms(4) final_response_def
    by (rule alongD) (intro answers.service_intros reacting_answered [OF handlers] answers_remove)
next
  let ?k = "k + reaction_ids react (trace s)" and ?c = "final_call f task p msg"
  assume ok: "calls_ok ?k s" and fresh: "stale s = {}" and bound: "k + reaction_ids react (trace t) \<le> 2 ^ 32"
    and i: "accounted q i s"
  show "accounted q i t"
  proof (cases "msgtype (task_props task) = RB_REQUEST")
    case False
    then have t: "t = state_after (p2pRemoveTimerTask (rid p)) s"
      by (simp add: assms(4) final_response_def split_beta)
    have "uncalled s t" using alongD [OF progress_remove] unfolding t by (simp add: progress_def)
    moreover have "waiting q i t" if "waiting q i s"
    proof -
      have "rid p \<noteq> i" using that False assms(3) by (auto simp: waiting_def)
      from find_task_drop_other [OF this] show ?thesis
        using that assms(2) by (simp add: waiting_def t run_remove_task)
    qed
    ultimately show ?thesis by (rule accounted_tasks [OF i])
  next
    case True
    define u where "u = s\<lparr>trace := trace s @ [Called ?c]\<rparr>"
    define v where "v = state_after (reacting env react ?c) s"
    have t: "t = state_after (p2pRemoveTimerTask (rid p)) v"
      using True by (simp add: assms(4) final_response_def v_def final_call_def split_beta)
    have vt: "uncalled v t" using alongD [OF progress_remove] unfolding t by (simp add: progress_def)
    have c: "completes ?c = Some (rid p)" by (simp add: final_call_def)
    have "rid p \<in> task_id ` set (timer_tasks s) - stale s"
      using assms(3) fresh find_task_None [of "timer_tasks s" "rid p"] by auto
    note made = complete_refines(1) [OF ok c this u_def]
    have v: "accounted q i v"
      using reaction_accounted [OF v_def u_def made _ accounted_call [OF i, of ?c, folded u_def]] bound
        uncalled_ids [OF vt, of react] by simp
    have client: "p2p_client v"
      using refines_ok [OF run_reaction(1) [OF v_def u_def made]] bound uncalled_ids [OF vt, of react]
      by (simp add: calls_ok_def)
    show ?thesis
    proof (cases "rid p = i")
      case True
      have "0 < completions i (called (trace u))" using c True by (simp add: u_def completions_def)
      moreover have "grows u v"
        unfolding v_def u_def run_reacting by (rule alongD [OF grows_performs])
      moreover have "grows v t" using vt by (auto simp: uncalled_def grows_def)
      ultimately show ?thesis using accounted_grows grows.rel_trans by blast
    next
      case False
      then show ?thesis
        using find_task_drop_other [OF False] client
        by (intro accounted_tasks [OF v vt]) (simp add: waiting_def t run_remove_task)
    qed
  qed
qed

lemma fated_handle_final:
  assumes handlers: "\<forall>h c. list_all keeps_handlers (react h c)" and "msgtype p = RB_FINAL_RESPONSE"
  shows "along (fated react k q i) (p2pHandleMessage (reacting env react) env routing msg p)"
proof (rule alongI)
  fix s
  let ?t = "state_after (p2pHandleMessage (reacting env react) env routing msg p) s"
  have all: "reacts react k s ?t" by (rule alongD [OF reacts_p2pHandle])
  have answers: "answers s ?t"
    by (rule alongD [OF service_user.along_p2pHandle [OF reacting_answers]]) (use handlers in blast)
  show "fated react k q i s ?t"
  proof (rule fated_if [OF all answers])
    assume ok: "calls_ok (k + reaction_ids react (trace s)) s" and i: "accounted q i s"
      and more: "stale s = {}" "k + reaction_ids react (trace ?t) \<le> 2 ^ 32" "answerable s"
    have client: "p2p_client s" using ok by (simp add: calls_ok_def)
    obtain f where f: "m_cbRespFinal (stClientCBHandle s) = Some f" using more(3) by (auto simp: answerable_def)
    let ?info = "find_task (timer_tasks s) (rid p)"
    let ?u = "s\<lparr>trace := trace s @ [Lock timer_mutex, Unlock timer_mutex]\<rparr>"
    have t: "?t = state_after (final_response (reacting env react) f p msg ?info) ?u"
      using f assms(2) client by (simp add: p2pHandleMessage_def Let_def split_beta run_get_task)
    have su: "steady s ?u"
      by (rule steady_events [where es = "[Lock timer_mutex, Unlock timer_mutex]"]) (simp_all add: p2p_client_def)
    have u: "accounted q i ?u" "p2p_client ?u" "calls_ok (k + reaction_ids react (trace ?u)) ?u"
      "stale ?u = {}" "answerable ?u"
      using accounted_steady [OF su client i] steady_view [OF su client] ok more su client
        uncalled_ids [of s ?u react]
      by (simp_all add: steady_def answerable_def p2p_client_def)
    show "accounted q i ?t"
    proof (cases ?info)
      case None
      have "along (fated react k q i) (final_response (reacting env react) f p msg NULL)"
        unfolding final_response_def by (simp add: fated_intros)
      from alongD [OF this, of ?u] show ?thesis using None u more(2) by (simp add: t fated_def)
    next
      case (Some task)
      have "reacts react k ?u ?t"
        by (rule final_reacts [OF u(2,4)]) (use Some t in simp_all)
      then have "fated react k q i ?u ?t"
        by (intro final_fated [OF handlers u(2)]) (use Some t in simp_all)
      then show ?thesis using u more(2) by (simp add: fated_def)
    qed
  qed
qed

lemma fated_restart: "along (fated react k q i) (p2pRestartTimerTask env j)"
proof (rule alongI)
  fix s
  let ?t = "state_after (p2pRestartTimerTask env j) s"
  have progress: "progress s ?t" by (rule alongD [OF progress_restart])
  have "along quiet (p2pRestartTimerTask env j)"
    unfolding p2pRestartTimerTask_def by (intro quiet_intros; simp add: ties_kept_def)
  from alongD [OF answers.along_quiet [OF this]] have "answers s ?t" .
  then show "fated react k q i s ?t"
  proof (rule fated_if [OF progress_reacts [OF progress]])
    assume ok: "calls_ok (k + reaction_ids react (trace s)) s" and i: "accounted q i s"
    have "exchange_type s = p2ptype" using ok by (simp add: calls_ok_def)
    from run_restart_task [OF this, of env j] have "waiting q i ?t" if "waiting q i s"
      using that by (auto simp: waiting_def find_task_alter split: option.splits)
    moreover have "uncalled s ?t" using progress by (simp add: progress_def)
    ultimately show "accounted q i ?t" using accounted_tasks [OF i] by blast
  qed
qed

lemma fated_handle_other:
  assumes handlers: "\<forall>h c. list_all keeps_handlers (react h c)" and "msgtype p \<noteq> RB_FINAL_RESPONSE"
  shows "along (fated react k q i) (p2pHandleMessage (reacting env react) env routing msg p)"
proof -
  have "along quiet (p2pGetTimerTaskInfo j)" for j
    unfolding p2pGetTimerTaskInfo_def by (intro quiet_intros; simp)
  note get = along_fated [OF steady_get_task answers.along_quiet [OF this]]
    and answer = along_fated [OF steady_interface(3) answers.along_quiet [OF quiet_interface(7)]]
  have handlers': "list_all keeps_handlers (react h c)" for h c using handlers by blast
  show ?thesis
    unfolding p2pHandleMessage_def Let_def
    by (intro fated.along_bind fated.along_get)
      (auto simp: assms(2) handlers' split: message_type_t.splits option.splits
        intro!: fated_intros get answer fated_restart)
qed

lemma fated_receive:
  assumes handlers: "\<forall>h c. list_all keeps_handlers (react h c)"
  shows "along (fated react k q i) (receive_message (reacting env react) env envelope)"
proof -
  have p2p: "along (fated react k q i) (p2pHandleMessage (reacting env react) env routing msg p)" for routing msg p
    using fated_handle_final fated_handle_other handlers by blast
  have dispatch: "along (fated react k q i) (dispatch (reacting env react) env' es routing msg p)" for env' es routing msg p
    using handlers by (induction es) (auto intro!: fated_intros)
  have read: "along (fated react k q i) (read_properties env props)" for props
    unfolding read_properties_def
    by (cases "AmqpTable2IntProps (headers props) (uninit_props env)") (auto intro!: fated_intros)
  show ?thesis
    unfolding receive_message_def handle_message_def topicHandleMessage_def fanoutHandleMessage_def
    by (intro fated_intros p2p dispatch read) simp_all
qed

subsection \<open>Time\<close>

lemma timeout_completes:
  assumes "msgtype (task_props task) = RB_REQUEST" "rid (task_props task) = task_id task"
    and "m_cbRequestTimeout h \<noteq> NULL"
  shows "\<exists>c. timeout_calls h task = [c] \<and> completes c = Some (task_id task)"
  using assms by (auto simp: timeout_calls_def Let_def)

lemma expire_accounted:
  assumes "timeouts_take_no_id react" and handlers: "\<forall>h c. list_all keeps_handlers (react h c)"
    and "calls_ok k s" "stale s = {}" "timer_tasks s = seen @ todo" "answerable s" "accounted q i s"
    and "t = state_after (expire_loop (reacting env react) ids seen todo) s"
  shows "accounted q i t"
  using assms(3-8)
proof (induction todo arbitrary: seen s)
  case Nil
  then show ?case by simp
next
  case (Cons task todo)
  show ?case
  proof (cases "task_id task \<in> set ids")
    case False
    then show ?thesis using Cons.IH [of s "seen @ [task]"] Cons.prems by simp
  next
    case True
    define v where "v = (state_after (p2pTimeoutProc (reacting env react) task) s)\<lparr>timer_tasks := seen @ todo\<rparr>"
    note one = expire_one [OF assms(1) Cons.prems(1-3) v_def]
    have t: "t = state_after (expire_loop (reacting env react) ids seen todo) v"
      using True Cons.prems(6) by (simp add: v_def split_beta)
    have ok: "p2p_client s" "ids_differ (timer_tasks s)" "rid (task_props task) = task_id task"
      using Cons.prems(1,3) by (simp_all add: calls_ok_def)
    have answerable: "answerable v"
    proof -
      have "along answers (p2pTimeoutProc (reacting env react) task)"
        unfolding p2pTimeoutProc_def Let_def
        by (auto split: message_type_t.splits option.splits
          intro!: answers.service_intros reacting_answered [OF handlers])
      from alongD [OF this, of s] show ?thesis
        using ok(1) Cons.prems(4) by (simp add: v_def answers_def answerable_def p2p_client_def)
    qed
    have "accounted q i v"
    proof (cases "task_id task = i \<and> waiting q i s")
      case here: True
      have "find_task (timer_tasks s) (task_id task) = Some task"
        using ok(2) unfolding Cons.prems(3) by (induction seen) (auto simp: ids_differ_def)
      then have "msgtype (task_props task) = RB_REQUEST" using here by (simp add: waiting_def)
      from timeout_completes [OF this ok(3)] Cons.prems(4) obtain c
        where "timeout_calls (stClientCBHandle s) task = [c]" "completes c = Some i"
        using here by (auto simp: answerable_def)
      then show ?thesis by (simp add: accounted_def one(3) completions_def)
    next
      case False
      then show ?thesis
        using Cons.prems(5) one(3,4) find_task_drop_other [of "task_id task" i "timer_tasks s"]
        by (auto simp: accounted_def waiting_def)
    qed
    moreover have "stale v = {}" "timer_tasks v = seen @ todo"
      using one(1) Cons.prems(2) by (simp_all add: refines_def v_def)
    ultimately show ?thesis using Cons.IH [OF refines_ok [OF one(1)] _ _ answerable] t by simp
  qed
qed

lemma fated_timer_step:
  assumes "timeouts_take_no_id react" and handlers: "\<forall>h c. list_all keeps_handlers (react h c)"
  shows "along (fated react k q i) (timer_step (reacting env react) env)"
proof (rule alongI)
  fix s
  let ?t = "state_after (timer_step (reacting env react) env) s"
  have reacts: "reacts react k s ?t" by (rule alongD [OF reacts_timer_step [OF assms(1)]])
  have answers: "answers s ?t"
    by (rule alongD [OF service_user.along_timer [OF reacting_answers]]) (use handlers in blast)
  show "fated react k q i s ?t"
  proof (rule fated_if [OF reacts answers])
    assume ok: "calls_ok (k + reaction_ids react (trace s)) s" and i: "accounted q i s"
      and more: "stale s = {}" "answerable s"
    let ?s = "s\<lparr>trace := trace s @ [Lock timer_mutex, Read_clock]\<rparr>"
    have s: "steady s ?s"
      by (rule steady_events [where es = "[Lock timer_mutex, Read_clock]"]) (simp_all add: p2p_client_def)
    have client: "p2p_client s" using ok by (simp add: calls_ok_def)
    define ids where "ids = map task_id (filter (expired (steady_now env (trace ?s))) (timer_tasks s))"
    define u where "u = state_after (only_if (ids \<noteq> []) (expire_loop (reacting env react) ids [] (timer_tasks s))) ?s"
    have "accounted q i ?s" by (rule accounted_steady [OF s client i])
    moreover from this have "accounted q i (state_after (expire_loop (reacting env react) ids [] (timer_tasks s)) ?s)"
      using steady_view [OF s client] ok more
      by (intro expire_accounted [OF assms(1) handlers _ _ _ _ _ refl]) (simp_all add: answerable_def)
    ultimately have "accounted q i u" by (simp add: u_def)
    moreover have "?t = s \<or> ?t = u\<lparr>trace := trace u @ [Unlock timer_mutex, Slept 1000]\<rparr>"
      by (simp add: timer_step_def timer_round_def ids_def u_def Let_def split_beta)
    ultimately show "accounted q i ?t"
      using i by (elim disjE) (simp, simp add: accounted_def waiting_def)
  qed
qed

subsection \<open>Runs\<close>

lemma fated_recv_step:
  assumes handlers: "\<forall>h c. list_all keeps_handlers (react h c)"
  shows "along (fated react k q i) (recv_step (reacting env react) env pc)"
proof -
  have answers_restart: "along answers (reconnect_restart env)"
    unfolding reconnect_restart_def by (intro answers.service_intros)
  note restart = along_fated [OF steady_restart_thread answers_restart]
  have "along answers (recv_subscribe env)"
    unfolding recv_subscribe_def
    by (intro answers.service_intros answers_restart answers.along_quiet [OF quiet_rounds(2)]) simp_all
  note subscribe = along_fated [OF steady_subscribe this]
  have "along (fated react k q i) (recv_reply (reacting env react) env r envelope)" for r envelope
    unfolding recv_reply_def by (intro fated_intros restart fated_receive handlers) simp_all
  then have "along (fated react k q i) (recv_round (reacting env react) env)"
    unfolding recv_round_def by (intro fated_intros restart) simp_all
  then show ?thesis
    by (cases pc) (simp_all add: recv_step_def subscribe fated.along_return)
qed

lemma run_accounted:
  assumes "system_run (reacting env react) env start cs sys" and "timeouts_take_no_id react"
    and handlers: "\<forall>h c. list_all keeps_handlers (react h c)"
    and "calls_ok (k + reaction_ids react (trace (client start))) (client start)"
    and "stale (client start) = {}" and "answerable (client start)" and "accounted q i (client start)"
    and "list_all keeps_handlers cs" and "k + ids_of cs + reaction_ids react (trace (client sys)) \<le> 2 ^ 32"
  shows "answerable (client sys) \<and> accounted q i (client sys)"
  using assms(1,8,9)
proof induction
  case Start
  then show ?case using assms(6,7) by simp
next
  note before = run_refines [OF _ assms(2,4,5)]
  have step: "answerable t \<and> accounted q i t"
    if run: "system_run (reacting env react) env start cs sys" and fate: "fated react (k + ids_of cs) q i (client sys) t"
      and bound: "k + ids_of cs + reaction_ids react (trace t) \<le> 2 ^ 32"
      and IH: "k + ids_of cs + reaction_ids react (trace (client sys)) \<le> 2 ^ 32 \<Longrightarrow>
        answerable (client sys) \<and> accounted q i (client sys)"
    for cs sys t
  proof -
    have "reaction_ids react (trace (client sys)) \<le> reaction_ids react (trace t)"
      using fate by (intro ids_prefix) (simp add: fated_def reacts_def)
    then have small: "k + ids_of cs + reaction_ids react (trace (client sys)) \<le> 2 ^ 32" using bound by simp
    then have "calls_ok (k + ids_of cs + reaction_ids react (trace (client sys))) (client sys)" "stale (client sys) = {}"
      using before [OF run] assms(5) by (simp_all add: refines_def)
    moreover from this have "instance_set (client sys)" by (simp add: calls_ok_def p2p_client_def)
    ultimately show ?thesis using fate bound IH [OF small] by (simp add: fated_def answers_def)
  qed
  {
    case (Call cs sys c)
    let ?t = "state_after (perform env c) (client sys)"
    have un: "uncalled (client sys) ?t" by (rule alongD [OF uncalled_perform])
    have bound: "k + ids_of cs + reaction_ids react (trace (client sys)) + ids_taken c \<le> 2 ^ 32"
      using Call.prems(2) uncalled_ids [OF un, of react] by simp
    then have ok: "calls_ok (k + ids_of cs + reaction_ids react (trace (client sys))) (client sys)"
      using before [OF Call.hyps(1)] by (simp add: refines_def)
    have IH: "answerable (client sys)" "accounted q i (client sys)" using Call bound by simp_all
    have "answers (client sys) ?t" using Call.prems(1) by (intro alongD [OF answers_perform]) simp
    moreover have "instance_set (client sys)" using ok by (simp add: calls_ok_def p2p_client_def)
    ultimately show ?case using perform_accounted [OF ok bound IH(2)] IH(1) by (simp add: answers_def)
  next
    case (Receive cs sys pc t)
    have "fated react (k + ids_of cs) q i (client sys) t"
      using alongD [OF fated_recv_step [OF handlers], of "k + ids_of cs" q i "client sys" env "recv_at sys"]
        Receive.hyps(3) by simp
    then show ?case using step [OF Receive.hyps(1)] Receive by simp
  next
    case (Send cs sys cnt next_cnt t)
    have "fated react (k + ids_of cs) q i (client sys) t"
      using alongD [OF along_fated [OF steady_send_round answers.along_quiet [OF quiet_rounds(1)]],
          of react "k + ids_of cs" q i "client sys" env cnt] Send.hyps(4) by simp
    then show ?case using step [OF Send.hyps(1)] Send by simp
  next
    case (Timer cs sys goes_on t)
    have "fated react (k + ids_of cs) q i (client sys) t"
      using alongD [OF fated_timer_step [OF assms(2) handlers], of "k + ids_of cs" q i "client sys" env] Timer.hyps(4)
      by simp
    then show ?case using step [OF Timer.hyps(1)] Timer by simp
  next
    case (Stop cs sys)
    have "fated react (k + ids_of cs) q i (client sys) ((client sys)\<lparr>stopThreads := True\<rparr>)"
      by (intro steady_fated steady_same answers_same) (simp_all add: p2p_client_def)
    then show ?case using step [OF Stop.hyps(1)] Stop by simp
  }
qed

lemma system_run_trans:
  assumes "system_run call env mid ds sys" "system_run call env start cs mid"
  shows "system_run call env start (cs @ ds) sys"
  using assms
proof induction
  case (Call ds sys c)
  then show ?case using system_run.Call [of call env start "cs @ ds" sys c] by simp
qed (auto intro: system_run.intros)

lemma once_accounted:
  assumes "p2p_client (client start)" and "timer_tasks (client start) = []"
    and "m_next_timer_id (client start) = 0" and "trace (client start) = []"
    and "system_run (reacting env react) env start cs mid"
    and "find_task (timer_tasks (client mid)) i = Some task" and "msgtype (task_props task) = RB_REQUEST"
    and "answerable (client mid)"
    and "system_run (reacting env react) env mid ds sys"
    and "list_all keeps_handlers ds" and "\<And>h c. list_all keeps_handlers (react h c)"
    and "timeouts_take_no_id react"
    and "ids_of (cs @ ds) + reaction_ids react (trace (client sys)) \<le> 2 ^ 32"
  shows "completions i (called (trace (client sys))) +
    (if find_task (timer_tasks (client sys)) i \<noteq> None then 1 else 0) = 1 \<and>
    (\<forall>later. find_task (timer_tasks (client sys)) i = Some later \<longrightarrow> task_props later = task_props task)"
proof -
  have handlers: "\<forall>h c. list_all keeps_handlers (react h c)" using assms(11) by blast
  note whole = system_run_trans [OF assms(9,5)]
  have "completions i (called (trace (client sys))) +
      (if find_task (timer_tasks (client sys)) i \<noteq> None then 1 else 0) \<le> 1"
    using run_once [OF whole assms(12) assms(1-4) refl assms(13), of i] by (simp split: if_splits)
  moreover have "accounted (task_props task) i (client sys)"
  proof -
    have fresh: "calls_ok (0 + reaction_ids react (trace (client start))) (client start)" "stale (client start) = {}"
      using assms(1-4) by (simp_all add: calls_ok_def ids_differ_def stale_def)
    have "prefix (trace (client mid)) (trace (client sys))"
      by (rule run_prefix [OF assms(9)])
    from ids_prefix [OF this, of react] assms(13)
    have "calls_ok (ids_of cs + reaction_ids react (trace (client mid))) (client mid)" "stale (client mid) = {}"
      using run_refines [OF assms(5,12) fresh] fresh(2) by (simp_all add: refines_def)
    moreover have "accounted (task_props task) i (client mid)" using assms(6,7) by (simp add: accounted_def waiting_def)
    ultimately show ?thesis
      using run_accounted [OF assms(9,12) handlers _ _ assms(8) _ assms(10)] assms(13)
      by (simp add: add.assoc)
  qed
  ultimately show ?thesis by (auto simp: accounted_def waiting_def split: if_splits)
qed

section \<open>Each request is completed exactly once\<close>

text \<open>
  C3: No request is lost, as far as calls, received messages and rounds of the timer are carried through one
  at a time. Take any run of a fresh client made of such whole steps, and in it a moment at which a request
  is pending and the callbacks for timeouts and final responses of requests are set. In every further run of
  whole steps, in which these callbacks are not set to \<open>NULL\<close>, the functions for timeouts make
  no request and no notification, and no more than \<open>2 ^ 32\<close> ids are taken in all, by a counter
  that wraps, the request is either still pending, with the data it was made with, and has not been
  completed, or it has been completed exactly once and is pending no more. (When the timer gets into the
  middle of a final response a request may be completed twice: theories \<open>Call_Runs\<close> and
  \<open>Stages\<close>.)
\<close>

theorem no_request_is_lost:
  assumes "p2p_client (client start)" and "timer_tasks (client start) = []"
    and "m_next_timer_id (client start) = 0" and "trace (client start) = []"
    and "system_run (reacting env react) env start cs mid"
    and "find_task (timer_tasks (client mid)) i = Some task" and "msgtype (task_props task) = RB_REQUEST"
    and "answerable (client mid)"
    and "system_run (reacting env react) env mid ds sys"
    and "list_all keeps_handlers ds" and "\<And>h c. list_all keeps_handlers (react h c)"
    and "timeouts_take_no_id react"
    and "ids_of (cs @ ds) + reaction_ids react (trace (client sys)) \<le> 2 ^ 32"
  shows "completions i (called (trace (client sys))) +
    (if find_task (timer_tasks (client sys)) i \<noteq> None then 1 else 0) = 1 \<and>
    (\<forall>later. find_task (timer_tasks (client sys)) i = Some later \<longrightarrow> task_props later = task_props task)"
  by (rule once_accounted [OF assms])

lemma no_reaction_ids:
  assumes "\<And>h c. ids_of (react h c) = 0"
  shows "reaction_ids react h = 0"
  using assms by (simp add: reaction_ids_def last_ids_def split: list.splits event.splits)

lemma answer_requests_kept: "list_all keeps_handlers (answer_requests h c)" "ids_of (answer_requests h c) = 0"
  by (cases "(h, c)" rule: answer_requests.cases; simp)+

theorem no_request_is_lost_witness:
  "let t = state_after (timer_step (reacting sample_env answer_requests) sample_env)
       (state_after (perform sample_env sample_request) (sample_client p2ptype))
   in completions 0 (called (trace t)) + (if find_task (timer_tasks t) 0 \<noteq> None then 1 else 0) = 1"
proof -
  let ?q = "sample_client p2ptype"
  let ?mid = "(sample_system p2ptype)\<lparr>client := state_after (perform sample_env sample_request)
    (client (sample_system p2ptype))\<rparr>"
  have run: "system_run (reacting sample_env answer_requests) sample_env (sample_system p2ptype) ([] @ [sample_request]) ?mid"
    by (rule system_run.Call [OF system_run.Start]) (simp add: sample_system_starts)
  obtain b t where t: "run_state (timer_step (reacting sample_env answer_requests) sample_env) (client ?mid) = (b, t)"
    by fastforce
  have later: "system_run (reacting sample_env answer_requests) sample_env ?mid [] (?mid\<lparr>client := t, timer_on := b\<rparr>)"
    by (rule system_run.Timer [OF system_run.Start _ _ t]) (simp_all add: sample_system_starts sample_system_def)
  have client: "p2p_client ?q" by (simp add: p2p_client_def)
  obtain r q1 where call: "run_state (make_call sample_env RB_REQUEST ''peer'' ''ping'' 0 ''{}'' (Some ()) 5000)
      (entered ?q) = (r, q1)" by fastforce
  have mid: "client ?mid = q1"
    using call client by (simp add: sample_request_def sample_system_starts ignore_def rmRequestMake_def split_beta)
  have q1: "timer_tasks q1 = push_task (call_task sample_env RB_REQUEST (entered ?q) ''peer'' ''ping'' 0 ''{}'' 5000) []"
    "stClientCBHandle q1 = full_handler"
    using make_call_outcome [OF _ _ call refl] client by (auto simp: send_ok_def)
  have "find_task (timer_tasks (client ?mid)) 0 =
      Some (call_task sample_env RB_REQUEST (entered ?q) ''peer'' ''ping'' 0 ''{}'' 5000)"
    "msgtype (task_props (call_task sample_env RB_REQUEST (entered ?q) ''peer'' ''ping'' 0 ''{}'' 5000)) = RB_REQUEST"
    "answerable (client ?mid)"
    unfolding mid by (simp_all add: q1 push_task_def call_task_def new_TimerTask_def call_props_def
      answerable_def full_handler_def)
  from no_request_is_lost [OF _ _ _ _ run this later _ answer_requests_kept(1) answer_requests_timeouts]
  show ?thesis
    using t client by (simp add: sample_system_starts no_reaction_ids answer_requests_kept(2))
      (auto simp: sample_request_def split: if_splits)
qed

text \<open>What a round of the timer leaves.\<close>

lemma expire_tasks:
  assumes "timeouts_take_no_id react" "calls_ok k s" "stale s = {}" "timer_tasks s = seen @ todo"
  shows "timer_tasks (state_after (expire_loop (reacting env react) ids seen todo) s) =
    seen @ filter (\<lambda>t. task_id t \<notin> set ids) todo"
  using assms(2-4)
proof (induction todo arbitrary: seen s)
  case (Cons task todo)
  show ?case
  proof (cases "task_id task \<in> set ids")
    case False
    then show ?thesis using Cons.IH [of s "seen @ [task]"] Cons.prems by simp
  next
    case True
    define v where "v = (state_after (p2pTimeoutProc (reacting env react) task) s)\<lparr>timer_tasks := seen @ todo\<rparr>"
    note one = expire_one [OF assms(1) Cons.prems v_def]
    have "stale v = {}" "timer_tasks v = seen @ todo"
      using one(1) Cons.prems(2) by (simp_all add: refines_def v_def)
    then show ?thesis
      using True Cons.IH [OF refines_ok [OF one(1)]] by (simp add: v_def split_beta)
  qed
qed simp

lemma timer_step_removes:
  assumes "timeouts_take_no_id react" "calls_ok k s" "stale s = {}" "\<not> stopThreads s"
    and "find_task (timer_tasks s) i = Some task"
    and "expire_time task \<le> steady_now env (trace s @ [Lock timer_mutex, Read_clock])"
  shows "find_task (timer_tasks (state_after (timer_step (reacting env react) env) s)) i = None"
proof -
  let ?s = "s\<lparr>trace := trace s @ [Lock timer_mutex, Read_clock]\<rparr>"
  define ids where "ids = map task_id (filter (expired (steady_now env (trace ?s))) (timer_tasks s))"
  have s: "steady s ?s"
    by (rule steady_events [where es = "[Lock timer_mutex, Read_clock]"]) (simp_all add: p2p_client_def)
  have client: "p2p_client s" using assms(2) by (simp add: calls_ok_def)
  have "timer_tasks (state_after (expire_loop (reacting env react) ids [] (timer_tasks s)) ?s) =
      [] @ filter (\<lambda>t. task_id t \<notin> set ids) (timer_tasks s)"
    using steady_view [OF s client] assms(2,3) by (intro expire_tasks [OF assms(1), of k]) simp_all
  moreover have i: "i \<in> set ids"
    using find_task_in [OF assms(5)] find_task_id [OF assms(5)] assms(6) by (auto simp: ids_def expired_def)
  moreover from this have "ids \<noteq> []" by auto
  ultimately have "timer_tasks (state_after (timer_step (reacting env react) env) s) =
      filter (\<lambda>t. task_id t \<notin> set ids) (timer_tasks s)"
    using assms(4) by (simp add: timer_step_def timer_round_def ids_def Let_def split_beta)
  then show ?thesis using i by (auto simp: find_task_None)
qed

text \<open>
  C5: A request comes to its end. Take a run of a fresh client made of whole calls and rounds, each carried
  through before the next, in which the functions for timeouts make no request and no notification and no
  more than \<open>2 ^ 32\<close> ids are taken, by a counter that wraps. At its end the callbacks for
  timeouts and final responses of requests are set, and no function sets them to \<open>NULL\<close>; the
  client is not stopped, its timer thread runs and its receiving thread has not blocked itself. If the time
  of a pending request has come when the next round of the timer thread reads the clock, then after that
  round the request has been completed exactly once and is pending no more. (The round is not interleaved
  with a final response; one that has looked the request up before completes it a second time.)
\<close>

theorem expired_request_is_completed:
  assumes "p2p_client (client start)" and "timer_tasks (client start) = []"
    and "m_next_timer_id (client start) = 0" and "trace (client start) = []"
    and "system_run (reacting env react) env start cs sys"
    and "find_task (timer_tasks (client sys)) i = Some task" and "msgtype (task_props task) = RB_REQUEST"
    and "answerable (client sys)" and "\<And>h c. list_all keeps_handlers (react h c)"
    and "timeouts_take_no_id react"
    and "recv_at sys \<noteq> Self_blocked" and "timer_on sys" and "\<not> stopThreads (client sys)"
    and "expire_time task \<le> steady_now env (trace (client sys) @ [Lock timer_mutex, Read_clock])"
    and "run_state (timer_step (reacting env react) env) (client sys) = (goes_on, t)"
    and "ids_of cs + reaction_ids react (trace t) \<le> 2 ^ 32"
  shows "completions i (called (trace t)) = 1 \<and> find_task (timer_tasks t) i = None"
proof -
  have later: "system_run (reacting env react) env sys [] (sys\<lparr>client := t, timer_on := goes_on\<rparr>)"
    by (rule system_run.Timer [OF system_run.Start assms(11,12,15)])
  have "reacts react 0 (client sys) t"
    using alongD [OF reacts_timer_step [OF assms(10)], of 0 "client sys" env] assms(15) by simp
  then have "reaction_ids react (trace (client sys)) \<le> reaction_ids react (trace t)"
    by (intro ids_prefix) (simp add: reacts_def)
  moreover have fresh: "calls_ok (0 + reaction_ids react (trace (client start))) (client start)" "stale (client start) = {}"
    using assms(1-4) by (simp_all add: calls_ok_def ids_differ_def stale_def)
  ultimately have "calls_ok (ids_of cs + reaction_ids react (trace (client sys))) (client sys)" "stale (client sys) = {}"
    using run_refines [OF assms(5,10) fresh] fresh(2) assms(16) by (simp_all add: refines_def)
  from timer_step_removes [OF assms(10) this assms(13,6,14)] have "find_task (timer_tasks t) i = None"
    using assms(15) by simp
  then show ?thesis
    using once_accounted [OF assms(1-8) later _ assms(9,10)] assms(16) by simp
qed

theorem expired_request_is_completed_witness:
  "\<exists>s. completions 0 (called (trace (state_after (timer_step (reacting sample_env answer_requests) sample_env) s))) = 1"
proof -
  let ?q = "sample_client p2ptype" and ?c = "Request (Some ''peer'') (Some ''ping'') 0 (Some ''{}'') (Some ()) 0"
  let ?sys = "(sample_system p2ptype)\<lparr>client := state_after (perform sample_env ?c) (client (sample_system p2ptype))\<rparr>"
  let ?task = "call_task sample_env RB_REQUEST (entered ?q) ''peer'' ''ping'' 0 ''{}'' 0"
  have run: "system_run (reacting sample_env answer_requests) sample_env (sample_system p2ptype) ([] @ [?c]) ?sys"
    by (rule system_run.Call [OF system_run.Start]) (simp add: sample_system_starts)
  obtain b t where t: "run_state (timer_step (reacting sample_env answer_requests) sample_env) (client ?sys) = (b, t)"
    by fastforce
  have client: "p2p_client ?q" by (simp add: p2p_client_def)
  obtain r q1 where call: "run_state (make_call sample_env RB_REQUEST ''peer'' ''ping'' 0 ''{}'' (Some ()) 0)
      (entered ?q) = (r, q1)" by fastforce
  have sys: "client ?sys = q1"
    using call client by (simp add: sample_system_starts ignore_def rmRequestMake_def split_beta)
  have q1: "timer_tasks q1 = push_task ?task []" "stClientCBHandle q1 = full_handler" "\<not> stopThreads q1"
    using make_call_outcome [OF _ _ call refl] client by (auto simp: send_ok_def entered_def)
  have "length (trace (call_ready sample_env RB_REQUEST (entered ?q) ''peer'' ''ping'' 0 ''{}'' 0)) \<le> length (trace q1)"
    using call client by (auto simp: run_make_call Let_def run_send publish_history_def call_ready_def)
  then have "expire_time ?task \<le> steady_now sample_env (trace q1 @ [Lock timer_mutex, Read_clock])"
    by (simp add: call_ready_def call_task_def new_TimerTask_def expiry_def i32_div_def)
  moreover have "find_task (timer_tasks q1) 0 = Some ?task" "msgtype (task_props ?task) = RB_REQUEST" "answerable q1"
    by (simp_all add: q1 push_task_def call_task_def new_TimerTask_def call_props_def answerable_def full_handler_def)
  ultimately have "completions 0 (called (trace t)) = 1"
    using expired_request_is_completed [OF _ _ _ _ run _ _ _ answer_requests_kept(1) answer_requests_timeouts _ _ _ _ t,
        of 0 ?task] client
    unfolding sys by (simp add: q1(3) sample_system_starts sample_system_def no_reaction_ids answer_requests_kept(2))
  then show ?thesis using t by (intro exI [of _ "client ?sys"]) simp
qed

end
