(* ===== verification/Conversation.thy ===== *)
theory Conversation
  imports Call_Fate
begin

section \<open>A request between two clients\<close>

text \<open>
  Two point-to-point clients, each with its own surroundings, joined by a broker that hands a
  published message over as it is: what one client sends through the interface of \<open>rmMidLib.cpp\<close> is
  encoded into headers, published, received, decoded and given to the other client's callback. The
  theory puts the parts together: sending (\<open>P2p\<close>, \<open>Publish\<close>), the header table (\<open>Int_Props\<close>) and
  receiving (\<open>Threads\<close>).
\<close>

subsection \<open>What is published and what arrives\<close>

definition is_publish :: "event \<Rightarrow> bool" where
  "is_publish e \<longleftrightarrow> (case e of
     Library (Amqp_basic_publish c ch exchg routing mandatory immediate props msg) \<Rightarrow> True | _ \<Rightarrow> False)"

text \<open>The messages an operation has published between two states.\<close>

definition published :: "RabbitMQWrapper \<Rightarrow> RabbitMQWrapper \<Rightarrow> event list" where
  "published s t = filter is_publish (drop (length (trace s)) (trace t))"

text \<open>The envelope that a consumer receives for a published message, under some consumer tag.\<close>

definition carries :: "event \<Rightarrow> amqp_envelope_t \<Rightarrow> bool" where
  "carries e envelope \<longleftrightarrow> (case e of
     Library (Amqp_basic_publish c ch exchg routing mandatory immediate props msg) \<Rightarrow>
       routing_key envelope = routing \<and> properties (message envelope) = props \<and>
       body (message envelope) = msg \<and> (\<exists>tag. std_string (consumer_tag envelope) = Inr tag)
   | _ \<Rightarrow> False)"

lemma is_publish_simps [simp]:
  "is_publish (publish_event env s k b p)" "\<not> is_publish (Lock m)" "\<not> is_publish (Unlock m)"
  "\<not> is_publish (Logged l)" "\<not> is_publish Read_clock" "\<not> is_publish (Called c)"
  "\<not> is_publish (Library (Amqp_get_rpc_reply k'))" "\<not> is_publish (Library Amqp_destroy_envelope)"
  by (simp_all add: is_publish_def publish_event_def)

lemma std_string_cbytes:
  assumes "cstring_bytes_doc (cstring_bytes env)" "storable s"
  shows "std_string (cbytes env s) = Inr s"
proof -
  have "cbytes env s = \<lparr>len = of_nat (length s), bytes = Some s\<rparr>"
    using assms by (simp add: cbytes_def cstring_bytes_doc_def)
  moreover have "unat (of_nat (length s) :: 64 word) = length s"
    using assms(2) by (simp add: storable_def unat_of_nat)
  ultimately show ?thesis by (simp add: std_string_def)
qed

lemma run_send_publishes:
  assumes "k \<noteq> ''''" "connection s \<noteq> NULL"
  shows "published s (state_after (SendRabbitmqMessage env k msg (Some props)) s) =
    [publish_event env s k msg props]"
  using assms by (auto simp: run_send Let_def published_def publish_history_def publish_tail_def)

lemma sent_means:
  "result_of (SendRabbitmqMessage env k msg (Some props)) s \<Longrightarrow> k \<noteq> '''' \<and> connection s \<noteq> NULL"
  by (rule ccontr) (use run_send_refused [of k s env msg "Some props"] in auto)

text \<open>A message with the headers of some properties, received.\<close>

lemma carried_message:
  assumes "cstring_bytes_doc (cstring_bytes env)" "storable k" "storable msg" "storable_props p"
    and "carries (publish_event env q k msg (header_props env p)) envelope"
  shows "run_state (receive_message call env' envelope) r =
    run_state (handle_message call env' k msg p) (r\<lparr>trace := trace r @ [Library Amqp_destroy_envelope]\<rparr>)"
proof -
  obtain tag where envelope: "std_string (routing_key envelope) = Inr k"
    "std_string (body (message envelope)) = Inr msg" "std_string (consumer_tag envelope) = Inr tag"
    "properties (message envelope) = header_props env p"
    using assms(5) std_string_cbytes [OF assms(1)] assms(2,3) by (auto simp: carries_def publish_event_def)
  have "flags (header_props env p) AND AMQP_BASIC_HEADERS_FLAG \<noteq> 0"
    by (simp add: header_props_def AMQP_BASIC_CONTENT_TYPE_FLAG_def AMQP_BASIC_HEADERS_FLAG_def)
  moreover have "AmqpTable2IntProps (headers (header_props env p)) (uninit_props env') = Read_ok p"
    using decode_headers [OF assms(1,4)] by (simp add: header_props_def)
  ultimately have "run_state (read_properties env' (header_props env p)) r = (Inr (Some p), r)"
    by (simp add: read_properties_def)
  then show ?thesis
    using envelope by (simp add: receive_message_def)
qed

lemma receive_carried:
  assumes "cstring_bytes_doc (cstring_bytes env)" "storable k" "storable msg" "storable_props p"
    and "carries (publish_event env q k msg (header_props env p)) envelope"
    and "exchange_type r = p2ptype"
  shows "run_state (receive_message call env' envelope) r =
    run_state (locked handle_mutex (p2pHandleMessage call env' k msg p))
      (r\<lparr>trace := trace r @ [Library Amqp_destroy_envelope]\<rparr>)"
  using assms(6) by (simp add: carried_message [OF assms(1-5)] handle_message_def)

text \<open>What a request publishes, and what a final response publishes.\<close>

lemma published_after:
  assumes "trace u = trace s @ es" "filter is_publish es = []" "trace t = trace u @ fs"
  shows "published s t = published u t"
  using assms by (simp add: published_def)

lemma call_publishes:
  assumes "(type, rm_call) \<in> {(RB_REQUEST, rmRequestMake), (RB_NOTIFICATION, rmNotifyMake)}"
    and "p2p_client q"
    and "run_state (rm_call env (Some m) (Some n) a (Some b) (Some ()) timeout) q = (Inr (0, Some i), t)"
  shows "\<exists>u. exchange_name u = exchange_name q \<and>
      published q t = [publish_event env u m b (header_props env (call_props env type (entered q) m n a))]"
    and "i = m_next_timer_id q"
proof -
  let ?u = "call_ready env type (entered q) m n a b timeout"
  let ?props = "header_props env (call_props env type (entered q) m n a)"
  have "run_state (make_call env type m n a b (Some ()) timeout) (entered q) = (Inr (0, Some i), t)"
    using assms by (auto simp: rmRequestMake_def rmNotifyMake_def)
  then have send: "run_state (SendRabbitmqMessage env m b (Some ?props)) ?u = (True, t)"
    and "i = m_next_timer_id q"
    using assms(2) by (auto simp: run_make_call Let_def split_beta prod_eq_iff split: if_splits)
  then show "i = m_next_timer_id q" by simp
  obtain fs where "trace t = trace ?u @ fs"
    using send_frame [of env m b ?props ?u] send by auto
  moreover have "\<exists>es. trace ?u = trace q @ es \<and> filter is_publish es = []"
    by (simp add: call_ready_def)
  ultimately have "published q t = published ?u t" using published_after by blast
  moreover have "exchange_name ?u = exchange_name q" by (simp add: call_ready_def entered_def)
  ultimately show "\<exists>u. exchange_name u = exchange_name q \<and> published q t = [publish_event env u m b ?props]"
    using run_send_publishes [of m ?u env b ?props] sent_means [of env m b ?props ?u] send by auto
qed

definition response_props :: "RabbitMQWrapper \<Rightarrow> i64 \<Rightarrow> string \<Rightarrow> i32 \<Rightarrow> string \<Rightarrow> string \<Rightarrow> int_props_st" where
  "response_props s ms m i c d =
     \<lparr>sender = m_module_name s, receiver = m, msgtype = RB_FINAL_RESPONSE, msgname = ''finalrsp'', rid = i,
      inarg = 0, timestamp = ms, rspcode = c, rspdesc = d, trans = ''no transparent''\<rparr>"

lemma response_publishes:
  assumes "p2p_client r" "m \<noteq> ''''" "connection r \<noteq> NULL"
    and "run_state (rmRequestFinalResponse env (Some m) i (Some c) (Some d) (Some b)) r = (out, t)"
  shows "\<exists>u ms. published r t = [publish_event env u m b (header_props env (response_props r ms m i c d))]"
    and "called (trace t) = called (trace r)" and "\<exists>x. out = Inr x"
    and "\<exists>es. trace t = trace r @ es"
proof -
  let ?ms = "clock_ms env (entered r)"
  let ?u = "(entered r)\<lparr>trace := trace (entered r) @ [Read_clock]\<rparr>"
  let ?props = "header_props env (response_props r ?ms m i c d)"
  let ?send = "SendRabbitmqMessage env m b (Some ?props)"
  have run: "run_state (rmRequestFinalResponse env (Some m) i (Some c) (Some d) (Some b)) r =
      (if result_of ?send ?u then Inr 0 else Inr (- 1), state_after ?send ?u)"
    using assms(1) by (simp add: rmRequestFinalResponse_def GetModuleName_def run_timestamp send_props_def
        rm_properties_ok header_props_def response_props_def split_beta)
  then have t: "t = state_after ?send ?u" and "\<exists>x. out = Inr x" using assms(4) by (auto split: if_splits)
  then show "\<exists>x. out = Inr x" by simp
  obtain fs where fs: "trace t = trace ?u @ fs" "called fs = []"
    using send_frame [of env m b ?props ?u] t by auto
  then show "called (trace t) = called (trace r)" "\<exists>es. trace t = trace r @ es" by simp_all
  have "trace ?u = trace r @ [Lock instanceMutex, Unlock instanceMutex, Read_clock]" by simp
  from published_after [OF this _ fs(1)] have "published r t = published ?u t" by simp
  moreover have "published ?u t = [publish_event env ?u m b ?props]"
    unfolding t using assms(2,3) by (intro run_send_publishes) simp_all
  ultimately show "\<exists>u ms. published r t = [publish_event env u m b (header_props env (response_props r ms m i c d))]"
    by auto
qed

lemma response_accepted:
  assumes "p2p_client r"
    and "run_state (rmRequestFinalResponse env (Some m) i (Some c) (Some d) (Some b)) r = (Inr 0, t)"
  shows "m \<noteq> '''' \<and> connection r \<noteq> NULL"
proof (rule ccontr)
  assume "\<not> (m \<noteq> '''' \<and> connection r \<noteq> NULL)"
  then have "result_of (rmRequestFinalResponse env (Some m) i (Some c) (Some d) (Some b)) r = Inr (- 1)"
    using assms(1) by (auto simp: rmRequestFinalResponse_def GetModuleName_def run_timestamp send_props_def
        rm_properties_ok run_send_refused split_beta)
  with assms(2) show False by simp
qed

text \<open>A response, received by the client that waits for it.\<close>

lemma response_arrives:
  assumes "cstring_bytes_doc (cstring_bytes env)" and "storable (m_module_name r)"
    and "storable m" and "storable c" and "storable d" and "storable b"
    and "carries (publish_event env u m b (header_props env (response_props r ms m i c d))) envelope"
    and "p2p_client q" and "m_cbRespFinal (stClientCBHandle q) = Some f"
    and "find_task (timer_tasks q) i = Some task"
    and "run_state (receive_message silent env' envelope) q = (out, q')"
  shows "out = Inr () \<and> timer_tasks q' = drop_task i (timer_tasks q) \<and>
    called (trace q') = called (trace q) @ (if msgtype (task_props task) = RB_REQUEST
      then [CB_RESP_FINAL f ''RMQ-BUS'' (c_str (receiver (task_props task)))
        (c_str (msgname (task_props task))) i c d b (inarg (task_props task))] else [])"
proof -
  have "storable_props (response_props r ms m i c d)"
    using assms(2-5) by (simp add: storable_props_def response_props_def) (simp add: storable_def)
  then have "run_state (receive_message silent env' envelope) q =
      run_state (locked handle_mutex (p2pHandleMessage silent env' m b (response_props r ms m i c d)))
        (q\<lparr>trace := trace q @ [Library Amqp_destroy_envelope]\<rparr>)"
    using assms(7,8) by (intro receive_carried [OF assms(1,3,6)]) simp_all
  moreover have "msgtype (response_props r ms m i c d) = RB_FINAL_RESPONSE"
    "rid (response_props r ms m i c d) = i"
    by (simp_all add: response_props_def)
  note run_final_response [OF _ _ this(1), of _ f env' m b]
  ultimately show ?thesis
    using assms(4-6,8-11) by (auto simp: response_props_def final_call_def)
qed

lemma response_reaches:
  assumes "cstring_bytes_doc (cstring_bytes env)" and "p2p_client r" and "storable (m_module_name r)"
    and "storable m" and "storable c" and "storable d" and "storable b"
    and "run_state (rmRequestFinalResponse env (Some m) i (Some c) (Some d) (Some b)) r = (Inr 0, r')"
    and "published r r' = [e]" and "carries e envelope"
    and "p2p_client q" and "m_cbRespFinal (stClientCBHandle q) = Some f"
    and "find_task (timer_tasks q) i = Some task" and "msgtype (task_props task) = RB_REQUEST"
    and "run_state (receive_message silent env' envelope) q = (out, q')"
  shows "out = Inr () \<and> timer_tasks q' = drop_task i (timer_tasks q) \<and>
    called (trace q') = called (trace q) @ [CB_RESP_FINAL f ''RMQ-BUS'' (c_str (receiver (task_props task)))
      (c_str (msgname (task_props task))) i c d b (inarg (task_props task))]"
proof -
  obtain u ms where "published r r' = [publish_event env u m b (header_props env (response_props r ms m i c d))]"
    using response_publishes(1) [OF assms(2) _ _ assms(8)] response_accepted [OF assms(2,8)] by blast
  then have "carries (publish_event env u m b (header_props env (response_props r ms m i c d))) envelope"
    using assms(9,10) by simp
  from response_arrives [OF assms(1,3-7) this assms(11-13,15)] show ?thesis using assms(14) by simp
qed

text \<open>The task of an accepted request, as it is found later.\<close>

lemma request_task:
  assumes "p2p_client q" and "find_task (timer_tasks q) (m_next_timer_id q) = None"
    and "run_state (rmRequestMake env (Some m) (Some n) a (Some b) (Some ()) timeout) q = (Inr (0, Some i), q1)"
  shows "find_task (timer_tasks q1) i = Some (call_task env RB_REQUEST (entered q) m n a b timeout)"
    and "i = m_next_timer_id q" and "stClientCBHandle q1 = stClientCBHandle q"
proof -
  let ?task = "call_task env RB_REQUEST (entered q) m n a b timeout"
  have call: "run_state (make_call env RB_REQUEST m n a b (Some ()) timeout) (entered q) = (Inr (0, Some i), q1)"
    using assms(1,3) by (simp add: rmRequestMake_def)
  have q1: "timer_tasks q1 = push_task ?task (timer_tasks q)" "i = m_next_timer_id q"
    "stClientCBHandle q1 = stClientCBHandle q"
    using make_call_outcome [OF _ _ call refl] assms(1,2) by (auto split: if_splits)
  then show "find_task (timer_tasks q1) i = Some ?task"
    using assms(2) find_task_push [of "timer_tasks q" ?task] by simp
  show "i = m_next_timer_id q" "stClientCBHandle q1 = stClientCBHandle q" using q1 by simp_all
qed

text \<open>The properties of the task of a request, which is pending later with the same ones.\<close>

definition requested :: "int_props_st \<Rightarrow> string \<Rightarrow> string \<Rightarrow> address \<Rightarrow> bool" where
  "requested p m n a \<longleftrightarrow> msgtype p = RB_REQUEST \<and> receiver p = m \<and> msgname p = n \<and> inarg p = a"

lemma call_task_requested: "requested (task_props (call_task env RB_REQUEST s m n a b timeout)) m n a"
  by (simp add: requested_def call_task_def new_TimerTask_def call_props_def)

lemma same_props_requested:
  assumes "p2p_client q" and "find_task (timer_tasks q) (m_next_timer_id q) = None"
    and "run_state (rmRequestMake env (Some m) (Some n) a (Some b) (Some ()) timeout) q = (Inr (0, Some i), q1)"
    and "map_option task_props (find_task ts i) = map_option task_props (find_task (timer_tasks q1) i)"
  obtains task where "find_task ts i = Some task" "requested (task_props task) m n a"
proof -
  have "map_option task_props (find_task ts i) =
      Some (task_props (call_task env RB_REQUEST (entered q) m n a b timeout))"
    using request_task(1) [OF assms(1-3)] assms(4) by simp
  then show thesis using that call_task_requested [of env "entered q" m n a b timeout] by auto
qed

text \<open>A temporary response restarts the timer of a request and leaves its data alone.\<close>

lemma restart_keeps_props:
  assumes "p2p_client s" and "ids_differ (timer_tasks s)"
  shows "map_option task_props (find_task (timer_tasks (state_after (p2pRestartTimerTask env j) s)) i) =
    map_option task_props (find_task (timer_tasks s) i)"
  using assms p2p_client_type [OF assms(1)]
  by (auto simp: run_restart_task find_task_alter option.map_comp comp_def split: option.splits)

text \<open>The answer to a request under some id, received by a client that has a request of that id.\<close>

lemma answer_completes:
  assumes "cstring_bytes_doc (cstring_bytes env)" and "no_nul m" and "no_nul n"
    and "p2p_client r" and "storable (m_module_name r)" and "storable w"
    and "storable c" and "storable d" and "storable answer"
    and "run_state (rmRequestFinalResponse env (Some w) i (Some c) (Some d) (Some answer)) r = (Inr 0, r1)"
    and "published r r1 = [e]" and "carries e envelope"
    and "p2p_client q2" and "ids_differ (timer_tasks q2)"
    and "find_task (timer_tasks q2) i = Some task" and "requested (task_props task) m n a"
    and "m_cbRespFinal (stClientCBHandle q2) = Some f"
    and "run_state (receive_message silent env'' envelope) q2 = (out, q3)"
  shows "out = Inr () \<and>
    called (trace q3) = called (trace q2) @ [CB_RESP_FINAL f ''RMQ-BUS'' m n i c d answer a] \<and>
    find_task (timer_tasks q3) i = None"
proof -
  have props: "msgtype (task_props task) = RB_REQUEST" "receiver (task_props task) = m"
    "msgname (task_props task) = n" "inarg (task_props task) = a"
    using assms(16) by (simp_all add: requested_def)
  have "out = Inr () \<and> timer_tasks q3 = drop_task i (timer_tasks q2) \<and>
      called (trace q3) = called (trace q2) @ [CB_RESP_FINAL f ''RMQ-BUS'' (c_str (receiver (task_props task)))
        (c_str (msgname (task_props task))) i c d answer (inarg (task_props task))]"
    by (rule response_reaches [OF assms(1,4-13,17,15) props(1) assms(18)])
  then show ?thesis
    using assms(2,3) by (simp add: props(2-4) find_task_drop [OF assms(14)])
qed

text \<open>A request in a run of whole steps: while it is pending its data is what it was made with.\<close>

lemma request_in_run:
  assumes "p2p_client (client start)" and "timer_tasks (client start) = []"
    and "m_next_timer_id (client start) = 0" and "trace (client start) = []"
    and "system_run (reacting env react) env start cs sys" and "recv_at sys \<noteq> Self_blocked"
    and "request = Request (Some m) (Some n) a (Some b) (Some ()) timeout"
    and "run_state (rmRequestMake env (Some m) (Some n) a (Some b) (Some ()) timeout) (client sys) =
      (Inr (0, Some i), q1)"
    and "answerable (client sys)" and "timeouts_take_no_id react"
    and "list_all keeps_handlers ds" and "\<And>h c. list_all keeps_handlers (react h c)"
    and "system_run (reacting env react) env (sys\<lparr>client := q1\<rparr>) ds later"
    and "ids_of (cs @ request # ds) + reaction_ids react (trace (client later)) \<le> 2 ^ 32"
    and "find_task (timer_tasks (client later)) i = Some task"
  shows "p2p_client (client later) \<and> ids_differ (timer_tasks (client later)) \<and> requested (task_props task) m n a"
proof -
  let ?mid = "sys\<lparr>client := q1\<rparr>"
  have "q1 = state_after (perform env request) (client sys)"
    using assms(8) by (simp add: assms(7) ignore_def)
  with system_run.Call [OF assms(5,6), of request]
  have mid: "system_run (reacting env react) env start (cs @ [request]) ?mid" by simp
  note whole = system_run_trans [OF assms(13) mid]
  have fresh: "calls_ok (0 + reaction_ids react (trace (client start))) (client start)" "stale (client start) = {}"
    using assms(1-4) by (simp_all add: calls_ok_def ids_differ_def stale_def)
  have ids: "reaction_ids react (trace q1) \<le> reaction_ids react (trace (client later))"
    using ids_prefix [OF run_prefix [OF assms(13)], of react] by simp
  have "uncalled (client sys) q1"
    using alongD [OF uncalled_perform, of "client sys" env request] \<open>q1 = _\<close> by simp
  from uncalled_ids [OF this, of react] ids assms(14)
  have small: "ids_of cs + reaction_ids react (trace (client sys)) < 2 ^ 32" by (simp add: assms(7))
  have ok: "calls_ok (ids_of cs + reaction_ids react (trace (client sys))) (client sys)"
    using run_refines [OF assms(5,10) fresh] fresh(2) small by (simp add: refines_def)
  then have "m_next_timer_id (client sys) \<notin> task_id ` set (timer_tasks (client sys))" "p2p_client (client sys)"
    using issue_fresh [OF small] by (auto simp: calls_ok_def)
  then have client: "p2p_client (client sys)" and free: "find_task (timer_tasks (client sys)) (m_next_timer_id (client sys)) = None"
    by (simp_all add: find_task_None)
  note made = request_task [OF client free assms(8)]
  let ?task = "call_task env RB_REQUEST (entered (client sys)) m n a b timeout"
  have "answerable (client ?mid)" using assms(9) made(3) by (simp add: answerable_def)
  moreover have "find_task (timer_tasks (client ?mid)) i = Some ?task" using made(1) by simp
  moreover have "msgtype (task_props ?task) = RB_REQUEST"
    using call_task_requested [of env "entered (client sys)" m n a b timeout] by (simp add: requested_def)
  ultimately have "task_props task = task_props ?task"
    using once_accounted [OF assms(1-4) mid _ _ _ assms(13,11,12,10)] assms(14,15) by simp
  moreover have "calls_ok (ids_of (cs @ request # ds) + reaction_ids react (trace (client later))) (client later)"
    using run_refines [OF whole assms(10) fresh] fresh(2) assms(14) by (simp add: refines_def)
  ultimately show ?thesis
    using call_task_requested [of env "entered (client sys)" m n a b timeout] by (simp add: calls_ok_def)
qed

section \<open>Properties of the conversation\<close>

text \<open>
  C21: A request that was accepted reaches the other client's callback as it was made: it has published
  exactly one message, and a point-to-point client that receives that message and has set a callback
  for requests calls it once, with the requester's module name, the message name, the id stored for the
  requester, the body and the requester's argument, and changes nothing else. The names and the body
  are C strings that fit into a message.
\<close>

theorem request_reaches_callback:
  assumes "cstring_bytes_doc (cstring_bytes env)" and "p2p_client q" and "storable (m_module_name q)"
    and "storable m" and "storable n" and "storable b"
    and "run_state (rmRequestMake env (Some m) (Some n) a (Some b) (Some ()) timeout) q = (Inr (0, Some i), q')"
    and "p2p_client r" and "m_cbRequest (stClientCBHandle r) = Some f"
  shows "\<exists>e. published q q' = [e] \<and> (\<forall>envelope. carries e envelope \<longrightarrow>
    run_state (receive_message silent env' envelope) r = (Inr (), r\<lparr>trace := trace r @
      [Library Amqp_destroy_envelope, Lock handle_mutex,
       Called (CB_REQUEST f ''RMQ-BUS'' (m_module_name q) n i b a), Unlock handle_mutex]\<rparr>))"
proof -
  let ?p = "call_props env RB_REQUEST (entered q) m n a"
  obtain u where e: "published q q' = [publish_event env u m b (header_props env ?p)]" and i: "i = m_next_timer_id q"
    using call_publishes [of RB_REQUEST rmRequestMake, OF _ assms(2,7)] by auto
  have "run_state (receive_message silent env' envelope) r = (Inr (), r\<lparr>trace := trace r @
      [Library Amqp_destroy_envelope, Lock handle_mutex,
       Called (CB_REQUEST f ''RMQ-BUS'' (m_module_name q) n i b a), Unlock handle_mutex]\<rparr>)"
    if carried: "carries (publish_event env u m b (header_props env ?p)) envelope" for envelope
  proof -
    have "storable_props ?p"
      using assms(3-5) by (simp add: storable_props_def call_props_def) (simp add: storable_def)
    with carried have "run_state (receive_message silent env' envelope) r =
        run_state (locked handle_mutex (p2pHandleMessage silent env' m b ?p))
          (r\<lparr>trace := trace r @ [Library Amqp_destroy_envelope]\<rparr>)"
      using assms(8) by (intro receive_carried [OF assms(1,4,6)]) simp_all
    then show ?thesis
      using assms(3,5,6,9) i by (simp add: p2pHandleMessage_def Let_def call_props_def)
  qed
  with e show ?thesis by blast
qed

lemma envelope_exists: "\<exists>envelope. carries (publish_event env u k b p) envelope"
  by (intro exI [of _ "sample_envelope\<lparr>routing_key := cbytes env k, message :=
      (message sample_envelope)\<lparr>properties := p, body := cbytes env b\<rparr>\<rparr>"])
    (simp add: carries_def publish_event_def sample_envelope_def std_string_def plain_cstring_bytes_def)

lemma sample_call_accepted:
  assumes "(type, rm_call) \<in> {(RB_REQUEST, rmRequestMake), (RB_NOTIFICATION, rmNotifyMake)}"
  obtains e q' envelope where
    "run_state (rm_call sample_env (Some ''peer'') (Some ''ping'') 7 (Some ''{}'') (Some ()) 5000)
      (sample_client p2ptype) = (Inr (0, Some 0), q')"
    "published (sample_client p2ptype) q' = [e]" "carries e envelope"
    "find_task (timer_tasks q') 0 = Some (call_task sample_env type (entered (sample_client p2ptype))
      ''peer'' ''ping'' 7 ''{}'' 5000)"
    "p2p_client q'" "ids_differ (timer_tasks q')" "stClientCBHandle q' = full_handler"
proof -
  let ?q = "sample_client p2ptype"
  let ?task = "call_task sample_env type (entered ?q) ''peer'' ''ping'' 7 ''{}'' 5000"
  have client: "p2p_client ?q" by (simp add: p2p_client_def)
  obtain r q' where call: "run_state (make_call sample_env type ''peer'' ''ping'' 7 ''{}'' (Some ()) 5000)
      (entered ?q) = (r, q')" by fastforce
  have out: "r = Inr (0, Some 0) \<and> timer_tasks q' = push_task ?task [] \<and> p2p_client q' \<and>
      stClientCBHandle q' = full_handler"
    using make_call_outcome [OF _ _ call refl] client by (auto simp: send_ok_def p2p_client_def)
  with call have run: "run_state (rm_call sample_env (Some ''peer'') (Some ''ping'') 7
      (Some ''{}'') (Some ()) 5000) ?q = (Inr (0, Some 0), q')"
    using client assms by (auto simp: rmRequestMake_def rmNotifyMake_def)
  moreover obtain u where "published ?q q' = [publish_event sample_env u ''peer'' ''{}''
      (header_props sample_env (call_props sample_env type (entered ?q) ''peer'' ''ping'' 7))]"
    using call_publishes(1) [OF assms client run] by auto
  moreover have "find_task (timer_tasks q') 0 = Some ?task" "ids_differ (timer_tasks q')"
    using out by (simp_all add: push_task_def ids_differ_def)
  ultimately show thesis
    using that [OF run] out envelope_exists by blast
qed

theorem request_reaches_callback_witness:
  "\<exists>envelope. called (trace (state_after (receive_message silent sample_env envelope) (sample_client p2ptype))) =
    [CB_REQUEST 1 ''RMQ-BUS'' ''module'' ''ping'' 0 ''{}'' 7]"
proof -
  obtain e q' envelope where request:
    "run_state (rmRequestMake sample_env (Some ''peer'') (Some ''ping'') 7 (Some ''{}'') (Some ()) 5000)
      (sample_client p2ptype) = (Inr (0, Some 0), q')"
    "published (sample_client p2ptype) q' = [e]" "carries e envelope"
    by (rule sample_call_accepted [of RB_REQUEST rmRequestMake]) simp
  have "\<exists>e. published (sample_client p2ptype) q' = [e] \<and> (\<forall>envelope. carries e envelope \<longrightarrow>
      run_state (receive_message silent sample_env envelope) (sample_client p2ptype) = (Inr (),
        sample_client p2ptype\<lparr>trace := trace (sample_client p2ptype) @ [Library Amqp_destroy_envelope,
          Lock handle_mutex, Called (CB_REQUEST 1 ''RMQ-BUS'' (m_module_name (sample_client p2ptype)) ''ping'' 0 ''{}'' 7),
          Unlock handle_mutex]\<rparr>))"
    by (rule request_reaches_callback [OF _ _ _ _ _ _ request(1)])
      (simp_all add: plain_cstring_bytes_doc p2p_client_def storable_def full_handler_def)
  with request(2,3) show ?thesis by (intro exI [of _ envelope]) simp
qed

text \<open>
  C1: A conversation comes to its end. A fresh client that has gone through any run of whole calls and
  rounds, and whose receiving thread has not blocked itself, makes a request, which is accepted; then it
  goes through any further run of whole steps, in which temporary responses may restart the request's timer,
  its callbacks for timeouts and final responses of requests, set at the request, stay set, the functions
  for timeouts make no request and no notification, and no more than \<open>2 ^ 32\<close> ids are taken in
  all, by a counter that wraps. If the request is still pending then and any client answers it with a final
  response under its id, which is accepted, that client has published exactly one message. When the
  requester receives it, it calls its callback for final responses, which only records the call: once, with
  the receiver and message name of the request, the argument given with it, and the code, description and
  body of the answer. Afterwards the request is pending no more. Names and contents are C strings that fit
  into a message.
\<close>

theorem request_is_answered:
  assumes "p2p_client (client start)" and "timer_tasks (client start) = []"
    and "m_next_timer_id (client start) = 0" and "trace (client start) = []"
    and "system_run (reacting env react) env start cs sys" and "recv_at sys \<noteq> Self_blocked"
    and "request = Request (Some m) (Some n) a (Some b) (Some ()) timeout"
    and "run_state (rmRequestMake env (Some m) (Some n) a (Some b) (Some ()) timeout) (client sys) =
      (Inr (0, Some i), q1)"
    and "answerable (client sys)" and "timeouts_take_no_id react"
    and "list_all keeps_handlers ds" and "\<And>h c. list_all keeps_handlers (react h c)"
    and "system_run (reacting env react) env (sys\<lparr>client := q1\<rparr>) ds later"
    and "ids_of (cs @ request # ds) + reaction_ids react (trace (client later)) \<le> 2 ^ 32"
    and "find_task (timer_tasks (client later)) i \<noteq> None"
    and "m_cbRespFinal (stClientCBHandle (client later)) = Some f"
    and "no_nul m" and "no_nul n" and "cstring_bytes_doc (cstring_bytes env')"
    and "p2p_client r" and "storable (m_module_name r)" and "storable (m_module_name (client sys))"
    and "storable c" and "storable d" and "storable answer"
    and "run_state (rmRequestFinalResponse env' (Some (m_module_name (client sys))) i (Some c) (Some d)
      (Some answer)) r = (Inr 0, r1)"
  shows "\<exists>e. published r r1 = [e] \<and> (\<forall>envelope out q3. carries e envelope \<and>
    run_state (receive_message silent env envelope) (client later) = (out, q3) \<longrightarrow> out = Inr () \<and>
    called (trace q3) = called (trace (client later)) @ [CB_RESP_FINAL f ''RMQ-BUS'' m n i c d answer a] \<and>
    find_task (timer_tasks q3) i = None)"
proof -
  obtain task where task: "find_task (timer_tasks (client later)) i = Some task" using assms(15) by blast
  from request_in_run [OF assms(1-14) this] have later: "p2p_client (client later)"
    "ids_differ (timer_tasks (client later))" "requested (task_props task) m n a" by simp_all
  obtain e where e: "published r r1 = [e]"
    using response_publishes(1) [OF assms(20) _ _ assms(26)] response_accepted [OF assms(20,26)] by blast
  show ?thesis
    using e answer_completes [OF assms(19,17,18,20-26) e _ later(1,2) task later(3) assms(16)] by blast
qed

theorem request_is_answered_witness:
  "\<exists>q2 envelope. called (trace (state_after (receive_message silent sample_env envelope) q2)) =
    called (trace q2) @ [CB_RESP_FINAL 3 ''RMQ-BUS'' ''peer'' ''ping'' 0 ''200'' ''ok'' ''pong'' 7]"
proof -
  let ?q = "sample_client p2ptype"
  let ?c = "Request (Some ''peer'') (Some ''ping'') 7 (Some ''{}'') (Some ()) 5000"
  obtain e q1 envelope where request:
    "run_state (rmRequestMake sample_env (Some ''peer'') (Some ''ping'') 7 (Some ''{}'') (Some ()) 5000) ?q =
      (Inr (0, Some 0), q1)"
    "p2p_client q1" "ids_differ (timer_tasks q1)" "stClientCBHandle q1 = full_handler"
    by (rule sample_call_accepted [of RB_REQUEST rmRequestMake]) simp
  have client: "p2p_client ?q" by (simp add: p2p_client_def)
  have pending: "find_task (timer_tasks q1) 0 \<noteq> None" using request_task(1) [OF client _ request(1)] by simp
  let ?sys = "sample_system p2ptype"
  have "system_run (reacting sample_env answer_requests) sample_env ?sys [] ?sys"
    "system_run (reacting sample_env answer_requests) sample_env (?sys\<lparr>client := q1\<rparr>) [] (?sys\<lparr>client := q1\<rparr>)"
    by (rule system_run.Start)+
  note runs = this
  let ?answer = "rmRequestFinalResponse sample_env (Some (m_module_name ?q)) 0 (Some ''200'') (Some ''ok'') (Some ''pong'')"
  obtain r1 where r1: "run_state ?answer ?q = (Inr 0, r1)"
    using client by (auto simp: rmRequestFinalResponse_def GetModuleName_def run_timestamp send_props_def
        rm_properties_ok run_send Let_def)
  have few: "ids_of ([] @ ?c # []) + reaction_ids answer_requests (trace (client (?sys\<lparr>client := q1\<rparr>))) \<le> 2 ^ 32"
    by (simp add: no_reaction_ids answer_requests_kept(2))
  have "\<exists>e. published ?q r1 = [e] \<and> (\<forall>envelope out q3. carries e envelope \<and>
      run_state (receive_message silent sample_env envelope) (client (?sys\<lparr>client := q1\<rparr>)) = (out, q3) \<longrightarrow> out = Inr () \<and>
      called (trace q3) = called (trace (client (?sys\<lparr>client := q1\<rparr>))) @
        [CB_RESP_FINAL 3 ''RMQ-BUS'' ''peer'' ''ping'' 0 ''200'' ''ok'' ''pong'' 7] \<and>
      find_task (timer_tasks q3) 0 = None)"
    by (rule request_is_answered [OF _ _ _ _ runs(1) _ refl _ _ answer_requests_timeouts _ answer_requests_kept(1)
          runs(2) few, where r = ?q])
      (use client request(1,4) pending r1 in \<open>simp_all add: sample_system_starts plain_cstring_bytes_doc storable_def
        full_handler_def answerable_def\<close>)
  then obtain e where e: "published ?q r1 = [e]" "\<And>envelope out q3. carries e envelope \<Longrightarrow>
      run_state (receive_message silent sample_env envelope) q1 = (out, q3) \<Longrightarrow>
      called (trace q3) = called (trace q1) @ [CB_RESP_FINAL 3 ''RMQ-BUS'' ''peer'' ''ping'' 0 ''200'' ''ok'' ''pong'' 7]"
    by auto
  obtain u ms where "published ?q r1 = [publish_event sample_env u (m_module_name ?q) ''pong''
      (header_props sample_env (response_props ?q ms (m_module_name ?q) 0 ''200'' ''ok''))]"
    using response_publishes(1) [OF client _ _ r1] by auto
  then obtain envelope where "carries e envelope"
    using envelope_exists e(1) by (metis list.inject)
  from e(2) [OF this surjective_pairing] show ?thesis by blast
qed




text \<open>A request that is received under a published message, answered by the function called for it.\<close>

lemma callback_answered:
  assumes "cstring_bytes_doc (cstring_bytes env)" and "cstring_bytes_doc (cstring_bytes env')"
    and "p2p_client q" and "storable (m_module_name q)" and "m_module_name q \<noteq> ''''"
    and "storable m" and "storable n" and "storable b"
    and "find_task (timer_tasks q) (m_next_timer_id q) = None"
    and "run_state (rmRequestMake env (Some m) (Some n) a (Some b) (Some ()) timeout) q = (Inr (0, Some i), q1)"
    and "published q q1 = [e]" and "carries e envelope"
    and "p2p_client r" and "storable (m_module_name r)" and "connection r \<noteq> NULL"
    and "m_cbRequest (stClientCBHandle r) = Some f"
    and "\<And>h. react h (CB_REQUEST f ''RMQ-BUS'' (m_module_name q) n i b a) =
      [Final_response (Some (m_module_name q)) i (Some c) (Some d) (Some answer)]"
    and "storable c" and "storable d" and "storable answer"
    and "run_state (receive_message (reacting env' react) env' envelope) r = (out, r1)"
    and "p2p_client q2" and "ids_differ (timer_tasks q2)"
    and "find_task (timer_tasks q2) i = Some task" and "requested (task_props task) m n a"
    and "m_cbRespFinal (stClientCBHandle q2) = Some g"
  shows "out = Inr () \<and>
    called (trace r1) = called (trace r) @ [CB_REQUEST f ''RMQ-BUS'' (m_module_name q) n i b a] \<and>
    (\<exists>e'. published r r1 = [e'] \<and> (\<forall>envelope' out' q3. carries e' envelope' \<and>
      run_state (receive_message silent env envelope') q2 = (out', q3) \<longrightarrow> out' = Inr () \<and>
      called (trace q3) = called (trace q2) @ [CB_RESP_FINAL g ''RMQ-BUS'' m n i c d answer a] \<and>
      find_task (timer_tasks q3) i = None))"
proof -
  let ?p = "call_props env RB_REQUEST (entered q) m n a"
    and ?c = "CB_REQUEST f ''RMQ-BUS'' (m_module_name q) n i b a"
  obtain u where "published q q1 = [publish_event env u m b (header_props env ?p)]" and i: "i = m_next_timer_id q"
    using call_publishes [of RB_REQUEST rmRequestMake, OF _ assms(3,10)] by auto
  then have carried: "carries (publish_event env u m b (header_props env ?p)) envelope" using assms(11,12) by simp
  have "storable_props ?p"
    using assms(4,6,7) by (simp add: storable_props_def call_props_def) (simp add: storable_def)
  note receive = receive_carried [OF assms(1,6,8) this carried p2p_client_type [OF assms(13)],
    of "reacting env' react" env']
  let ?r = "r\<lparr>trace := trace r @ [Library Amqp_destroy_envelope, Lock handle_mutex, Called ?c]\<rparr>"
  obtain res r' where answer: "run_state (rmRequestFinalResponse env' (Some (m_module_name q)) i
      (Some c) (Some d) (Some answer)) ?r = (res, r')" by fastforce
  have client: "p2p_client ?r" using assms(13) by (simp add: p2p_client_def)
  note sent = response_publishes [OF client assms(5) _ answer, simplified, OF assms(15) [simplified]]
  have r1: "out = Inr ()" "r1 = r'\<lparr>trace := trace r' @ [Unlock handle_mutex]\<rparr>"
    using receive assms(4,7,8,16,17,21) answer i
    by (auto simp: p2pHandleMessage_def Let_def call_props_def run_reacting ignore_def)
  obtain u' ms where published: "published ?r r' = [publish_event env' u' (m_module_name q) answer
      (header_props env' (response_props ?r ms (m_module_name q) i c d))]"
    using sent(1) by auto
  have e': "published r r1 = published ?r r'" using sent(4) r1(2) by (auto simp: published_def)
  have name: "storable (m_module_name ?r)" using assms(14) by simp
  have props: "msgtype (task_props task) = RB_REQUEST" "receiver (task_props task) = m"
    "msgname (task_props task) = n" "inarg (task_props task) = a"
    using assms(25) by (simp_all add: requested_def)
  have "out' = Inr () \<and> called (trace q3) = called (trace q2) @ [CB_RESP_FINAL g ''RMQ-BUS'' m n i c d answer a] \<and>
      find_task (timer_tasks q3) i = None"
    if "carries (publish_event env' u' (m_module_name q) answer (header_props env'
        (response_props ?r ms (m_module_name q) i c d))) envelope'"
      "run_state (receive_message silent env envelope') q2 = (out', q3)" for envelope' out' q3
    using response_arrives [OF assms(2) name assms(4,18-20) that(1) assms(22,26,24) that(2)] assms(6,7)
    by (simp add: props find_task_drop [OF assms(23)])
  then show ?thesis using e' published r1 sent(2) by auto
qed

text \<open>
  C6: A request may be answered from within the function called for it. A request that was accepted has
  published exactly one message. A connected client that receives that message, whose function for requests
  makes just the call of a final response, calls the function once, and its call publishes exactly one
  message before the thread goes on. When the requester receives that message while the request is pending
  with the data it was made with (a temporary response may have moved its time), and has a callback for
  final responses, it calls it once, with the receiver and message name of the request, the argument given
  with it and the content of the answer, and the request is pending no more. Names and contents are C
  strings that fit into a message, and the requester has a name.
\<close>

theorem callback_answers_request:
  assumes "cstring_bytes_doc (cstring_bytes env)" and "cstring_bytes_doc (cstring_bytes env')"
    and "p2p_client q" and "storable (m_module_name q)" and "m_module_name q \<noteq> ''''"
    and "storable m" and "storable n" and "storable b"
    and "find_task (timer_tasks q) (m_next_timer_id q) = None"
    and "run_state (rmRequestMake env (Some m) (Some n) a (Some b) (Some ()) timeout) q = (Inr (0, Some i), q1)"
    and "p2p_client r" and "storable (m_module_name r)" and "connection r \<noteq> NULL"
    and "m_cbRequest (stClientCBHandle r) = Some f"
    and "\<And>h. react h (CB_REQUEST f ''RMQ-BUS'' (m_module_name q) n i b a) =
      [Final_response (Some (m_module_name q)) i (Some c) (Some d) (Some answer)]"
    and "storable c" and "storable d" and "storable answer"
    and "p2p_client q2" and "ids_differ (timer_tasks q2)"
    and "map_option task_props (find_task (timer_tasks q2) i) = map_option task_props (find_task (timer_tasks q1) i)"
    and "m_cbRespFinal (stClientCBHandle q2) = Some g"
  shows "\<exists>e. published q q1 = [e] \<and> (\<forall>envelope out r1. carries e envelope \<and>
      run_state (receive_message (reacting env' react) env' envelope) r = (out, r1) \<longrightarrow>
    out = Inr () \<and>
    called (trace r1) = called (trace r) @ [CB_REQUEST f ''RMQ-BUS'' (m_module_name q) n i b a] \<and>
    (\<exists>e'. published r r1 = [e'] \<and> (\<forall>envelope' out' q3. carries e' envelope' \<and>
      run_state (receive_message silent env envelope') q2 = (out', q3) \<longrightarrow> out' = Inr () \<and>
      called (trace q3) = called (trace q2) @ [CB_RESP_FINAL g ''RMQ-BUS'' m n i c d answer a] \<and>
      find_task (timer_tasks q3) i = None)))"
proof -
  obtain e where e: "published q q1 = [e]"
    using call_publishes(1) [of RB_REQUEST rmRequestMake, OF _ assms(3,10)] by auto
  obtain task where task: "find_task (timer_tasks q2) i = Some task" "requested (task_props task) m n a"
    using same_props_requested [OF assms(3,9,10,21)] .
  show ?thesis
    using e callback_answered [where react = react, OF assms(1-10) e _ assms(11-18) _ assms(19,20) task assms(22)] by blast
qed

theorem callback_answers_request_witness:
  "\<exists>envelope. called (trace (state_after
      (receive_message (reacting sample_env answer_requests) sample_env envelope) (sample_client p2ptype))) =
    [CB_REQUEST 1 ''RMQ-BUS'' ''module'' ''ping'' 0 ''{}'' 7]"
proof -
  let ?q = "sample_client p2ptype"
  obtain e q1 envelope where request:
    "run_state (rmRequestMake sample_env (Some ''peer'') (Some ''ping'') 7 (Some ''{}'') (Some ()) 5000) ?q =
      (Inr (0, Some 0), q1)" "published ?q q1 = [e]" "carries e envelope"
    "p2p_client q1" "ids_differ (timer_tasks q1)" "stClientCBHandle q1 = full_handler"
    by (rule sample_call_accepted [of RB_REQUEST rmRequestMake]) simp
  have "\<exists>e. published ?q q1 = [e] \<and> (\<forall>envelope out r1. carries e envelope \<and>
      run_state (receive_message (reacting sample_env answer_requests) sample_env envelope) ?q = (out, r1) \<longrightarrow>
      out = Inr () \<and>
      called (trace r1) = called (trace ?q) @ [CB_REQUEST 1 ''RMQ-BUS'' (m_module_name ?q) ''ping'' 0 ''{}'' 7] \<and>
      (\<exists>e'. published ?q r1 = [e'] \<and> (\<forall>envelope' out' q3. carries e' envelope' \<and>
        run_state (receive_message silent sample_env envelope') q1 = (out', q3) \<longrightarrow> out' = Inr () \<and>
        called (trace q3) = called (trace q1) @ [CB_RESP_FINAL 3 ''RMQ-BUS'' ''peer'' ''ping'' 0 ''200'' ''ok'' ''pong'' 7] \<and>
        find_task (timer_tasks q3) 0 = None)))"
    by (rule callback_answers_request [OF _ _ _ _ _ _ _ _ _ request(1) _ _ _ _ _ _ _ _ request(4,5) refl])
      (simp_all add: plain_cstring_bytes_doc storable_def full_handler_def p2p_client_def request(6))
  with request(2,3) have "called (trace (state_after (receive_message (reacting sample_env answer_requests) sample_env envelope) ?q)) =
      called (trace ?q) @ [CB_REQUEST 1 ''RMQ-BUS'' (m_module_name ?q) ''ping'' 0 ''{}'' 7]"
    by (metis list.inject surjective_pairing)
  then show ?thesis by (intro exI [of _ envelope]) simp
qed

text \<open>
  C19: A request that was accepted is addressed to the client of that name: it has published exactly one
  message, and the broker of a point-to-point client in service whose last attempt to connect has not
  failed has a binding of its queue for exactly the exchange and the routing key under which that
  message is published, provided it accepts the bindings the client requests (hypothesis
  \<open>binds_accepted\<close>; the code does not look at the answers).
\<close>

theorem request_finds_its_client:
  assumes "cstring_bytes_doc (cstring_bytes env)" and "cstring_bytes_doc (cstring_bytes env')"
    and "client_start p2ptype env module (client start)"
    and "system_run (reacting env react) env start cs sys" and "\<not> connect_failed (trace (client sys))"
    and "p2p_client q" and "standard_names q"
    and "run_state (rmRequestMake env' (Some module) (Some n) a (Some b) (Some ()) timeout) q = (Inr (0, Some i), q1)"
    and "binds_accepted accepts (trace (client sys))"
  shows "\<exists>c ch queue exch key props text.
    published q q1 = [Library (Amqp_basic_publish c ch exch key 0 0 props text)] \<and>
    (queue, exch, key) \<in> broker_bindings accepts (trace (client sys))"
proof -
  have same: "cbytes env' x = cbytes env x" for x
    using assms(1,2) by (simp add: cbytes_def cstring_bytes_doc_def)
  have "exchange_name q = RBMQ_P2P_EXCHG"
    using assms(6,7) p2p_client_type [OF assms(6)] by (simp add: standard_names_def)
  then obtain u props where "published q q1 = [publish_event env' u module b props]" "exchange_name u = RBMQ_P2P_EXCHG"
    using call_publishes(1) [of RB_REQUEST rmRequestMake, OF _ assms(6,8)] by auto
  moreover have "broker_bindings accepts (trace (client sys)) = {home_binding p2ptype env module}"
    using run_home [OF assms(3,4)] home_expected [OF run_home [OF assms(3,4)]] assms(5)
    by (simp add: at_home_def bound_def in_step_def broker_bindings_accepted [OF assms(9)])
  ultimately show ?thesis by (auto simp: publish_event_def home_binding_def same)
qed

theorem request_finds_its_client_witness:
  "\<exists>s queue. client_start p2ptype sample_env ''peer'' s \<and>
    (queue, cbytes sample_env RBMQ_P2P_EXCHG, cbytes sample_env ''peer'') \<in> broker_bindings (\<lambda>_ _. True) (trace s)"
proof -
  obtain t where t: "client_start p2ptype sample_env ''peer'' t" using sample_start [of p2ptype] by auto
  let ?sys = "\<lparr>client = t, recv_at = Thread_restart, send_at = Some 0, timer_on = True\<rparr>"
  let ?q = "sample_client p2ptype\<lparr>queue_name := ''module-p2pmsgque'', exchange_name := RBMQ_P2P_EXCHG\<rparr>"
  have run: "system_run (reacting sample_env answer_requests) sample_env ?sys [] ?sys" by (rule system_run.Start)
  have client: "p2p_client ?q" "standard_names ?q"
    by (simp_all add: p2p_client_def standard_names_def RBMQ_P2P_QUE_PRE_def)
  obtain r q1 where call: "run_state (make_call sample_env RB_REQUEST ''peer'' ''ping'' 7 ''{}'' (Some ()) 5000)
      (entered ?q) = (r, q1)" by fastforce
  have "r = Inr (0, Some 0)" using make_call_outcome [OF _ _ call refl] client by (auto simp: send_ok_def)
  with call have request: "run_state (rmRequestMake sample_env (Some ''peer'') (Some ''ping'') 7 (Some ''{}'')
      (Some ()) 5000) ?q = (Inr (0, Some 0), q1)"
    using client by (simp add: rmRequestMake_def)
  obtain u props where e: "published ?q q1 = [publish_event sample_env u ''peer'' ''{}'' props]"
    "exchange_name u = RBMQ_P2P_EXCHG"
    using call_publishes(1) [of RB_REQUEST rmRequestMake, OF _ client(1) request] by auto
  have "\<not> connect_failed (trace (client ?sys))" using started_client(9) [OF t] by simp
  from request_finds_its_client [OF _ _ _ run this client request, of "\<lambda>_ _. True"] t e show ?thesis
    by (auto simp: plain_cstring_bytes_doc publish_event_def binds_accepted_def)
qed

section \<open>Two processes of one module\<close>

text \<open>
  C20: A final response is taken for the pending request of the same id, whoever it is meant for. Two
  processes of one module have one queue at the broker, since its name is made from the module's, and
  both count their ids from zero. When both have made as many calls before and each has then made a
  request, the answer to the request of one, received by the other, completes the request of the
  other: its callback gets the receiver, message name and argument of its own request together with
  the content of an answer to a different one, and its request is pending no more.
\<close>

theorem answer_completes_other_request:
  assumes "cstring_bytes_doc (cstring_bytes env)"
    and "p2p_client q" and "standard_names q" and "p2p_client twin" and "standard_names twin"
    and "m_module_name twin = m_module_name q" and "m_next_timer_id twin = m_next_timer_id q"
    and "run_state (rmRequestMake env_q (Some m) (Some n) a (Some b) (Some ()) timeout) q = (Inr (0, Some i), q1)"
    and "find_task (timer_tasks twin) (m_next_timer_id twin) = None" and "no_nul m'" and "no_nul n'"
    and "run_state (rmRequestMake env_twin (Some m') (Some n') a' (Some b') (Some ()) timeout') twin =
      (Inr (0, Some i'), twin1)"
    and "p2p_client r" and "storable (m_module_name r)" and "storable (m_module_name q)"
    and "storable c" and "storable d" and "storable answer"
    and "run_state (rmRequestFinalResponse env (Some (m_module_name q)) i (Some c) (Some d) (Some answer)) r =
      (Inr 0, r1)"
    and "published r r1 = [e]" and "carries e envelope"
    and "ids_differ (timer_tasks twin1)" and "m_cbRespFinal (stClientCBHandle twin) = Some g"
    and "run_state (receive_message silent env_twin envelope) twin1 = (out, twin2)"
  shows "queue_name twin = queue_name q \<and> i' = i \<and> out = Inr () \<and>
    called (trace twin2) = called (trace twin1) @ [CB_RESP_FINAL g ''RMQ-BUS'' m' n' i c d answer a'] \<and>
    find_task (timer_tasks twin2) i = None"
proof -
  have "i' = m_next_timer_id twin" "i = m_next_timer_id q"
    using call_publishes(2) [of RB_REQUEST rmRequestMake, OF _ assms(4,12)]
      call_publishes(2) [of RB_REQUEST rmRequestMake, OF _ assms(2,8)] by simp_all
  then have same: "i' = i" using assms(7) by simp
  have "run_state (make_call env_twin RB_REQUEST m' n' a' b' (Some ()) timeout') (entered twin) =
      (Inr (0, Some i'), twin1)"
    using assms(4,12) by (simp add: rmRequestMake_def)
  from make_call_outcome [OF _ _ this refl]
  have "p2p_client twin1" "stClientCBHandle twin1 = stClientCBHandle twin"
    using assms(4,9) by (auto simp: p2p_client_def)
  then show ?thesis
    using answer_completes [OF assms(1,10,11,13-21) _ assms(22) request_task(1) [OF assms(4,9) assms(12) [unfolded same]]
        call_task_requested _ assms(24)]
      assms(2-6,23) same p2p_client_type by (simp add: standard_names_def)
qed

text \<open>An instance of a module, that has made no call yet, makes its first request.\<close>

definition sample_instance :: RabbitMQWrapper where
  "sample_instance = sample_client p2ptype\<lparr>queue_name := ''module-p2pmsgque'', exchange_name := RBMQ_P2P_EXCHG\<rparr>"

lemma sample_instance_props:
  "p2p_client sample_instance" "standard_names sample_instance" "timer_tasks sample_instance = []"
  "m_next_timer_id sample_instance = 0" "stClientCBHandle sample_instance = full_handler"
  "m_module_name sample_instance = ''module''" "connection sample_instance = Some 1"
  by (simp_all add: sample_instance_def p2p_client_def standard_names_def RBMQ_P2P_QUE_PRE_def)

lemma sample_first_request:
  assumes "m \<noteq> ''''"
  obtains q1 where "run_state (rmRequestMake sample_env (Some m) (Some n) a (Some b) (Some ()) timeout)
      sample_instance = (Inr (0, Some 0), q1)" "ids_differ (timer_tasks q1)"
proof -
  obtain r q1 where call: "run_state (make_call sample_env RB_REQUEST m n a b (Some ()) timeout)
      (entered sample_instance) = (r, q1)" by fastforce
  have "r = Inr (0, Some 0) \<and> ids_differ (timer_tasks q1)"
    using make_call_outcome [OF _ _ call refl] assms sample_instance_props
    by (auto simp: send_ok_def p2p_client_def push_task_def ids_differ_def sample_instance_def)
  with call that show thesis using sample_instance_props(1) by (simp add: rmRequestMake_def)
qed

theorem answer_completes_other_request_witness:
  "\<exists>twin1 envelope. called (trace (state_after (receive_message silent sample_env envelope) twin1)) =
    called (trace twin1) @ [CB_RESP_FINAL 3 ''RMQ-BUS'' ''store'' ''delete'' 0 ''200'' ''ok'' ''pong'' 9]"
proof -
  let ?q = sample_instance
  obtain q1 where q1: "run_state (rmRequestMake sample_env (Some ''peer'') (Some ''ping'') 7 (Some ''{}'') (Some ())
      5000) ?q = (Inr (0, Some 0), q1)"
    by (rule sample_first_request [of "''peer''"]) simp
  obtain twin1 where twin1: "run_state (rmRequestMake sample_env (Some ''store'') (Some ''delete'') 9 (Some ''{}'')
      (Some ()) 5000) ?q = (Inr (0, Some 0), twin1)" "ids_differ (timer_tasks twin1)"
    by (rule sample_first_request [of "''store''"]) simp
  obtain r1 where r1: "run_state (rmRequestFinalResponse sample_env (Some (m_module_name ?q)) 0 (Some ''200'')
      (Some ''ok'') (Some ''pong'')) ?q = (Inr 0, r1)"
    using sample_instance_props
    by (auto simp: rmRequestFinalResponse_def GetModuleName_def run_timestamp send_props_def
        rm_properties_ok run_send Let_def)
  obtain u ms where e: "published ?q r1 = [publish_event sample_env u (m_module_name ?q) ''pong''
      (header_props sample_env (response_props ?q ms (m_module_name ?q) 0 ''200'' ''ok''))]"
    using response_publishes(1) [OF sample_instance_props(1) _ _ r1] by (auto simp: sample_instance_props)
  obtain envelope where carried: "carries (publish_event sample_env u (m_module_name ?q) ''pong''
      (header_props sample_env (response_props ?q ms (m_module_name ?q) 0 ''200'' ''ok''))) envelope"
    using envelope_exists by blast
  have "called (trace (state_after (receive_message silent sample_env envelope) twin1)) =
      called (trace twin1) @ [CB_RESP_FINAL 3 ''RMQ-BUS'' ''store'' ''delete'' 0 ''200'' ''ok'' ''pong'' 9]"
    using answer_completes_other_request [OF _ sample_instance_props(1,2) sample_instance_props(1,2) _ _ q1 _ _ _
        twin1(1) sample_instance_props(1) _ _ _ _ _ r1 e carried twin1(2) _ surjective_pairing, of 3]
    by (simp add: plain_cstring_bytes_doc storable_def full_handler_def sample_instance_props)
  then show ?thesis by blast
qed

end
