(* ===== verification/Topic_Runs.thy ===== *)
theory Topic_Runs
  imports Service Call_Runs Conversation
begin

section \<open>A topic client in service\<close>

text \<open>
  A topic client from its construction on, in every run of the system: what it has recorded, the
  callbacks it has registered and the bindings the broker has agree, over reconnections, lost
  connections and subscriptions made from the client's own callbacks. From this follows that a
  publication which the broker routes to the client reaches one of its callbacks.
\<close>

subsection \<open>The invariant\<close>

text \<open>A topic client in service; \<open>own\<close> are the keys that are subscribed with an instance.\<close>

definition topic_service :: "environment \<Rightarrow> string set \<Rightarrow> RabbitMQWrapper \<Rightarrow> bool" where
  "topic_service env own s \<longleftrightarrow> instance_set s \<and> instanceType s = topictype \<and>
     exchange_type s = topictype \<and> standard_names s \<and> names_ok env s \<and> records_full s \<and>
     sorted_by own s \<and> bound env s"

definition serves :: "environment \<Rightarrow> string set \<Rightarrow> RabbitMQWrapper \<Rightarrow> RabbitMQWrapper \<Rightarrow> bool" where
  "serves env own s t \<longleftrightarrow> (topic_service env own s \<longrightarrow> topic_service env own t)"

lemma service_kept:
  assumes "ties_kept s t" "trace t = trace s @ es" "list_all (\<lambda>e. \<not> touches_bindings e) es"
  shows "serves env own s t"
  using bound_kept [OF assms] standard_names_cong [of t s] assms(1)
  by (simp add: serves_def topic_service_def ties_kept_def names_ok_def records_full_def records_ok_def sorted_by_def)

interpretation serves: service_relation "serves env own" env for env own
proof unfold_locales
  show "quiet s t \<Longrightarrow> serves env own s t" for s t
    by (cases "instance_set s")
      (auto simp: quiet_def intro: service_kept, simp add: serves_def topic_service_def)
  show "\<not> touches_bindings e \<Longrightarrow> serves env own s (s\<lparr>trace := trace s @ [e]\<rparr>)" for e s
    by (rule service_kept [where es = "[e]"]) (simp_all add: ties_kept_def)
  show "along (serves env own) (reconnect_locked env)"
  proof (rule alongI, unfold serves_def, intro impI)
    fix s
    assume s: "topic_service env own s"
    note hold = alongD [OF names_hold_reconnect, of s env]
    show "topic_service env own (state_after (reconnect_locked env) s)"
      using s hold names_hold_standard [OF hold] bound_reconnect [OF standard_known, of s env]
        reconnect_locked_summary [OF refl refl, of env s]
      by (simp add: topic_service_def names_hold_def setup_summary_def kept_def names_ok_def
          records_full_def records_ok_def sorted_by_def)
  qed
qed (simp_all add: serves_def)

subsection \<open>Subscriptions\<close>

text \<open>A call by which a topic, a C string, is subscribed in one way only.\<close>

definition well_used :: "string set \<Rightarrow> api_call \<Rightarrow> bool" where
  "well_used own c \<longleftrightarrow> (case c of
     Subscribe_topic topic f inst \<Rightarrow> no_nul topic \<and> (inst \<noteq> NULL) = (topic \<in> own) | _ \<Rightarrow> True)"

lemma service_moved:
  assumes "topic_service env own s"
    and "instance_set t = instance_set s" "instanceType t = instanceType s"
      "exchange_type t = exchange_type s" "standard_names t" "names_ok env t"
    and "records_full t" "sorted_by own t" "moved_alike env s t"
    and "connect_failed (trace t) = connect_failed (trace s)"
  shows "topic_service env own t"
  using assms moved_alike_step [OF assms(9)] by (auto simp: topic_service_def bound_def)

lemma serves_subscribe:
  assumes "well_used own (Subscribe_topic topic f inst)"
  shows "along (serves env own) (subscribleTopicMsg env topic f inst)"
proof (rule alongI, unfold serves_def, intro impI)
  fix s
  let ?t = "state_after (subscribleTopicMsg env topic f inst) s"
  assume s: "topic_service env own s"
  show "topic_service env own ?t"
  proof (cases "topic = []")
    case True
    then show ?thesis using s by (simp add: run_subscribe_refused)
  next
    case False
    have "one_way own (Subscribe topic f inst)" using assms by (simp add: well_used_def one_way_def)
    then have records: "records_full ?t \<and> sorted_by own ?t"
      using one_way_step [of s own "Subscribe topic f inst" env] s by (simp add: topic_service_def)
    note run = run_subscribe [OF _ False, of s env f inst]
    show ?thesis
      using s assms False records moved_subscribe [of env s topic f inst]
      by (intro service_moved [OF s])
        (auto simp: topic_service_def run standard_names_def names_ok_def well_used_def list_all_iff
          connect_failed_append bind_event_def)
  qed
qed

lemma serves_unsubscribe: "along (serves env own) (unSubscribleTopicMsg env topic)"
proof (rule alongI, unfold serves_def, intro impI)
  fix s
  let ?t = "state_after (unSubscribleTopicMsg env topic) s"
  assume s: "topic_service env own s"
  show "topic_service env own ?t"
  proof (cases "topic = []")
    case True
    then show ?thesis using s by (simp add: run_unsubscribe_refused)
  next
    case False
    have records: "records_full ?t \<and> sorted_by own ?t"
      using one_way_step [of s own "Unsubscribe topic" env] s by (simp add: topic_service_def one_way_def)
    have names: "names_ok env s" using s by (simp add: topic_service_def)
    note run = run_unsubscribe [OF _ False, of s env]
    show ?thesis
      using s False records moved_unsubscribe [OF names, of topic]
      by (intro service_moved [OF s])
        (auto simp: topic_service_def run standard_names_def names_ok_def list_all_iff
          connect_failed_append unbind_event_def)
  qed
qed

lemma serves_set_handler: "along (serves env own) (rmSetMidMsgHandler env pfn)"
proof (rule alongI)
  fix s
  show "serves env own s (state_after (rmSetMidMsgHandler env pfn) s)"
  proof (cases "instance_set s")
    case True
    note effect = set_handler_effect [OF True, of env pfn]
    show ?thesis by (rule service_kept [OF conjunct1 [OF effect] conjunct2 [OF effect]]) simp
  qed (simp add: serves_def topic_service_def)
qed

lemma serves_perform:
  assumes "well_used own c"
  shows "along (serves env own) (perform env c)"
  using assms by (intro serves.along_perform serves_subscribe serves_unsubscribe serves_set_handler) simp

interpretation silent_topics: service_user "serves env own" env silent for env own
  by (rule serves.silent_user)

subsection \<open>Runs\<close>

lemma start_service:
  assumes "client_start topictype env module t" "no_nul module" "cstring_bytes_doc (cstring_bytes env)"
  shows "topic_service env own t"
  using started_client [OF assms(1)] assms(2,3)
  by (simp add: topic_service_def names_ok_def records_full_def records_ok_def sorted_by_def)

lemma run_topic_service:
  assumes "cstring_bytes_doc (cstring_bytes env)" and "no_nul module"
    and "client_start topictype env module (client start)"
    and "system_run (reacting env react) env start cs sys"
    and "list_all (well_used own) cs" and "\<And>h c. list_all (well_used own) (react h c)"
  shows "topic_service env own (client sys)"
proof -
  have calls: "along (serves env own) (perform env a)" if "a \<in> set cs \<or> a \<in> set (react h c)" for a h c
    using that assms(5) assms(6) [of h c] by (intro serves_perform) (auto simp: list_all_iff)
  have "service_user (serves env own) env (reacting env react)"
    by (intro serves.reacting_user) (use calls in blast)
  from service_user.along_run [OF this assms(4)] calls
  have "serves env own (client start) (client sys)" by blast
  then show ?thesis using start_service [OF assms(3,2,1)] by (simp add: serves_def)
qed

subsection \<open>A publication on its way\<close>

definition topic_props :: "string \<Rightarrow> string \<Rightarrow> string \<Rightarrow> i64 \<Rightarrow> int_props_st" where
  "topic_props name topic transinfo ms =
     \<lparr>sender = name, receiver = ''subscriber'', msgtype = RB_TOPIC, msgname = topic, rid = - 1, inarg = 0,
      timestamp = ms, rspcode = ''no code'', rspdesc = ''no description'',
      trans = (if transinfo = [] then ''no transparent'' else transinfo)\<rparr>"

lemma topic_published:
  assumes "exchange_type p = topictype"
    and "run_state (publishTopicMsg env msg topic transinfo) p = (Inr True, p')"
  shows "\<exists>u ms. published p p' =
    [publish_event env u topic msg (header_props env (topic_props (m_module_name p) topic transinfo ms))]"
proof -
  let ?u = "p\<lparr>trace := trace p @ [Read_clock]\<rparr>"
  let ?props = "header_props env (topic_props (m_module_name p) topic transinfo (clock_ms env p))"
  have send: "run_state (SendRabbitmqMessage env topic msg (Some ?props)) ?u = (True, p')"
    using assms by (auto simp: publishTopicMsg_def run_timestamp header_properties_ok header_props_def
        topic_props_def Let_def split_beta prod_eq_iff)
  obtain fs where "trace p' = trace ?u @ fs"
    using send_frame [of env topic msg ?props ?u] send by auto
  from published_after [OF _ _ this, of p "[Read_clock]"] have "published p p' = published ?u p'" by simp
  then show ?thesis
    using run_send_publishes [of topic ?u env msg ?props] sent_means [of env topic msg ?props ?u] send by auto
qed

lemma dispatch_found:
  "find (\<lambda>e. matches_key env (fst e) routing) es = Some (k, f) \<Longrightarrow>
    dispatch call env es routing msg p = call (CB_TOPIC f routing msg (sender p) (trans p))"
  by (induction es) (auto split: if_splits)

lemma called_reacting: "called (trace (state_after (reacting env react c) s)) = called (trace s) @ [c]"
proof -
  let ?s = "s\<lparr>trace := trace s @ [Called c]\<rparr>"
  have "along uncalled (for_each (react (trace ?s) c) (perform env))"
    by (intro uncalled_intros uncalled_perform)
  from uncalled_called [OF alongD [OF this], of ?s] show ?thesis by (simp add: run_reacting)
qed

text \<open>The key of a binding that the client has requested is a registered one.\<close>

lemma bound_key_registered:
  assumes "topic_service env own s" "(q, x, b) \<in> session_bindings (trace s)" "bytes b = Some k"
  shows "map_of (routing_key_callbacks s) k \<noteq> None"
proof -
  let ?keys = "set (bound_routing_keys_share s) \<union> set (bound_routing_keys_self s)"
  have "(q, x, b) \<in> expected_bindings env s" using assms(1,2) by (auto simp: topic_service_def bound_def)
  moreover have "exchange_type s = topictype" using assms(1) by (simp add: topic_service_def)
  ultimately obtain k' where k': "k' \<in> ?keys" "b = cbytes env k'"
    by (auto simp: expected_bindings_def)
  moreover from this have "no_nul k'" "cstring_bytes_doc (cstring_bytes env)"
    using assms(1) by (auto simp: topic_service_def names_ok_def list_all_iff)
  ultimately have "k' = k" using assms(3) by (simp add: cbytes_def cstring_bytes_doc_def)
  then have "k \<in> dom (map_of (routing_key_callbacks s))"
    using k'(1) assms(1) by (simp add: topic_service_def records_full_def)
  then show ?thesis by blast
qed

lemma registered_key_called:
  assumes "map_ok (routing_key_callbacks s)" "exchange_type s = topictype"
    and "map_of (routing_key_callbacks s) k \<noteq> None" "matches_key env k routing"
    and "run_state (handle_message (reacting env react) env routing msg p) s = (out, t)"
  shows "out = Inr () \<and> (\<exists>k' f. map_of (routing_key_callbacks s) k' = Some f \<and>
    matches_key env k' routing \<and>
    called (trace t) = called (trace s) @ [CB_TOPIC f routing msg (sender p) (trans p)])"
proof (cases "find (\<lambda>e. matches_key env (fst e) routing) (routing_key_callbacks s)")
  case None
  then show ?thesis
    using std_map.no_match [OF assms(1), where P = "\<lambda>k. matches_key env k routing"] assms(3,4) by auto
next
  case (Some e)
  then obtain k' f where e: "e = (k', f)" by (cases e)
  have "map_of (routing_key_callbacks s) k' = Some f \<and> matches_key env k' routing"
    using std_map.first_match [OF assms(1), where P = "\<lambda>k. matches_key env k routing"] Some e by auto
  then show ?thesis
    using assms(2,5) Some e
    by (auto simp: handle_message_def topicHandleMessage_def dispatch_found called_reacting split_beta)
qed

section \<open>Properties of a topic client in service\<close>

text \<open>
  C9: A topic client that was constructed and initialized keeps its subscriptions in step, however often it
  reconnects and whatever its user and the functions it calls subscribe and unsubscribe, in every run of
  whole calls and rounds, provided each topic is a C string subscribed in one way only
  (\<open>well_used\<close>) and the broker accepts the bindings and their removals that the client requests
  (hypothesis \<open>binds_accepted\<close>; the code does not look at the answers). Of the bindings that
  the client's own requests make, the broker never has one that is not recorded; it has them all unless the
  log shows that the last attempt to connect has failed; and the registered callbacks are those of the
  recorded keys.
\<close>

theorem subscriptions_survive_service:
  assumes "cstring_bytes_doc (cstring_bytes env)" and "no_nul module"
    and "client_start topictype env module (client start)"
    and "system_run (reacting env react) env start cs sys"
    and "list_all (well_used own) cs" and "\<And>h c. list_all (well_used own) (react h c)"
    and "binds_accepted accepts (trace (client sys))"
  shows "broker_bindings accepts (trace (client sys)) \<subseteq> expected_bindings env (client sys) \<and>
    (connect_failed (trace (client sys)) \<or>
      broker_bindings accepts (trace (client sys)) = expected_bindings env (client sys)) \<and>
    dom (map_of (routing_key_callbacks (client sys))) =
      set (bound_routing_keys_share (client sys)) \<union> set (bound_routing_keys_self (client sys)) \<and>
    set (bound_routing_keys_share (client sys)) \<inter> set (bound_routing_keys_self (client sys)) = {}"
  using run_topic_service [OF assms(1-6)]
  by (simp add: topic_service_def bound_def in_step_def records_full_def broker_bindings_accepted [OF assms(7)])

lemma sample_topic_run:
  obtains start sys where "client_start topictype sample_env ''module'' (client start)"
    and "system_run (reacting sample_env answer_requests) sample_env start [Subscribe_topic ''a.*'' 7 NULL] sys"
    and "(cbytes sample_env (queue_name (client start)), cbytes sample_env (exchange_name (client start)),
      plain_cstring_bytes ''a.*'') \<in> session_bindings (trace (client sys))"
proof -
  obtain t where start: "client_start topictype sample_env ''module'' t"
    using sample_start [of topictype] by auto
  let ?start = "\<lparr>client = t, recv_at = Thread_restart, send_at = Some 0, timer_on = True\<rparr>"
  let ?c = "Subscribe_topic ''a.*'' 7 NULL"
  let ?sys = "?start\<lparr>client := state_after (perform sample_env ?c) t\<rparr>"
  have "system_run (reacting sample_env answer_requests) sample_env ?start ([] @ [?c])
      (?start\<lparr>client := state_after (perform sample_env ?c) (client ?start)\<rparr>)"
    by (rule system_run.Call [OF system_run.Start]) simp
  moreover have "exchange_type t = topictype"
    using started_client(3) [OF start] by simp
  then have "(cbytes sample_env (queue_name t), cbytes sample_env (exchange_name t),
      plain_cstring_bytes ''a.*'') \<in> session_bindings (trace (client ?sys))"
    by (simp add: ignore_def split_beta run_subscribe session_bindings_append bind_step_events cbytes_def)
  ultimately show thesis using that [of ?start ?sys] start by simp
qed

lemma answer_requests_well_used: "list_all (well_used own) (answer_requests h c)"
  by (cases "(h, c)" rule: answer_requests.cases) (simp_all add: well_used_def)

theorem subscriptions_survive_service_witness:
  "\<exists>sys :: client_system. broker_bindings (\<lambda>_ _. True) (trace (client sys)) \<noteq> {} \<and>
    broker_bindings (\<lambda>_ _. True) (trace (client sys)) \<subseteq> expected_bindings sample_env (client sys)"
proof -
  obtain start sys where run: "client_start topictype sample_env ''module'' (client start)"
    "system_run (reacting sample_env answer_requests) sample_env start [Subscribe_topic ''a.*'' 7 NULL] sys"
    "(cbytes sample_env (queue_name (client start)), cbytes sample_env (exchange_name (client start)),
      plain_cstring_bytes ''a.*'') \<in> session_bindings (trace (client sys))"
    by (rule sample_topic_run)
  have all: "binds_accepted (\<lambda>_ _. True) (trace (client sys))" by (simp add: binds_accepted_def)
  have "broker_bindings (\<lambda>_ _. True) (trace (client sys)) \<subseteq> expected_bindings sample_env (client sys)"
    by (rule conjunct1 [OF subscriptions_survive_service [OF _ _ run(1,2) _ _ all, of "{}"]])
      (simp_all add: plain_cstring_bytes_doc answer_requests_well_used, simp add: well_used_def)
  then show ?thesis
    using run(3) broker_bindings_accepted [OF all] by (intro exI [of _ sys]) auto
qed

text \<open>
  C8: From publisher to subscriber. Take a topic client in service, in whose run of whole calls and rounds
  the user and the user's functions subscribe each topic, a C string, in one way only
  (\<open>well_used\<close>), and a broker that accepts the bindings and removals it requests
  (\<open>binds_accepted\<close>). A publication that was accepted, of C strings that fit into a
  message and under a topic of one line without empty words, has published exactly one message. If the
  broker routes it to the client by one of the client's bindings, a plain pattern each of whose hashes
  stands for at least one word, then the client, when it receives it, calls exactly one function: one
  registered for a pattern that matches the topic, with the topic, the message, the publisher's module name
  and the transparent data, or its default text.
\<close>

theorem publication_reaches_subscriber:
  assumes "cstring_bytes_doc (cstring_bytes env)" and "no_nul module"
    and "client_start topictype env module (client start)"
    and "system_run (reacting env react) env start cs sys"
    and "list_all (well_used own) cs" and "\<And>h c. list_all (well_used own) (react h c)"
    and "binds_accepted accepts (trace (client sys))"
    and "(q, x, b) \<in> broker_bindings accepts (trace (client sys))" and "bytes b = Some k"
    and "cstring_bytes_doc (cstring_bytes env')" and "exchange_type p = topictype"
    and "storable (m_module_name p)" and "storable topic" and "storable msg" and "storable transinfo"
    and "run_state (publishTopicMsg env' msg topic transinfo) p = (Inr True, p')"
    and "topic_pattern k" and "topic_match 1 (words k) (words topic)"
    and "list_all (\<lambda>w. w \<noteq> []) (words topic)" and "list_all any_char topic"
  shows "\<exists>e. published p p' = [e] \<and> (\<forall>envelope out t. carries e envelope \<and>
      run_state (receive_message (reacting env react) env envelope) (client sys) = (out, t) \<longrightarrow>
    out = Inr () \<and> (\<exists>k' f. map_of (routing_key_callbacks (client sys)) k' = Some f \<and>
      matches_key env k' topic \<and> called (trace t) = called (trace (client sys)) @
        [CB_TOPIC f topic msg (m_module_name p) (if transinfo = [] then ''no transparent'' else transinfo)]))"
proof -
  let ?p = "topic_props (m_module_name p) topic transinfo"
  let ?s = "(client sys)\<lparr>trace := trace (client sys) @ [Library Amqp_destroy_envelope]\<rparr>"
  have serving: "topic_service env own (client sys)"
    by (rule run_topic_service [OF assms(1-6)])
  have binding: "(q, x, b) \<in> session_bindings (trace (client sys))"
    using assms(8) by (simp add: broker_bindings_accepted [OF assms(7)])
  have "MatchRoutingKey k topic = Some True" using assms(17-20) by (rule match_covers)
  then have matches: "matches_key env k topic" by (simp add: matches_key_def)
  obtain u ms where e: "published p p' = [publish_event env' u topic msg (header_props env' (?p ms))]"
    using topic_published [OF assms(11,16)] by blast
  have "out = Inr () \<and> (\<exists>k' f. map_of (routing_key_callbacks (client sys)) k' = Some f \<and>
      matches_key env k' topic \<and> called (trace t) = called (trace (client sys)) @
        [CB_TOPIC f topic msg (m_module_name p) (if transinfo = [] then ''no transparent'' else transinfo)])"
    if carried: "carries (publish_event env' u topic msg (header_props env' (?p ms))) envelope"
      and run: "run_state (receive_message (reacting env react) env envelope) (client sys) = (out, t)"
    for envelope out t
  proof -
    have "storable_props (?p ms)"
      using assms(12,13,15) by (simp add: storable_props_def topic_props_def) (simp add: storable_def)
    then have handle: "run_state (handle_message (reacting env react) env topic msg (?p ms)) ?s = (out, t)"
      using carried_message [OF assms(10,13,14) _ carried] run by simp
    show ?thesis
      using registered_key_called [OF _ _ _ _ handle, of k] matches bound_key_registered [OF serving binding assms(9)] serving
      by (simp add: topic_service_def records_full_def records_ok_def topic_props_def)
  qed
  with e show ?thesis by blast
qed

theorem publication_reaches_subscriber_witness:
  "\<exists>(sys :: client_system) envelope f. called (trace (state_after (receive_message (reacting sample_env answer_requests) sample_env
      envelope) (client sys))) =
    called (trace (client sys)) @ [CB_TOPIC f ''a.b'' ''hello'' ''module'' ''no transparent'']"
proof -
  let ?p = "sample_client topictype"
  obtain start sys b where run: "client_start topictype sample_env ''module'' (client start)"
    "system_run (reacting sample_env answer_requests) sample_env start [Subscribe_topic ''a.*'' 7 NULL] sys"
    "(cbytes sample_env (queue_name (client start)), cbytes sample_env (exchange_name (client start)), b)
      \<in> session_bindings (trace (client sys))" "bytes b = Some ''a.*''"
    by (rule sample_topic_run) (auto simp: plain_cstring_bytes_def)
  obtain p' where publish: "run_state (publishTopicMsg sample_env ''hello'' ''a.b'' []) ?p = (Inr True, p')"
    by (simp add: publishTopicMsg_def header_properties_ok run_timestamp Let_def run_send)
  obtain u ms where e: "published ?p p' = [publish_event sample_env u ''a.b'' ''hello''
      (header_props sample_env (topic_props (m_module_name ?p) ''a.b'' [] ms))]"
    using topic_published [OF _ publish] by auto
  obtain envelope where envelope: "carries (publish_event sample_env u ''a.b'' ''hello''
      (header_props sample_env (topic_props (m_module_name ?p) ''a.b'' [] ms))) envelope"
    using envelope_exists by blast
  obtain out t where received: "run_state (receive_message (reacting sample_env answer_requests) sample_env envelope)
      (client sys) = (out, t)" by fastforce
  have all: "binds_accepted (\<lambda>_ _. True) (trace (client sys))" by (simp add: binds_accepted_def)
  have binding: "(cbytes sample_env (queue_name (client start)), cbytes sample_env (exchange_name (client start)), b)
      \<in> broker_bindings (\<lambda>_ _. True) (trace (client sys))"
    using run(3) broker_bindings_accepted [OF all] by simp
  obtain f where "called (trace t) = called (trace (client sys)) @
      [CB_TOPIC f ''a.b'' ''hello'' ''module'' ''no transparent'']"
    using publication_reaches_subscriber [OF _ _ run(1,2) _ answer_requests_well_used all binding run(4) _ _ _ _ _ _
        publish, of "{}"] e envelope received
    by (auto simp: plain_cstring_bytes_doc well_used_def storable_def topic_pattern_def word_ok_def ordinary_def
        special_chars_def any_char_def) blast
  then show ?thesis by (intro exI [of _ sys] exI [of _ envelope] exI [of _ f]) (simp only: received snd_conv)
qed

end
