(* ===== verification/Causes.thy ===== *)
theory Causes
  imports Conversation
begin

section \<open>Where the calls of the callbacks come from\<close>

text \<open>
  A network of point-to-point clients, each in service with its own user, surroundings and functions
  that call back. What a client publishes comes from a call that its user or its functions made; what
  a callback is called with comes from a published message. The first is shown of every run, the
  second of clients whose broker delivers only what members of the network have published.
\<close>

subsection \<open>Calls, messages, callbacks\<close>

text \<open>The message that a call publishes: its properties, routing key and body.\<close>

fun sent_by :: "api_call \<Rightarrow> int_props_st \<Rightarrow> string \<Rightarrow> string \<Rightarrow> bool" where
  "sent_by (Request (Some m) (Some n) a (Some b) r t) p k msg =
     (k = m \<and> msg = b \<and> receiver p = m \<and> msgtype p = RB_REQUEST \<and> msgname p = n \<and> inarg p = a)"
| "sent_by (Notification (Some m) (Some n) a (Some b) r t) p k msg =
     (k = m \<and> msg = b \<and> receiver p = m \<and> msgtype p = RB_NOTIFICATION \<and> msgname p = n \<and> inarg p = a)"
| "sent_by (Report (Some m) (Some n) (Some b)) p k msg =
     (k = m \<and> msg = b \<and> receiver p = m \<and> msgtype p = RB_REPORT \<and> msgname p = n)"
| "sent_by (Temp_response (Some m) i (Some c) (Some d) (Some b)) p k msg =
     (k = m \<and> msg = b \<and> receiver p = m \<and> msgtype p = RB_TEMPORARY_RESPONSE \<and> rid p = i \<and>
      rspcode p = c \<and> rspdesc p = d)"
| "sent_by (Final_response (Some m) i (Some c) (Some d) (Some b)) p k msg =
     (k = m \<and> msg = b \<and> receiver p = m \<and> msgtype p = RB_FINAL_RESPONSE \<and> rid p = i \<and>
      rspcode p = c \<and> rspdesc p = d)"
| "sent_by a p k msg = False"

text \<open>
  The call of a callback that a received message causes. For responses the receiver, name and argument
  are those of the request, so the message does not tell them.
\<close>

fun tells :: "int_props_st \<Rightarrow> string \<Rightarrow> callback_call \<Rightarrow> bool" where
  "tells p msg (CB_REQUEST f srv src n i b a) \<longleftrightarrow> msgtype p = RB_REQUEST \<and>
     src = sender p \<and> n = msgname p \<and> i = rid p \<and> b = msg \<and> a = inarg p"
| "tells p msg (CB_NOTIFY f srv src n b) \<longleftrightarrow> msgtype p = RB_NOTIFICATION \<and>
     src = sender p \<and> n = msgname p \<and> b = msg"
| "tells p msg (CB_REPORT f srv src n b) \<longleftrightarrow> msgtype p = RB_REPORT \<and>
     src = sender p \<and> n = msgname p \<and> b = msg"
| "tells p msg (CB_RESP_TEMP f srv dst n i c d b a) \<longleftrightarrow> msgtype p = RB_TEMPORARY_RESPONSE \<and>
     i = rid p \<and> c = rspcode p \<and> d = rspdesc p \<and> b = msg"
| "tells p msg (CB_RESP_FINAL f srv dst n i c d b a) \<longleftrightarrow> msgtype p = RB_FINAL_RESPONSE \<and>
     i = rid p \<and> c = rspcode p \<and> d = rspdesc p \<and> b = msg"
| "tells p msg c \<longleftrightarrow> False"

text \<open>The callbacks of a point-to-point client that a message causes: all but the timeouts.\<close>

definition from_message :: "callback_call \<Rightarrow> bool" where
  "from_message c \<longleftrightarrow> \<not> is_timeout c \<and> (case c of CB_TOPIC f k msg src tr \<Rightarrow> False | _ \<Rightarrow> True)"

lemma from_message_simps [simp]:
  "\<not> from_message (CB_TOPIC f k msg src tr)" "\<not> from_message (CB_REQUEST_TIMEOUT f srv dst n i a)"
  "\<not> from_message (CB_NOTIFY_TIMEOUT f srv dst n i a)"
  by (simp_all add: from_message_def)

text \<open>Arguments that are C strings.\<close>

definition storable_ptr :: "string pointer \<Rightarrow> bool" where
  "storable_ptr x \<longleftrightarrow> (case x of NULL \<Rightarrow> True | Some s \<Rightarrow> storable s)"

lemma storable_ptr_simps [simp]: "storable_ptr NULL" "storable_ptr (Some s) = storable s"
  by (simp_all add: storable_ptr_def)

fun storable_call :: "api_call \<Rightarrow> bool" where
  "storable_call (Request m n a b r t) = list_all storable_ptr [m, n, b]"
| "storable_call (Notification m n a b r t) = list_all storable_ptr [m, n, b]"
| "storable_call (Report m n b) = list_all storable_ptr [m, n, b]"
| "storable_call (Temp_response m i c d b) = list_all storable_ptr [m, c, d, b]"
| "storable_call (Final_response m i c d b) = list_all storable_ptr [m, c, d, b]"
| "storable_call a = True"

text \<open>The acknowledgments that the client sends itself, for notifications.\<close>

definition acknowledgments :: "api_call set" where
  "acknowledgments =
     {Final_response (Some m) i (Some ''200'') (Some ''Auto Rsp Ok'') (Some ''{}'') | m i. no_nul m}"

subsection \<open>Operations that add only such events\<close>

text \<open>
  Messages that have a cause among the calls \<open>A\<close> of a client with the name \<open>w\<close>, and its
  acknowledgments.
\<close>

definition caused :: "environment \<Rightarrow> string \<Rightarrow> api_call set \<Rightarrow> event \<Rightarrow> bool" where
  "caused env w A e \<longleftrightarrow> (\<exists>a\<in>A \<union> acknowledgments. \<exists>u p k b. e = publish_event env u k b (header_props env p) \<and>
     sender p = w \<and> sent_by a p k b \<and> no_nul k \<and> (storable k \<longrightarrow> storable b \<and> storable_props p))"

definition good :: "(event \<Rightarrow> bool) \<Rightarrow> (callback_call \<Rightarrow> bool) \<Rightarrow> event \<Rightarrow> bool" where
  "good P C e \<longleftrightarrow> (case e of Called c \<Rightarrow> from_message c \<longrightarrow> C c | _ \<Rightarrow> is_publish e \<longrightarrow> P e)"

definition named :: "string \<Rightarrow> RabbitMQWrapper \<Rightarrow> bool" where
  "named w s \<longleftrightarrow> p2p_client s \<and> m_module_name s = w \<and> storable w"

definition honest ::
  "string \<Rightarrow> (event \<Rightarrow> bool) \<Rightarrow> (callback_call \<Rightarrow> bool) \<Rightarrow> RabbitMQWrapper \<Rightarrow> RabbitMQWrapper \<Rightarrow> bool" where
  "honest w P C s t \<longleftrightarrow> (named w s \<longrightarrow>
     named w t \<and> (\<exists>es. trace t = trace s @ es \<and> list_all (good P C) es))"

lemma honest_events:
  "named w t = named w s \<Longrightarrow> trace t = trace s @ es \<Longrightarrow> list_all (good P C) es \<Longrightarrow> honest w P C s t"
  by (auto simp: honest_def)

definition plain_event :: "event \<Rightarrow> bool" where
  "plain_event e \<longleftrightarrow> (case e of Called c \<Rightarrow> \<not> from_message c | _ \<Rightarrow> \<not> is_publish e)"

lemma plain_good: "plain_event e \<Longrightarrow> good P C e"
  by (cases e) (simp_all add: plain_event_def good_def)

lemma plain_event_simps [simp]:
  "plain_event (Lock m)" "plain_event (Unlock m)" "plain_event (Logged l)" "plain_event Read_clock"
  "plain_event (Printed l)" "plain_event (Slept n)" "plain_event (Started th)" "plain_event (Joined th)"
  "plain_event (Called c) = (\<not> from_message c)" "plain_event (Library lc) = (\<not> is_publish (Library lc))"
  by (simp_all add: plain_event_def is_publish_def)

lemmas named_simps = named_def p2p_client_def

named_theorems honest_intros

interpretation honest: emit_relation "honest w P C" plain_event for w P C
proof unfold_locales
  show "honest w P C s s" for s by (simp add: honest_def)
  show "honest w P C s t \<Longrightarrow> honest w P C t u \<Longrightarrow> honest w P C s u" for s t u
    by (auto simp: honest_def)
  show "plain_event e \<Longrightarrow> honest w P C s (s\<lparr>trace := trace s @ [e]\<rparr>)" for e s
    by (rule honest_events [where es = "[e]"]) (simp_all add: plain_good named_simps)
qed simp_all

declare honest.along_intros [honest_intros] honest.emit_intros [honest_intros]
  honest.along_emit [honest_intros]

lemma honest_locked [honest_intros]: "along (honest w P C) f \<Longrightarrow> along (honest w P C) (locked m f)"
  unfolding locked_def by (intro honest_intros) simp_all

lemma honest_modify [honest_intros]:
  "(\<And>s. named w (f s) = named w s) \<Longrightarrow> (\<And>s. trace (f s) = trace s) \<Longrightarrow> along (honest w P C) (modify f)"
  by (simp add: along_def honest_def)

lemma honest_instance [honest_intros]: "along (honest w P C) (getInstance env p2ptype)"
proof (rule alongI)
  fix s
  have "honest w P C s (entered s)"
    by (rule honest_events [where es = "[Lock instanceMutex, Unlock instanceMutex]"])
      (simp_all add: named_simps plain_good entered_def)
  then show "honest w P C s (state_after (getInstance env p2ptype) s)"
    by (cases "p2p_client s") (simp, simp add: honest_def named_def)
qed

subsection \<open>The operations\<close>

lemma plain_library [simp]:
  "\<not> is_publish (Library Amqp_new_connection)" "\<not> is_publish (Library (Amqp_tcp_socket_new c))"
  "\<not> is_publish (Library (Amqp_socket_open k h p))" "\<not> is_publish (Library (Amqp_login c v m f hb sasl u pw))"
  "\<not> is_publish (Library (Amqp_rpc c ch r))" "\<not> is_publish (Library (Amqp_get_sockfd c))"
  "\<not> is_publish (Library (Amqp_maybe_release_buffers c))" "\<not> is_publish (Library (Amqp_consume_message c))"
  "\<not> is_publish (Library (Amqp_connection_close c r'))" "\<not> is_publish (Library (Amqp_destroy_connection c))"
  by (simp_all add: is_publish_def)

lemma honest_reconnect [honest_intros]: "along (honest w P C) (ReconnectProc env)"
proof -
  have "along (honest w P C) (SetupExchgQueChannel env)"
    unfolding SetupExchgQueChannel_def name_queues_def topicCrtSelfQueName_def amqp_queue_declare_def amqp_queue_bind_def Let_def
    by (intro honest_intros; simp add: named_simps)
  then have "along (honest w P C) (ConnectInit env)"
    unfolding ConnectInit_def by (intro honest_intros; simp add: named_simps)
  then show ?thesis
    unfolding ReconnectProc_def reconnect_locked_def close_connection_def rebind_def amqp_queue_bind_def
    by (intro honest_intros; simp add: named_simps)
qed

lemma honest_rounds [honest_intros]:
  "along (honest w P C) (send_round env cnt)"
  "along (honest w P C) (recv_subscribe env)"
  "along (honest w P C) (read_properties env props)"
  "along (honest w P C) (reconnect_restart env)"
proof -
  show restart: "along (honest w P C) (reconnect_restart env)"
    unfolding reconnect_restart_def by (intro honest_intros)
  show "along (honest w P C) (recv_subscribe env)"
    unfolding recv_subscribe_def recv_consume_def amqp_basic_consume_def
    by (intro honest_intros restart; simp add: named_simps)
  show "along (honest w P C) (send_round env cnt)"
    unfolding send_round_def Let_def by (intro honest_intros; simp add: named_simps)
  show "along (honest w P C) (read_properties env props)"
    unfolding read_properties_def
    by (cases "AmqpTable2IntProps (headers props) (uninit_props env)") (auto intro!: honest_intros)
qed

lemma honest_timers [honest_intros]:
  "along (honest w P C) p2pReqTimerId"
  "along (honest w P C) (p2pAddTimerTask env i k msg interval props)"
  "along (honest w P C) (p2pRemoveTimerTask i)"
  "along (honest w P C) (p2pGetTimerTaskInfo i)"
  "along (honest w P C) (p2pRestartTimerTask env i)"
  unfolding p2pReqTimerId_def p2pAddTimerTask_def p2pRemoveTimerTask_def p2pGetTimerTaskInfo_def
    p2pRestartTimerTask_def
  by (intro honest_intros; simp add: named_simps)+

text \<open>Sending a message that has a cause.\<close>

lemma honest_send:
  assumes "\<And>u. P (publish_event env u k b props)"
  shows "along (honest w P C) (SendRabbitmqMessage env k b (Some props))"
proof (rule alongI)
  fix s
  show "honest w P C s (state_after (SendRabbitmqMessage env k b (Some props)) s)"
  proof (cases "k = '''' \<or> connection s = NULL")
    case True
    then show ?thesis by (auto simp: run_send_refused honest.rel_refl)
  next
    case False
    let ?e = "publish_event env s k b props"
    have "good P C ?e" using assms by (simp add: good_def publish_event_def)
    moreover have "list_all (good P C) (publish_tail r)" for r by (simp add: publish_tail_def plain_good)
    ultimately show ?thesis
      using False
      by (intro honest_events [where es = "Lock conn_mutex # ?e # Library (Amqp_get_rpc_reply (connection s)) #
          publish_tail (last_reply env (publish_history env s k b props))"])
        (simp_all add: run_send Let_def publish_history_def named_simps plain_good)
  qed
qed

text \<open>The calls of the interface.\<close>

lemma honest_after:
  assumes "honest w P C s t" "along (honest w P C) m"
  shows "honest w P C s (state_after m t)"
  using assms by (blast intro: honest.rel_trans alongD)

lemma honest_make_call:
  assumes "a \<in> A \<union> acknowledgments" and "\<And>p. receiver p = m \<Longrightarrow> msgtype p = type \<Longrightarrow> msgname p = n \<Longrightarrow> inarg p = x \<Longrightarrow> sent_by a p m b"
    and "storable w" "storable m" "storable n" "storable b" "listed type"
  shows "along (honest w (caused env w A) C) (make_call env type m n x b r timeout)"
proof (rule alongI)
  fix s
  let ?H = "honest w (caused env w A) C" and ?u = "call_ready env type s m n x b timeout"
  let ?p = "call_props env type s m n x"
  let ?send = "SendRabbitmqMessage env m b (Some (header_props env ?p))"
  show "?H s (state_after (make_call env type m n x b r timeout) s)"
  proof (cases "named w s")
    case True
    then have type: "exchange_type s = p2ptype" and name: "m_module_name s = w" by (simp_all add: named_simps)
    have "sent_by a ?p m b" by (rule assms(2)) (simp_all add: call_props_def)
    moreover have "storable_props ?p"
      using assms(3-7) name by (simp add: storable_props_def call_props_def) (simp add: storable_def)
    moreover have "sender ?p = w" using name by (simp add: call_props_def)
    ultimately have "caused env w A (publish_event env u m b (header_props env ?p))" for u
      using assms(1,4,6) storable_no_nul [OF assms(4)] unfolding caused_def by blast
    then have send: "along ?H ?send" by (rule honest_send)
    have "?H s ?u"
      by (rule honest_events [where es = "[Lock timer_mutex, Unlock timer_mutex, Read_clock, Lock timer_mutex,
          Read_clock, Unlock timer_mutex]"]) (simp_all add: call_ready_def named_simps plain_good)
    then show ?thesis
      using honest_after [OF _ send] honest_after [OF honest_after [OF _ send] honest_timers(3)]
      by (simp add: run_make_call [OF type] Let_def split_beta)
  qed (simp add: honest_def)
qed

lemma honest_send_props:
  assumes "a \<in> A \<union> acknowledgments" "sent_by a p k b" "sender p = w" "no_nul k" "storable k \<Longrightarrow> storable b \<and> storable_props p"
  shows "along (honest w (caused env w A) C) (send_props env k b p)"
proof -
  have "caused env w A (publish_event env u k b (header_props env p))" for u
    using assms unfolding caused_def by blast
  note send = honest_send [where P = "caused env w A", OF this]
  show ?thesis
    unfolding send_props_def rm_properties_ok header_props_def [symmetric] sum.case
    by (intro honest_intros send)
qed

text \<open>Sending under the client's name, after \<open>getInstance\<close> and the reading of the clock.\<close>

lemma honest_named_send:
  assumes "\<And>ms. along (honest w P C) (f w ms)"
  shows "along (honest w P C) (on_ok (getInstance env p2ptype) (\<lambda>_. do {
    name \<leftarrow> GetModuleName; ms \<leftarrow> timestamp_ms env; f name ms }))"
proof (rule alongI)
  fix s
  show "honest w P C s (state_after (on_ok (getInstance env p2ptype) (\<lambda>_. do {
    name \<leftarrow> GetModuleName; ms \<leftarrow> timestamp_ms env; f name ms })) s)"
  proof (cases "named w s")
    case True
    let ?u = "(entered s)\<lparr>trace := trace (entered s) @ [Read_clock]\<rparr>"
    have "honest w P C s ?u"
      by (rule honest_events [where es = "[Lock instanceMutex, Unlock instanceMutex, Read_clock]"])
        (simp_all add: named_simps plain_good)
    from honest_after [OF this assms] show ?thesis
      using True by (simp add: named_simps GetModuleName_def run_timestamp entered_def getInstance_set split_beta)
  qed (simp add: honest_def)
qed

lemma honest_ignore: "along (honest w P C) m \<Longrightarrow> along (honest w P C) (ignore m)"
  unfolding ignore_def by (intro honest_intros)

text \<open>The calls for topics and broadcasts do nothing on a point-to-point client.\<close>

lemma honest_no_change: "(\<And>s. named w s \<Longrightarrow> state_after m s = s) \<Longrightarrow> along (honest w P C) m"
  unfolding along_def honest_def by simp

lemma honest_other_types:
  "along (honest w P C) (publishTopicMsg env msg topic transinfo)"
  "along (honest w P C) (publishFanoutMsg env msg)"
  "along (honest w P C) (subscribleTopicMsg env topic f inst)"
  "along (honest w P C) (unSubscribleTopicMsg env topic)"
  by (intro honest_no_change; simp add: named_simps publishTopicMsg_def publishFanoutMsg_def
      run_subscribe_refused run_unsubscribe_refused)+

text \<open>A call with three pointers does nothing if one of them is \<open>NULL\<close>.\<close>

lemma honest_args:
  assumes "\<And>x y z. p = Some x \<Longrightarrow> q = Some y \<Longrightarrow> r = Some z \<Longrightarrow>
      along (honest w P C) (on_ok (getInstance env p2ptype) (\<lambda>_. f x y z))"
  shows "along (honest w P C) (on_ok (getInstance env p2ptype) (\<lambda>_.
    case (p, q, r) of (Some x, Some y, Some z) \<Rightarrow> f x y z | _ \<Rightarrow> ret e))"
  using assms by (cases p; cases q; cases r) (auto intro!: honest_intros)

lemma honest_call:
  assumes "a \<in> A \<union> acknowledgments" "storable w" "list_all storable_ptr [m, n, b]"
    and "\<And>m' n' b' p. m = Some m' \<Longrightarrow> n = Some n' \<Longrightarrow> b = Some b' \<Longrightarrow> receiver p = m' \<Longrightarrow>
      msgtype p = type \<Longrightarrow> msgname p = n' \<Longrightarrow> inarg p = x \<Longrightarrow> sent_by a p m' b'" and "listed type"
  shows "along (honest w (caused env w A) C) (on_ok (getInstance env p2ptype) (\<lambda>_.
    case (m, n, b) of (Some m, Some n, Some b) \<Rightarrow> make_call env type m n x b r timeout | _ \<Rightarrow> ret (Inr (- 1, None))))"
proof (rule honest_args)
  fix m' n' b'
  assume args: "m = Some m'" "n = Some n'" "b = Some b'"
  then show "along (honest w (caused env w A) C) (on_ok (getInstance env p2ptype) (\<lambda>_. make_call env type m' n' x b' r timeout))"
    using assms(3) honest_make_call [OF assms(1) assms(4) [OF args] assms(2) _ _ _ assms(5)]
    by (intro honest_intros) simp
qed

lemma honest_report:
  assumes "Report m n b \<in> A \<union> acknowledgments" "storable w" "list_all storable_ptr [m, n, b]"
  shows "along (honest w (caused env w A) C) (rmReportMake env m n b)"
  unfolding rmReportMake_def
proof (rule honest_args, rule honest_named_send)
  fix m' n' b' ms
  assume args: "m = Some m'" "n = Some n'" "b = Some b'"
  show "along (honest w (caused env w A) C) (send_props env m' b'
    \<lparr>sender = w, receiver = m', msgtype = RB_REPORT, msgname = n', rid = - 1, inarg = 0, timestamp = ms,
     rspcode = ''no code'', rspdesc = ''no description'', trans = ''no transparent''\<rparr>)"
    using assms(2,3) args
    by (intro honest_send_props [OF assms(1)]) (simp_all add: storable_props_def, simp_all add: storable_def)
qed

text \<open>A response; the acknowledgment of a notification is sent to whatever name the notification had.\<close>

lemma honest_response_props:
  assumes "a \<in> A \<union> acknowledgments" "storable w" "no_nul m" "storable c" "storable d" "storable b" "storable n" "listed type"
    and "sent_by a \<lparr>sender = w, receiver = m, msgtype = type, msgname = n, rid = i, inarg = 0, timestamp = ms,
      rspcode = c, rspdesc = d, trans = ''no transparent''\<rparr> m b"
  shows "along (honest w (caused env w A) C) (send_props env m b
    \<lparr>sender = w, receiver = m, msgtype = type, msgname = n, rid = i, inarg = 0, timestamp = ms,
     rspcode = c, rspdesc = d, trans = ''no transparent''\<rparr>)"
  using assms by (intro honest_send_props [OF assms(1,9)]) (simp_all add: storable_props_def, simp_all add: storable_def)

lemma honest_temp:
  assumes "Temp_response m i c d b \<in> A \<union> acknowledgments" "storable w" "list_all storable_ptr [m, c, d, b]"
  shows "along (honest w (caused env w A) C) (rmRequestTempResponse env m i c d b)"
  unfolding rmRequestTempResponse_def
proof (rule honest_args, rule honest_named_send)
  fix c' b' m' ms
  assume args: "c = Some c'" "b = Some b'" "m = Some m'"
  show "along (honest w (caused env w A) C) (case d of NULL \<Rightarrow> ret (Inl String_from_null)
    | Some d \<Rightarrow> send_props env m' b'
        \<lparr>sender = w, receiver = m', msgtype = RB_TEMPORARY_RESPONSE, msgname = ''temprsp'', rid = i, inarg = 0,
         timestamp = ms, rspcode = c', rspdesc = d, trans = ''no transparent''\<rparr>)"
    using assms(2,3) args
    by (cases d) (auto intro: honest.along_return intro!: honest_response_props [OF assms(1)], simp_all add: storable_def)
qed

lemma honest_final:
  assumes "Final_response (Some m) i (Some c) (Some d) (Some b) \<in> A \<union> acknowledgments" "storable w" "no_nul m" "storable c" "storable d"
    "storable b"
  shows "along (honest w (caused env w A) C) (rmRequestFinalResponse env (Some m) i (Some c) (Some d) (Some b))"
  unfolding rmRequestFinalResponse_def prod.case option.case
  using assms by (intro honest_named_send honest_response_props [OF assms(1)]) (simp_all add: storable_def)

lemma honest_final_pointers:
  assumes "Final_response m i c d b \<in> A \<union> acknowledgments" "storable w" "list_all storable_ptr [m, c, d, b]"
  shows "along (honest w (caused env w A) C) (rmRequestFinalResponse env m i c d b)"
proof (cases "m = NULL \<or> c = NULL \<or> b = NULL \<or> d = NULL")
  case True
  then show ?thesis
    unfolding rmRequestFinalResponse_def GetModuleName_def
    by (intro honest_args) (auto intro!: honest_intros)
next
  case False
  then obtain m' c' d' b' where "m = Some m'" "c = Some c'" "d = Some d'" "b = Some b'"
    by (metis option.exhaust)
  then show ?thesis using assms honest_final [of m' i c' d' b' A w env C] by simp
qed

lemma honest_set_handler: "along (honest w P C) (rmSetMidMsgHandler env pfn)"
  unfolding rmSetMidMsgHandler_def p2pSetCallback_def by (intro honest_intros; simp add: named_simps)

lemma honest_calls:
  "Request m n x b r timeout \<in> A \<union> acknowledgments \<Longrightarrow> storable w \<Longrightarrow> list_all storable_ptr [m, n, b] \<Longrightarrow>
    along (honest w (caused env w A) C) (rmRequestMake env m n x b r timeout)"
  "Notification m n x b r timeout \<in> A \<union> acknowledgments \<Longrightarrow> storable w \<Longrightarrow> list_all storable_ptr [m, n, b] \<Longrightarrow>
    along (honest w (caused env w A) C) (rmNotifyMake env m n x b r timeout)"
  unfolding rmRequestMake_def rmNotifyMake_def by (rule honest_call, assumption; simp)+

lemma honest_storable: "(storable w \<Longrightarrow> along (honest w P C) m) \<Longrightarrow> along (honest w P C) m"
  by (cases "storable w") (simp_all add: along_def honest_def named_def)

lemma honest_perform:
  assumes "a \<in> A" "storable_call a"
  shows "along (honest w (caused env w A) C) (perform env a)"
proof (rule honest_storable)
  assume "storable w"
  then show "along (honest w (caused env w A) C) (perform env a)"
    using assms
    by (cases a) (auto intro!: honest_ignore honest_calls honest_other_types honest_report honest_temp
        honest_final_pointers honest_set_handler)
qed

lemma honest_reacting:
  assumes "\<And>h a. a \<in> set (react h c) \<Longrightarrow> a \<in> A \<and> storable_call a" "from_message c \<Longrightarrow> C c"
  shows "along (honest w (caused env w A) C) (reacting env react c)"
proof (rule alongI)
  fix s :: RabbitMQWrapper
  let ?s = "s\<lparr>trace := trace s @ [Called c]\<rparr>" and ?H = "honest w (caused env w A) C"
  have "along ?H (for_each calls (perform env))" if "\<And>a. a \<in> set calls \<Longrightarrow> a \<in> A \<and> storable_call a" for calls
    using that by (induction calls) (auto intro!: honest_intros honest_perform)
  moreover have "?H s ?s"
    by (rule honest_events [where es = "[Called c]"]) (use assms(2) in \<open>simp_all add: named_simps good_def\<close>)
  ultimately show "?H s (state_after (reacting env react c) s)"
    using assms(1) by (simp add: run_reacting honest_after)
qed

subsection \<open>A received message\<close>

text \<open>A client whose user makes and whose functions react with calls in \<open>A\<close>; \<open>C\<close> may be called.\<close>

locale honest_user =
  fixes env :: environment and w :: string and A :: "api_call set" and C :: "callback_call \<Rightarrow> bool"
    and call :: "callback_call \<Rightarrow> unit op"
  assumes along_call: "(from_message c \<Longrightarrow> C c) \<Longrightarrow> along (honest w (caused env w A) C) (call c)"
begin

abbreviation ok :: "RabbitMQWrapper \<Rightarrow> RabbitMQWrapper \<Rightarrow> bool" where
  "ok \<equiv> honest w (caused env w A) C"

lemma along_acknowledge:
  "along ok (rmRequestFinalResponse env (Some (c_str m)) i (Some ''200'') (Some ''Auto Rsp Ok'') (Some ''{}''))"
proof (rule honest_storable)
  assume name: "storable w"
  have "Final_response (Some (c_str m)) i (Some ''200'') (Some ''Auto Rsp Ok'') (Some ''{}'') \<in> A \<union> acknowledgments"
    by (auto simp: acknowledgments_def)
  then show "along ok (rmRequestFinalResponse env (Some (c_str m)) i (Some ''200'') (Some ''Auto Rsp Ok'') (Some ''{}''))"
    by (rule honest_final) (simp_all add: name, simp_all add: storable_def)
qed

text \<open>
  The callbacks get what the message tells, as C strings, so exactly if it has been made of C strings.
\<close>

lemma along_handle:
  assumes "\<And>c. from_message c \<Longrightarrow> (storable_props p \<Longrightarrow> storable msg \<Longrightarrow> tells p msg c) \<Longrightarrow> C c"
  shows "along ok (p2pHandleMessage call env routing msg p)"
proof -
  have told: "along ok (call c)" if "storable_props p \<Longrightarrow> storable msg \<Longrightarrow> tells p msg c" for c
    using that assms by (intro along_call) blast
  have final: "along ok (final_response call f p msg info)" if "msgtype p = RB_FINAL_RESPONSE" for f info
    unfolding final_response_def
    by (intro honest_intros told) (simp add: that storable_props_def)
  show ?thesis
    unfolding p2pHandleMessage_def Let_def
    by (intro honest.along_bind honest.along_get)
      (auto split: message_type_t.splits option.splits
        intro!: honest_intros along_acknowledge final told simp: storable_props_def)
qed

lemma along_handle_message:
  assumes "\<And>c. from_message c \<Longrightarrow> (storable_props p \<Longrightarrow> storable msg \<Longrightarrow> tells p msg c) \<Longrightarrow> C c"
  shows "along ok (handle_message call env routing msg p)"
proof -
  have "along ok (dispatch call env es routing msg p)" for es
    by (induction es) (auto intro!: honest_intros along_call)
  then show ?thesis
    unfolding handle_message_def topicHandleMessage_def fanoutHandleMessage_def
    by (intro honest_intros along_handle assms) simp_all
qed

text \<open>A message with anything in it: the callbacks may get whatever it says.\<close>

lemma along_any_message:
  assumes "\<And>c. C c"
  shows "along ok (receive_message call env envelope)"
  unfolding receive_message_def
  by (intro honest_intros along_handle_message assms) (simp add: is_publish_def)

lemma along_timer: "along ok (timer_step call env)"
proof -
  have proc: "along ok (p2pTimeoutProc call task)" for task
    unfolding p2pTimeoutProc_def Let_def
    by (auto split: message_type_t.splits option.splits intro!: honest_intros along_call)
  have "along ok (expire_loop call ids past todo)" for ids past todo
    by (induction todo arbitrary: past) (auto intro!: honest_intros proc simp: named_simps)
  then show ?thesis
    unfolding timer_step_def timer_round_def Let_def by (intro honest_intros; simp)
qed

end

text \<open>Such a client, and what its broker hands over may be received.\<close>

locale honest_service = honest_user +
  assumes heard: "consumed env h = (r, envelope) \<Longrightarrow> reply_type r = AMQP_RESPONSE_NORMAL \<Longrightarrow>
    along ok (receive_message call env envelope)"
begin

lemma along_reply: "consumed env h = (r, envelope) \<Longrightarrow> along ok (recv_reply call env r envelope)"
  unfolding recv_reply_def by (cases "reply_type r = AMQP_RESPONSE_NORMAL") (auto intro!: honest_intros heard)

lemma along_round: "along ok (recv_round call env)"
proof -
  have take: "along ok (ask (Amqp_consume_message c) (consumed env) \<bind> (\<lambda>(r, envelope). do {
      emit (Unlock conn_mutex); recv_reply call env r envelope }))" for c
  proof (rule alongI)
    fix s :: RabbitMQWrapper
    let ?h = "trace s @ [Library (Amqp_consume_message c)]"
    obtain r envelope where heard: "consumed env ?h = (r, envelope)" by fastforce
    have "ok s (s\<lparr>trace := ?h @ [Unlock conn_mutex]\<rparr>)"
      by (rule honest_events [where es = "[Library (Amqp_consume_message c), Unlock conn_mutex]"])
        (simp_all add: named_simps plain_good)
    from honest_after [OF this along_reply [OF heard]]
    show "ok s (state_after (ask (Amqp_consume_message c) (consumed env) \<bind> (\<lambda>(r, envelope). do {
        emit (Unlock conn_mutex); recv_reply call env r envelope })) s)"
      using heard by simp
  qed
  show ?thesis
    unfolding recv_round_def
  proof (rule honest.along_bind [OF honest.along_get], rule honest.along_if [OF honest.along_return],
      rule honest.along_bind, goal_cases)
    case 1
    show ?case by (intro honest_intros) simp
  next
    case 2
    show ?case
    proof (rule honest.along_bind, goal_cases)
      case 1
      show ?case by (intro honest_intros) simp
    next
      case 2
      show ?case by (rule honest.along_if [OF _ take]) (intro honest_intros; simp)
    qed
  qed
qed

lemma along_recv_step: "along ok (recv_step call env pc)"
  by (cases pc) (auto simp: recv_step_def intro!: honest_intros along_round)

lemma along_run:
  assumes "system_run call env start cs sys" and "\<And>a. a \<in> set cs \<Longrightarrow> a \<in> A \<and> storable_call a"
  shows "ok (client start) (client sys)"
  using assms
proof induction
  case Start
  show ?case by (rule honest.rel_refl)
next
  case (Call cs sys c)
  then show ?case by (auto intro: honest_after honest_perform)
next
  case (Receive cs sys pc t)
  then show ?case using honest_after [OF _ along_recv_step, of _ "client sys" "recv_at sys"] by simp
next
  case (Send cs sys cnt next_cnt t)
  then show ?case using honest_after [OF _ honest_rounds(1), of w _ C _ "client sys" env cnt] by simp
next
  case (Timer cs sys goes_on t)
  then show ?case using honest_after [OF _ along_timer, of _ "client sys"] by simp
next
  case (Stop cs sys)
  have "ok (client sys) ((client sys)\<lparr>stopThreads := True\<rparr>)"
    by (rule honest_events [where es = "[]"]) (simp_all add: named_simps)
  then show ?case using Stop honest.rel_trans by simp
qed

end

text \<open>Functions that only record their call, with a broker that hands over anything.\<close>

interpretation silent_user: honest_user env w A C silent for env w A C
proof
  fix c
  assume "from_message c \<Longrightarrow> C c"
  then show "along (honest w (caused env w A) C) (silent c)"
    by (intro alongI honest_events [where es = "[Called c]"]) (simp_all add: named_simps good_def)
qed

interpretation silent_service: honest_service env w A "\<lambda>_. True" silent for env w A
  by unfold_locales (rule silent_user.along_any_message, simp)

section \<open>A network of clients\<close>

text \<open>
  A client of the network: its surroundings, what its functions do, the state it began in, the calls
  its user has made and the state it is in now.
\<close>

record member =
  surroundings :: environment
  reaction :: "event list \<Rightarrow> callback_call \<Rightarrow> api_call list"
  first_state :: client_system
  calls_made :: "api_call list"
  present :: client_system

definition member_name :: "member \<Rightarrow> string" where
  "member_name x = m_module_name (client (first_state x))"

definition history :: "member \<Rightarrow> event list" where
  "history x = trace (client (present x))"

text \<open>The calls that its user has made, those that its functions may make and its acknowledgments.\<close>

definition user_calls :: "member \<Rightarrow> api_call set" where
  "user_calls x = set (calls_made x) \<union> {a. \<exists>h c. a \<in> set (reaction x h c)}"

definition causes :: "member \<Rightarrow> api_call set" where
  "causes x = user_calls x \<union> acknowledgments"

definition in_service :: "member \<Rightarrow> bool" where
  "in_service x \<longleftrightarrow> cstring_bytes_doc (cstring_bytes (surroundings x)) \<and>
     p2p_client (client (first_state x)) \<and> trace (client (first_state x)) = [] \<and> storable (member_name x) \<and>
     (\<forall>a\<in>user_calls x. storable_call a) \<and>
     system_run (reacting (surroundings x) (reaction x)) (surroundings x) (first_state x) (calls_made x) (present x)"

text \<open>
  The broker hands over what a member of the network has published under the name of the receiving
  one: the key of the only binding that its queue has (theory \<open>Service\<close>).
\<close>

definition broker_delivers :: "member list \<Rightarrow> member \<Rightarrow> bool" where
  "broker_delivers net x \<longleftrightarrow> (\<forall>h r envelope. consumed (surroundings x) h = (r, envelope) \<and>
     reply_type r = AMQP_RESPONSE_NORMAL \<longrightarrow>
     (\<exists>y\<in>set net. \<exists>e\<in>set (history y). carries e envelope) \<and>
     routing_key envelope = cbytes (surroundings x) (member_name x))"

text \<open>
  The cause of a callback's call at \<open>x\<close>: a member has published, under its own name and to \<open>x\<close>, the
  message of a call that its user or a function of it made, or of an acknowledgment, and the callback
  is called with what this message says.
\<close>

definition has_cause :: "member list \<Rightarrow> member \<Rightarrow> callback_call \<Rightarrow> bool" where
  "has_cause net x c \<longleftrightarrow> (\<exists>y\<in>set net. \<exists>a\<in>causes y. \<exists>u p b.
     publish_event (surroundings y) u (member_name x) b (header_props (surroundings y) p) \<in> set (history y) \<and>
     sender p = member_name y \<and> sent_by a p (member_name x) b \<and> tells p b c)"

lemma member_user:
  assumes "in_service x"
  shows "honest_user (surroundings x) (member_name x) (user_calls x) C (reacting (surroundings x) (reaction x))"
proof
  have "a \<in> user_calls x \<and> storable_call a" if "a \<in> set (reaction x h c)" for a h c
    using assms that by (auto simp: in_service_def user_calls_def)
  then show "(from_message c \<Longrightarrow> C c) \<Longrightarrow>
      along (honest (member_name x) (caused (surroundings x) (member_name x) (user_calls x)) C)
        (reacting (surroundings x) (reaction x) c)" for c
    by (intro honest_reacting) auto
qed

text \<open>What a member has done, if it may receive what its broker hands over.\<close>

lemma member_history:
  assumes "in_service x"
    and "honest_service (surroundings x) (member_name x) (user_calls x) C (reacting (surroundings x) (reaction x))"
  shows "list_all (good (caused (surroundings x) (member_name x) (user_calls x)) C) (history x)"
proof -
  have "honest (member_name x) (caused (surroundings x) (member_name x) (user_calls x)) C
      (client (first_state x)) (client (present x))"
    by (rule honest_service.along_run [OF assms(2)])
      (use assms(1) in \<open>auto simp: in_service_def user_calls_def\<close>)
  then show ?thesis
    using assms(1) by (auto simp: honest_def in_service_def named_def member_name_def history_def)
qed

text \<open>Whatever a member receives, what it publishes has a cause.\<close>

lemma publication_caused:
  assumes "in_service x" "e \<in> set (history x)" "is_publish e"
  shows "caused (surroundings x) (member_name x) (user_calls x) e"
proof -
  note user = member_user [OF assms(1), of "\<lambda>_. True"]
  have "honest_service (surroundings x) (member_name x) (user_calls x) (\<lambda>_. True) (reacting (surroundings x) (reaction x))"
    by (intro honest_service.intro [OF user] honest_service_axioms.intro honest_user.along_any_message [OF user]) simp
  from member_history [OF assms(1) this] assms(2) have "good (caused (surroundings x) (member_name x) (user_calls x)) (\<lambda>_. True) e"
    by (simp add: list_all_iff)
  then show ?thesis using assms(3) by (auto simp: good_def is_publish_def split: event.splits)
qed

text \<open>A published message that is delivered as it is.\<close>

lemma delivered_caused:
  assumes "in_service y" "in_service x" "e \<in> set (history y)" "carries e envelope"
    and "routing_key envelope = cbytes (surroundings x) (member_name x)"
  obtains a u p b where "a \<in> causes y" "e = publish_event (surroundings y) u (member_name x) b (header_props (surroundings y) p)"
    "sender p = member_name y" "sent_by a p (member_name x) b" "storable b" "storable_props p"
proof -
  have doc: "cstring_bytes_doc (cstring_bytes (surroundings x))" "cstring_bytes_doc (cstring_bytes (surroundings y))"
    and name: "storable (member_name x)"
    using assms(1,2) by (simp_all add: in_service_def)
  have "is_publish e" using assms(4) by (auto simp: carries_def is_publish_def split: event.splits library_call.splits)
  from publication_caused [OF assms(1,3) this] obtain a u p k b where e: "a \<in> causes y"
    "e = publish_event (surroundings y) u k b (header_props (surroundings y) p)" "sender p = member_name y"
    "sent_by a p k b" "no_nul k" "storable k \<longrightarrow> storable b \<and> storable_props p"
    unfolding caused_def causes_def by blast
  then have "cbytes (surroundings y) k = cbytes (surroundings x) (member_name x)"
    using assms(4,5) by (simp add: carries_def publish_event_def)
  then have "k = member_name x"
    using doc name e(5) by (simp add: cbytes_def cstring_bytes_doc_def)
  then show thesis using that e name by blast
qed

section \<open>The property\<close>

text \<open>
  C7: No callback is invented. In a network of point-to-point clients in service, whose users and
  functions pass C strings, every call of a callback for a message, at any member, has its cause in a
  call that the user or a function of a member made, or in an acknowledgment: that member has published
  the message of this call, under its own name and to the name of the member whose callback is called,
  and the callback is called with what this message says. It is relied on that the broker delivers to
  a member what members of the network have published under its name.
\<close>

theorem callbacks_have_causes:
  assumes "\<forall>y\<in>set net. in_service y" and "x \<in> set net" and "broker_delivers net x"
    and "Called c \<in> set (history x)" and "from_message c"
  shows "has_cause net x c"
proof -
  let ?call = "reacting (surroundings x) (reaction x)"
  let ?ok = "honest (member_name x) (caused (surroundings x) (member_name x) (user_calls x)) (has_cause net x)"
  have x: "in_service x" using assms(1,2) by blast
  note user = member_user [OF x, of "has_cause net x"]
  have "along ?ok (receive_message ?call (surroundings x) envelope)"
    if "consumed (surroundings x) h = (r, envelope)" "reply_type r = AMQP_RESPONSE_NORMAL" for h r envelope
  proof -
    have "(\<exists>y\<in>set net. \<exists>e\<in>set (history y). carries e envelope) \<and>
        routing_key envelope = cbytes (surroundings x) (member_name x)"
      using assms(3) that unfolding broker_delivers_def by blast
    then obtain y e where y: "y \<in> set net" "e \<in> set (history y)" "carries e envelope"
      and key: "routing_key envelope = cbytes (surroundings x) (member_name x)"
      by blast
    have "in_service y" using assms(1) y(1) by blast
    then obtain a u p b where e: "a \<in> causes y"
      "e = publish_event (surroundings y) u (member_name x) b (header_props (surroundings y) p)"
      "sender p = member_name y" "sent_by a p (member_name x) b" "storable b" "storable_props p"
      using delivered_caused [OF _ x y(2,3) key] by metis
    have "has_cause net x c" if "tells p b c" for c
      unfolding has_cause_def using y(1,2) e that by blast
    then have "along ?ok (handle_message ?call (surroundings x) (member_name x) b p)"
      using e(5,6) by (intro honest_user.along_handle_message [OF user]) simp
    moreover have "?ok s (s\<lparr>trace := trace s @ [Library Amqp_destroy_envelope]\<rparr>)" for s
      by (rule honest.calm_step) (simp add: is_publish_def)
    moreover have "run_state (receive_message ?call (surroundings x) envelope) s =
        run_state (handle_message ?call (surroundings x) (member_name x) b p)
          (s\<lparr>trace := trace s @ [Library Amqp_destroy_envelope]\<rparr>)" for s
      using \<open>in_service y\<close> x y(3) e
      by (intro carried_message [where env = "surroundings y"]) (simp_all add: in_service_def)
    ultimately show ?thesis unfolding along_def by (metis honest.rel_trans)
  qed
  then have "honest_service (surroundings x) (member_name x) (user_calls x) (has_cause net x) ?call"
    by (intro honest_service.intro [OF user] honest_service_axioms.intro) blast
  from member_history [OF x this] have "good (caused (surroundings x) (member_name x) (user_calls x)) (has_cause net x) (Called c)"
    using assms(4) by (simp add: list_all_iff)
  then show ?thesis using assms(5) by (simp add: good_def)
qed

text \<open>Two members: one makes a request, the other receives it.\<close>

definition sample_ping :: api_call where
  "sample_ping = Request (Some ''peer'') (Some ''ping'') 7 (Some ''{}'') (Some ()) 5000"

definition sample_asker :: "RabbitMQWrapper \<Rightarrow> member" where
  "sample_asker t = \<lparr>surroundings = sample_env, reaction = \<lambda>_ _. [], first_state = sample_system p2ptype,
     calls_made = [sample_ping], present = (sample_system p2ptype)\<lparr>client := t\<rparr>\<rparr>"

definition sample_hears :: "amqp_envelope_t \<Rightarrow> environment" where
  "sample_hears envelope = sample_env\<lparr>consumed := \<lambda>_. (sample_reply AMQP_RESPONSE_NORMAL, envelope)\<rparr>"

definition sample_peer :: client_system where
  "sample_peer = (sample_system p2ptype)\<lparr>client := sample_client p2ptype\<lparr>m_module_name := ''peer''\<rparr>,
     recv_at := Loop_test\<rparr>"

definition sample_answerer :: "amqp_envelope_t \<Rightarrow> recv_pc \<Rightarrow> RabbitMQWrapper \<Rightarrow> member" where
  "sample_answerer envelope pc t = \<lparr>surroundings = sample_hears envelope, reaction = \<lambda>_ _. [],
     first_state = sample_peer, calls_made = [], present = sample_peer\<lparr>client := t, recv_at := pc\<rparr>\<rparr>"

lemma sample_asker_in_service:
  assumes "run_state (rmRequestMake sample_env (Some ''peer'') (Some ''ping'') 7 (Some ''{}'') (Some ()) 5000)
    (sample_client p2ptype) = (r, t)"
  shows "in_service (sample_asker t)"
proof -
  have "system_run (reacting sample_env (\<lambda>_ _. [])) sample_env (sample_system p2ptype) ([] @ [sample_ping])
      ((sample_system p2ptype)\<lparr>client := state_after (perform sample_env sample_ping) (client (sample_system p2ptype))\<rparr>)"
    by (rule system_run.Call [OF system_run.Start]) (simp add: sample_system_starts)
  then show ?thesis
    using assms by (simp add: in_service_def sample_asker_def plain_cstring_bytes_doc p2p_client_def
        sample_system_starts member_name_def storable_def user_calls_def ignore_def sample_ping_def)
qed

lemma sample_answerer_in_service:
  assumes "run_state (recv_round (reacting (sample_hears envelope) (\<lambda>_ _. [])) (sample_hears envelope))
    (sample_client p2ptype\<lparr>m_module_name := ''peer''\<rparr>) = (pc, t)"
  shows "in_service (sample_answerer envelope pc t)"
proof -
  have "system_run (reacting (sample_hears envelope) (\<lambda>_ _. [])) (sample_hears envelope) sample_peer []
      (sample_peer\<lparr>client := t, recv_at := pc\<rparr>)"
    by (rule system_run.Receive [OF system_run.Start])
      (use assms in \<open>simp_all add: sample_peer_def recv_step_def sample_system_starts\<close>)
  then show ?thesis
    by (simp add: in_service_def sample_answerer_def plain_cstring_bytes_doc p2p_client_def sample_peer_def
        sample_hears_def member_name_def storable_def user_calls_def)
qed

text \<open>The request, received in one round of the receiving thread.\<close>

lemma sample_ping_received:
  obtains t e envelope pc t' where
    "run_state (rmRequestMake sample_env (Some ''peer'') (Some ''ping'') 7 (Some ''{}'') (Some ()) 5000)
      (sample_client p2ptype) = (Inr (0, Some 0), t)" "e \<in> set (trace t)" "carries e envelope"
    "routing_key envelope = cbytes sample_env ''peer''"
    "run_state (recv_round (reacting (sample_hears envelope) (\<lambda>_ _. [])) (sample_hears envelope))
      (sample_client p2ptype\<lparr>m_module_name := ''peer''\<rparr>) = (pc, t')"
    "Called (CB_REQUEST 1 ''RMQ-BUS'' ''module'' ''ping'' 0 ''{}'' 7) \<in> set (trace t')"
proof -
  let ?q = "sample_client p2ptype" and ?r = "sample_client p2ptype\<lparr>m_module_name := ''peer''\<rparr>"
  let ?p = "call_props sample_env RB_REQUEST (entered ?q) ''peer'' ''ping'' 7"
  obtain e t envelope where request:
    "run_state (rmRequestMake sample_env (Some ''peer'') (Some ''ping'') 7 (Some ''{}'') (Some ()) 5000) ?q =
      (Inr (0, Some 0), t)" "published ?q t = [e]" "carries e envelope"
    by (rule sample_call_accepted [of RB_REQUEST rmRequestMake]) simp
  let ?env = "sample_hears envelope"
  have client: "p2p_client ?q" by (simp add: p2p_client_def)
  obtain u where e: "e = publish_event sample_env u ''peer'' ''{}'' (header_props sample_env ?p)"
    using call_publishes(1) [of RB_REQUEST rmRequestMake, OF _ client request(1)] request(2) by auto
  have "set (published ?q t) \<subseteq> set (trace t)" by (auto simp: published_def dest: in_set_dropD)
  then have sent: "e \<in> set (trace t)" using request(2) by simp
  obtain pc t' where round: "run_state (recv_round (reacting ?env (\<lambda>_ _. [])) ?env) ?r = (pc, t')"
    by fastforce
  have "storable_props ?p" by (simp add: storable_props_def call_props_def) (simp add: storable_def)
  then have "run_state (receive_message (reacting ?env (\<lambda>_ _. [])) ?env envelope) s =
      run_state (handle_message (reacting ?env (\<lambda>_ _. [])) ?env ''peer'' ''{}'' ?p)
        (s\<lparr>trace := trace s @ [Library Amqp_destroy_envelope]\<rparr>)" for s
    using request(3) unfolding e
    by (intro carried_message [where env = sample_env]) (simp_all add: plain_cstring_bytes_doc storable_def)
  then have "Called (CB_REQUEST 1 ''RMQ-BUS'' ''module'' ''ping'' 0 ''{}'' 7) \<in> set (trace t')"
    using round by (auto simp: recv_round_def recv_reply_def sample_hears_def handle_message_def p2pHandleMessage_def
        call_props_def run_reacting full_handler_def sample_reply_def sample_method_def MAX_HEARTBEAT_ERR_def
        AMQP_BASIC_GET_EMPTY_METHOD_def)
  with round sent request(1,3) that show thesis
    by (simp add: e carries_def publish_event_def)
qed

theorem callbacks_have_causes_witness:
  "\<exists>net x. Called (CB_REQUEST 1 ''RMQ-BUS'' ''module'' ''ping'' 0 ''{}'' 7) \<in> set (history x) \<and>
    has_cause net x (CB_REQUEST 1 ''RMQ-BUS'' ''module'' ''ping'' 0 ''{}'' 7)"
proof -
  obtain t e envelope pc t' where sample:
    "run_state (rmRequestMake sample_env (Some ''peer'') (Some ''ping'') 7 (Some ''{}'') (Some ()) 5000)
      (sample_client p2ptype) = (Inr (0, Some 0), t)" "e \<in> set (trace t)" "carries e envelope"
    "routing_key envelope = cbytes sample_env ''peer''"
    "run_state (recv_round (reacting (sample_hears envelope) (\<lambda>_ _. [])) (sample_hears envelope))
      (sample_client p2ptype\<lparr>m_module_name := ''peer''\<rparr>) = (pc, t')"
    "Called (CB_REQUEST 1 ''RMQ-BUS'' ''module'' ''ping'' 0 ''{}'' 7) \<in> set (trace t')"
    by (rule sample_ping_received)
  let ?x = "sample_answerer envelope pc t'" and ?net = "[sample_asker t, sample_answerer envelope pc t']"
  have x: "history ?x = trace t'" "member_name ?x = ''peer''" "surroundings ?x = sample_hears envelope"
    "history (sample_asker t) = trace t"
    by (simp_all add: history_def sample_answerer_def sample_asker_def member_name_def sample_peer_def)
  have "\<forall>y\<in>set ?net. in_service y"
    using sample_asker_in_service [OF sample(1)] sample_answerer_in_service [OF sample(5)] by simp
  moreover have "broker_delivers ?net ?x"
    using sample(2-4) by (auto simp: broker_delivers_def x sample_hears_def cbytes_def)
  ultimately have "has_cause ?net ?x (CB_REQUEST 1 ''RMQ-BUS'' ''module'' ''ping'' 0 ''{}'' 7)"
    using sample(6) by (intro callbacks_have_causes) (simp_all add: x from_message_def)
  moreover have "Called (CB_REQUEST 1 ''RMQ-BUS'' ''module'' ''ping'' 0 ''{}'' 7) \<in> set (history ?x)"
    using sample(6) by (simp only: x(1))
  ultimately show ?thesis by (intro exI conjI)
qed

end
