(* ===== verification/Stages.thy ===== *)
theory Stages
  imports Call_Runs
begin

section \<open>Calls and answers, section by section\<close>

text \<open>
  Requests, notifications and responses are not atomic: each is a sequence of critical sections of
  \<open>timer_mutex\<close> and of steps outside it. Here they are cut into these stages, and the stages of any
  number of calling threads, of the receiving thread and the rounds of the timer thread interleave.
  The functions of the user only record their call. Run without a break the stages are the operations
  of the code; interleaved they leave of the guarantees of theory \<open>Call_Runs\<close> that a request is
  completed at most once by the timer and at most once by a response.
\<close>

subsection \<open>Stages\<close>

text \<open>What a request or notification is called with: type, module, name, argument, body, timeout.\<close>

datatype call_args = Call_args message_type_t string string address string i32

text \<open>
  \<open>Begin\<close> to \<open>Clear\<close> are the stages of a request or notification, \<open>Look_up\<close> to \<open>Clear\<close> those of a
  final response, \<open>Look_up_temp\<close> to \<open>Restart\<close> those of a temporary one.
\<close>

datatype stage =
    Begin call_args
  | Register call_args i32
  | Publish string string amqp_basic_properties_t i32
  | Look_up function_id int_props_st string
  | Handle function_id int_props_st string "TimerTask pointer"
  | Clear i32
  | Look_up_temp function_id int_props_st string
  | Handle_temp function_id int_props_st string "TimerTask pointer"
  | Restart i32
  | Finished

fun stage_step :: "environment \<Rightarrow> stage \<Rightarrow> stage op" where
  "stage_step env (Begin c) = do { i \<leftarrow> p2pReqTimerId; ret (Register c i) }"
| "stage_step env (Register (Call_args type m n x b timeout) i) = do {
     name \<leftarrow> GetModuleName;
     ms \<leftarrow> timestamp_ms env;
     let intprops =
       \<lparr>sender = name, receiver = m, msgtype = type, msgname = n, rid = i, inarg = x, timestamp = ms,
        rspcode = ''no code'', rspdesc = ''no description'', trans = ''no transparent''\<rparr>;
     case rm_properties env intprops of
       Inl e \<Rightarrow> ret Finished
     | Inr props \<Rightarrow> do {
         p2pAddTimerTask env i m b (i32_div timeout 1000) intprops;
         ret (Publish m b props i)
       }
   }"
| "stage_step env (Publish m b props i) = do {
     rslt \<leftarrow> SendRabbitmqMessage env m b (Some props);
     ret (if rslt then Finished else Clear i)
   }"
| "stage_step env (Look_up f p msg) = do {
     info \<leftarrow> p2pGetTimerTaskInfo (rid p);
     ret (Handle f p msg info)
   }"
| "stage_step env (Handle f p msg (Some task)) = do {
     only_if (msgtype (task_props task) = RB_REQUEST) (silent (final_call f task p msg));
     ret (Clear (rid p))
   }"
| "stage_step env (Handle f p msg NULL) = do {
     log (''finalrsp can not get timer task info,id: '' @ to_string (sint (rid p)));
     ret Finished
   }"
| "stage_step env (Clear i) = do { p2pRemoveTimerTask i; ret Finished }"
| "stage_step env (Look_up_temp f p msg) = do {
     info \<leftarrow> p2pGetTimerTaskInfo (rid p);
     ret (Handle_temp f p msg info)
   }"
| "stage_step env (Handle_temp f p msg (Some task)) = do {
     silent (temp_call f task p msg);
     ret (Restart (rid p))
   }"
| "stage_step env (Handle_temp f p msg NULL) = do {
     log (''tmprsp can not get timer task info,id: '' @ to_string (sint (rid p)));
     ret Finished
   }"
| "stage_step env (Restart i) = do { p2pRestartTimerTask env i; ret Finished }"
| "stage_step env Finished = ret Finished"

text \<open>Stages without a break.\<close>

primrec stages :: "environment \<Rightarrow> nat \<Rightarrow> stage \<Rightarrow> stage op" where
  "stages env 0 st = ret st"
| "stages env (Suc n) st = do { st' \<leftarrow> stage_step env st; stages env n st' }"

lemma call_stages:
  "run_state (stages env 4 (Begin (Call_args type m n x b timeout))) s =
    (Finished, state_after (make_call env type m n x b (Some ()) timeout) s)"
  by (simp add: numeral_eq_Suc make_call_def rm_properties_ok Let_def split_beta)

lemma final_stages:
  assumes "msgtype p = RB_FINAL_RESPONSE" "m_cbRespFinal (stClientCBHandle s) = Some f"
  shows "run_state (stages env 3 (Look_up f p msg)) s =
    (Finished, state_after (p2pHandleMessage silent env k msg p) s)"
  using assms
  by (simp add: numeral_eq_Suc p2pHandleMessage_def final_response_def final_call_def Let_def split_beta
      split: option.splits)

lemma temp_stages:
  assumes "msgtype p = RB_TEMPORARY_RESPONSE" "m_cbRespTemp (stClientCBHandle s) = Some f"
  shows "run_state (stages env 3 (Look_up_temp f p msg)) s =
    (Finished, state_after (p2pHandleMessage silent env k msg p) s)"
  using assms
  by (simp add: numeral_eq_Suc p2pHandleMessage_def temp_call_def Let_def split_beta split: option.splits)

subsection \<open>Interleaving\<close>

text \<open>The client, where its receiving thread is and where the threads are that make calls.\<close>

record crew =
  shared :: RabbitMQWrapper
  recv_stage :: stage
  workers :: "stage list"

text \<open>What else happens to the client leaves the tasks and the counter alone and completes no call.\<close>

definition elsewhere :: "RabbitMQWrapper \<Rightarrow> RabbitMQWrapper \<Rightarrow> bool" where
  "elsewhere s t \<longleftrightarrow> timer_tasks t = timer_tasks s \<and> m_next_timer_id t = m_next_timer_id s \<and>
     (p2p_client s \<longrightarrow> p2p_client t) \<and>
     (\<exists>es. trace t = trace s @ es \<and> list_all (\<lambda>c. completes c = None) (called es))"

text \<open>\<open>crew_run env start k w\<close>: the crew gets from \<open>start\<close> to \<open>w\<close>, having begun \<open>k\<close> calls.\<close>

inductive crew_run :: "environment \<Rightarrow> RabbitMQWrapper \<Rightarrow> nat \<Rightarrow> crew \<Rightarrow> bool" for env start where
  Start: "crew_run env start 0 \<lparr>shared = start, recv_stage = Finished, workers = []\<rparr>"
| Call: "crew_run env start k w \<Longrightarrow> run_state (stage_step env (Begin c)) (shared w) = (st, t) \<Longrightarrow>
    crew_run env start (k + 1) (w\<lparr>shared := t, workers := workers w @ [st]\<rparr>)"
| Work: "crew_run env start k w \<Longrightarrow> j < length (workers w) \<Longrightarrow>
    run_state (stage_step env (workers w ! j)) (shared w) = (st, t) \<Longrightarrow>
    crew_run env start k (w\<lparr>shared := t, workers := (workers w)[j := st]\<rparr>)"
| Final_received: "crew_run env start k w \<Longrightarrow> recv_stage w = Finished \<Longrightarrow> msgtype p = RB_FINAL_RESPONSE \<Longrightarrow>
    m_cbRespFinal (stClientCBHandle (shared w)) = Some f \<Longrightarrow>
    crew_run env start k (w\<lparr>recv_stage := Look_up f p msg\<rparr>)"
| Temp_received: "crew_run env start k w \<Longrightarrow> recv_stage w = Finished \<Longrightarrow> msgtype p = RB_TEMPORARY_RESPONSE \<Longrightarrow>
    m_cbRespTemp (stClientCBHandle (shared w)) = Some f \<Longrightarrow>
    crew_run env start k (w\<lparr>recv_stage := Look_up_temp f p msg\<rparr>)"
| Receive: "crew_run env start k w \<Longrightarrow> run_state (stage_step env (recv_stage w)) (shared w) = (st, t) \<Longrightarrow>
    crew_run env start k (w\<lparr>shared := t, recv_stage := st\<rparr>)"
| Timer: "crew_run env start k w \<Longrightarrow>
    crew_run env start k (w\<lparr>shared := state_after (timer_round silent env) (shared w)\<rparr>)"
| Elsewhere: "crew_run env start k w \<Longrightarrow> elsewhere (shared w) t \<Longrightarrow>
    crew_run env start k (w\<lparr>shared := t\<rparr>)"

subsection \<open>Completions by the timer and by responses\<close>

definition timeouts :: "i32 \<Rightarrow> callback_call list \<Rightarrow> nat" where
  "timeouts i cs = length (filter (\<lambda>c. is_timeout c \<and> completes c = Some i) cs)"

definition responses :: "i32 \<Rightarrow> callback_call list \<Rightarrow> nat" where
  "responses i cs = length (filter (\<lambda>c. \<not> is_timeout c \<and> completes c = Some i) cs)"

lemma counts_simps [simp]:
  "timeouts i [] = 0" "responses i [] = 0"
  "timeouts i (cs @ ds) = timeouts i cs + timeouts i ds"
  "responses i (cs @ ds) = responses i cs + responses i ds"
  by (simp_all add: timeouts_def responses_def)

lemma completions_split: "completions i cs = timeouts i cs + responses i cs"
  by (induction cs) (auto simp: completions_def timeouts_def responses_def)

lemma counts_none: "list_all (\<lambda>c. completes c = None) cs \<Longrightarrow> timeouts i cs = 0 \<and> responses i cs = 0"
  using completions_none [of cs i] by (simp add: completions_split)

text \<open>A round of the timer: each expired task at most once, and no response.\<close>

lemma timeout_counts:
  assumes "rid (task_props task) = task_id task"
  shows "timeouts i (timeout_calls h task) \<le> (if task_id task = i then 1 else 0)"
    and "responses i (timeout_calls h task) = 0"
  using assms
  by (auto simp: timeout_calls_def timeouts_def responses_def Let_def split: message_type_t.splits option.splits)

lemma round_counts:
  assumes "distinct (map task_id ts)" "\<forall>t\<in>set ts. rid (task_props t) = task_id t"
  shows "timeouts i (concat (map (timeout_calls h) ts)) \<le> (if i \<in> task_id ` set ts then 1 else 0)"
    and "responses i (concat (map (timeout_calls h) ts)) = 0"
  using assms
proof (induction ts)
  case (Cons t ts)
  {
    case 1
    then show ?case using Cons.IH(1) timeout_counts(1) [of t i h] by (auto split: if_splits)
  next
    case 2
    then show ?case using Cons.IH(2) timeout_counts(2) [of t i h] by simp
  }
qed simp_all

subsection \<open>The invariant\<close>

fun register_id :: "stage \<Rightarrow> i32 option" where
  "register_id (Register c i) = Some i"
| "register_id st = None"

definition registering :: "i32 \<Rightarrow> stage list \<Rightarrow> nat" where
  "registering i ws = length (filter (\<lambda>st. register_id st = Some i) ws)"

lemma registering_append [simp]: "registering i (ws @ vs) = registering i ws + registering i vs"
  by (simp add: registering_def)

lemma registering_single [simp]: "registering i [st] = (if register_id st = Some i then 1 else 0)"
  by (simp add: registering_def)

lemma registering_update:
  "j < length ws \<Longrightarrow> registering i (ws[j := st]) + registering i [ws ! j] = registering i ws + registering i [st]"
proof (induction ws arbitrary: j)
  case (Cons v ws)
  then show ?case by (cases j) (auto simp: registering_def)
qed simp

fun call_stage :: "stage \<Rightarrow> bool" where
  "call_stage (Register c i) = True"
| "call_stage (Publish m b props i) = True"
| "call_stage (Clear i) = True"
| "call_stage Finished = True"
| "call_stage st = False"

fun reply_stage :: "stage \<Rightarrow> bool" where
  "reply_stage (Begin c) = False"
| "reply_stage (Register c i) = False"
| "reply_stage (Publish m b props i) = False"
| "reply_stage st = True"

text \<open>The tasks and the counter of a client that has begun \<open>k\<close> calls.\<close>

definition tasks_ok :: "nat \<Rightarrow> RabbitMQWrapper \<Rightarrow> bool" where
  "tasks_ok k s \<longleftrightarrow> p2p_client s \<and> ids_differ (timer_tasks s) \<and>
     (\<forall>t\<in>set (timer_tasks s). rid (task_props t) = task_id t) \<and> m_next_timer_id s = of_nat k"

definition waits :: "i32 \<Rightarrow> RabbitMQWrapper \<Rightarrow> nat" where
  "waits i s = (if i \<in> task_id ` set (timer_tasks s) then 1 else 0)"

text \<open>One id: it is being registered, pending or timed out, in one way only and only if it was taken.\<close>

definition timed_once :: "nat \<Rightarrow> i32 \<Rightarrow> crew \<Rightarrow> bool" where
  "timed_once k i w \<longleftrightarrow> timeouts i (called (trace (shared w))) + waits i (shared w) + registering i (workers w)
     \<le> (if i \<in> of_nat ` {..<k} then 1 else 0)"

text \<open>
  One id: it has been answered once at most, if it was taken and registered before; and then it is not
  pending any more, or the receiving thread is about to clear it.
\<close>

definition answered_once :: "nat \<Rightarrow> i32 \<Rightarrow> crew \<Rightarrow> bool" where
  "answered_once k i w \<longleftrightarrow>
     responses i (called (trace (shared w))) \<le> 1 \<and>
     (0 < responses i (called (trace (shared w))) \<longrightarrow> i \<in> of_nat ` {..<k} \<and> registering i (workers w) = 0 \<and>
       (waits i (shared w) = 0 \<or> recv_stage w = Clear i)) \<and>
     (\<forall>f p msg task. recv_stage w = Handle f p msg (Some task) \<and> rid p = i \<longrightarrow>
       responses i (called (trace (shared w))) = 0 \<and> registering i (workers w) = 0 \<and> i \<in> of_nat ` {..<k})"

definition crew_ok :: "nat \<Rightarrow> crew \<Rightarrow> bool" where
  "crew_ok k w \<longleftrightarrow> tasks_ok k (shared w) \<and> list_all call_stage (workers w) \<and> reply_stage (recv_stage w) \<and>
     (\<forall>i. timed_once k i w \<and> answered_once k i w)"

lemma find_task_ids: "find_task ts i = Some task \<Longrightarrow> i \<in> task_id ` set ts"
  using find_task_in [of ts i task] find_task_id [of ts i task] by auto

text \<open>
  A step of a thread that makes calls: it completes nothing, and an id moves from being registered to
  being pending or goes.
\<close>

lemma worker_effect:
  assumes "crew_ok k w" "tasks_ok k t" "called (trace t) = called (trace (shared w))" "list_all call_stage ws"
    and "\<And>i. waits i t + registering i ws \<le> waits i (shared w) + registering i (workers w)"
    and "\<And>i. registering i ws \<le> registering i (workers w)"
  shows "crew_ok k (w\<lparr>shared := t, workers := ws\<rparr>)"
proof -
  have "timed_once k i (w\<lparr>shared := t, workers := ws\<rparr>) \<and> answered_once k i (w\<lparr>shared := t, workers := ws\<rparr>)" for i
  proof -
    have before: "timed_once k i w" "answered_once k i w" using assms(1) by (simp_all add: crew_ok_def)
    have "timed_once k i (w\<lparr>shared := t, workers := ws\<rparr>)"
      using before(1) assms(5) [of i] by (simp add: timed_once_def assms(3) split: if_splits)
    moreover have "answered_once k i (w\<lparr>shared := t, workers := ws\<rparr>)"
      using before(2) assms(5,6) [of i] by (auto simp: answered_once_def assms(3))
    ultimately show ?thesis by blast
  qed
  then show ?thesis using assms(1,2,4) by (simp add: crew_ok_def)
qed

lemma waits_push: "waits i (s\<lparr>timer_tasks := push_task x ts\<rparr>) =
    (if task_id x = i \<or> i \<in> task_id ` set ts then 1 else 0)"
  by (auto simp: waits_def push_task_def)

lemma waits_drop:
  "ids_differ ts \<Longrightarrow> waits i (s\<lparr>timer_tasks := drop_task j ts\<rparr>) =
    (if i \<noteq> j \<and> i \<in> task_id ` set ts then 1 else 0)"
  by (auto simp: waits_def ids_drop_task)

lemma tasks_ok_drop:
  "tasks_ok k s \<Longrightarrow> tasks_ok k (s\<lparr>timer_tasks := drop_task j (timer_tasks s), trace := h\<rparr>)"
  by (auto simp: tasks_ok_def p2p_client_def ids_differ_drop set_drop_task)

lemma tasks_ok_trace: "tasks_ok k (s\<lparr>trace := h\<rparr>) = tasks_ok k s"
  by (simp add: tasks_ok_def p2p_client_def)

lemma waits_trace [simp]: "waits i (s\<lparr>trace := h\<rparr>) = waits i s"
  by (simp add: waits_def)

lemma begin_keeps:
  assumes "crew_ok k w" "k < 2 ^ 32" "run_state (stage_step env (Begin c)) (shared w) = (st, t)"
  shows "crew_ok (k + 1) (w\<lparr>shared := t, workers := workers w @ [st]\<rparr>)"
proof -
  let ?s = "shared w" and ?i = "of_nat k :: i32"
  have ok: "tasks_ok k ?s" using assms(1) by (simp add: crew_ok_def)
  have t: "st = Register c ?i" "t = ?s\<lparr>m_next_timer_id := ?i + 1, trace := trace ?s @ [Lock timer_mutex, Unlock timer_mutex]\<rparr>"
    using assms(3) ok by (auto simp: run_req_id tasks_ok_def)
  have fresh: "?i \<notin> of_nat ` {..<k}" by (rule issue_fresh [OF assms(2)])
  have "tasks_ok (k + 1) t" using ok by (simp add: t tasks_ok_def p2p_client_def)
  moreover have "timed_once (k + 1) i (w\<lparr>shared := t, workers := workers w @ [st]\<rparr>) \<and>
      answered_once (k + 1) i (w\<lparr>shared := t, workers := workers w @ [st]\<rparr>)" for i
  proof -
    have before: "timed_once k i w" "answered_once k i w" using assms(1) by (simp_all add: crew_ok_def)
    have same: "waits i t = waits i ?s" "called (trace t) = called (trace ?s)" by (simp_all add: t waits_def)
    have "timed_once (k + 1) i (w\<lparr>shared := t, workers := workers w @ [st]\<rparr>)"
      using before(1) fresh by (auto simp: timed_once_def same t(1) lessThan_Suc split: if_splits)
    moreover have "answered_once (k + 1) i (w\<lparr>shared := t, workers := workers w @ [st]\<rparr>)"
      using before(2) fresh by (auto simp: answered_once_def same t(1) lessThan_Suc)
    ultimately show ?thesis by blast
  qed
  ultimately show ?thesis using assms(1) by (simp add: crew_ok_def t(1))
qed

lemma work_keeps:
  assumes "crew_ok k w" "j < length (workers w)" "run_state (stage_step env (workers w ! j)) (shared w) = (st, t)"
  shows "crew_ok k (w\<lparr>shared := t, workers := (workers w)[j := st]\<rparr>)"
proof -
  let ?s = "shared w" and ?old = "workers w ! j"
  have ok: "tasks_ok k ?s" and stages: "list_all call_stage (workers w)" using assms(1) by (simp_all add: crew_ok_def)
  then have p2p: "exchange_type ?s = p2ptype" and differ: "ids_differ (timer_tasks ?s)" by (simp_all add: tasks_ok_def)
  note update = registering_update [OF assms(2), of _ st]
  have effect: ?thesis if "tasks_ok k t" "called (trace t) = called (trace ?s)" "call_stage st"
    "\<And>i. waits i t + registering i [st] \<le> waits i ?s + registering i [?old]"
    "\<And>i. registering i [st] \<le> registering i [?old]"
  proof (rule worker_effect [OF assms(1) that(1,2)])
    show "list_all call_stage ((workers w)[j := st])"
      using stages that(3) by (auto simp: list_all_iff dest!: set_update_subset_insert [THEN subsetD])
    show "waits i t + registering i ((workers w)[j := st]) \<le> waits i ?s + registering i (workers w)" for i
      using that(4) [of i] update [of i] by linarith
    show "registering i ((workers w)[j := st]) \<le> registering i (workers w)" for i
      using that(5) [of i] update [of i] by linarith
  qed
  have "call_stage ?old" using stages assms(2) by (simp add: list_all_length)
  then show ?thesis
  proof (cases ?old rule: call_stage.cases)
    case (1 c i)
    obtain type m n x b timeout where c: "c = Call_args type m n x b timeout" by (cases c)
    let ?h = "trace ?s @ [Read_clock, Lock timer_mutex, Read_clock, Unlock timer_mutex]"
    have "\<exists>props task. st = Publish m b props i \<and> t = ?s\<lparr>timer_tasks := push_task task (timer_tasks ?s), trace := ?h\<rparr> \<and>
        task_id task = i \<and> rid (task_props task) = i"
      using assms(3) p2p
      by (intro exI conjI) (auto simp: 1 c GetModuleName_def run_timestamp rm_properties_ok run_add_task Let_def new_TimerTask_def)
    then obtain props task where t: "st = Publish m b props i" "task_id task = i" "rid (task_props task) = i"
      "t = ?s\<lparr>timer_tasks := push_task task (timer_tasks ?s), trace := ?h\<rparr>"
      by blast
    have free: "i \<notin> task_id ` set (timer_tasks ?s)"
    proof
      assume "i \<in> task_id ` set (timer_tasks ?s)"
      then have "2 \<le> waits i ?s + registering i (workers w)"
        using update [of i] by (simp add: 1 t(1) waits_def)
      then show False using assms(1) by (auto simp: crew_ok_def timed_once_def split: if_splits dest!: spec [of _ i])
    qed
    then have "tasks_ok k t"
      using ok by (auto simp: t(2-4) tasks_ok_def p2p_client_def push_task_def ids_differ_def)
    then show ?thesis
      by (rule effect) (simp_all add: t 1 waits_push, simp add: waits_def push_task_def t(2))
  next
    case (2 m b props i)
    obtain es where es: "state_after (SendRabbitmqMessage env m b (Some props)) ?s = ?s\<lparr>trace := trace ?s @ es\<rparr>"
      "called es = []"
      using send_frame by blast
    then have "t = ?s\<lparr>trace := trace ?s @ es\<rparr>" "st = Finished \<or> st = Clear i"
      using assms(3) by (auto simp: 2 split_beta split: if_splits)
    then show ?thesis using ok es(2) by (intro effect) (auto simp: 2 tasks_ok_trace)
  next
    case (3 i)
    then have t: "st = Finished" "t = ?s\<lparr>timer_tasks := drop_task i (timer_tasks ?s),
        trace := trace ?s @ [Lock timer_mutex, Unlock timer_mutex]\<rparr>"
      using assms(3) p2p by (simp_all add: run_remove_task)
    show ?thesis
      by (rule effect) (simp_all add: t tasks_ok_drop [OF ok] waits_drop [OF differ], simp add: waits_def)
  next
    case 4
    then show ?thesis using assms(3) ok by (intro effect) simp_all
  qed simp_all
qed

text \<open>A step that leaves the threads which make calls where they are.\<close>

lemma receiver_effect:
  assumes "crew_ok k w" "tasks_ok k t" "reply_stage st"
    and "\<And>i. timeouts i (called (trace t)) + waits i t \<le> timeouts i (called (trace (shared w))) + waits i (shared w)"
    and "\<And>i. answered_once k i (w\<lparr>shared := t, recv_stage := st\<rparr>)"
  shows "crew_ok k (w\<lparr>shared := t, recv_stage := st\<rparr>)"
proof -
  have "timed_once k i (w\<lparr>shared := t, recv_stage := st\<rparr>)" for i
  proof -
    have "timed_once k i w" using assms(1) by (simp add: crew_ok_def)
    then show ?thesis using assms(4) [of i] by (simp add: timed_once_def split: if_splits)
  qed
  then show ?thesis using assms(1-3,5) by (simp add: crew_ok_def)
qed

lemma answered_other:
  assumes "answered_once k i w" "responses i (called (trace t)) = responses i (called (trace (shared w)))"
    and "waits i t \<le> waits i (shared w)" "recv_stage w = Clear i \<Longrightarrow> waits i t = 0 \<or> st = Clear i"
    and "\<And>f p msg task. st = Handle f p msg (Some task) \<Longrightarrow> rid p = i \<Longrightarrow> recv_stage w = st \<or>
      responses i (called (trace (shared w))) = 0 \<and> registering i (workers w) = 0 \<and> i \<in> of_nat ` {..<k}"
  shows "answered_once k i (w\<lparr>shared := t, recv_stage := st\<rparr>)"
  using assms by (auto simp: answered_once_def)

lemma waits_ids:
  assumes "map (\<lambda>t. (task_id t, rid (task_props t))) (timer_tasks t) =
    map (\<lambda>t. (task_id t, rid (task_props t))) (timer_tasks s)"
  shows "waits i t = waits i s"
proof -
  have "map task_id (timer_tasks t) = map task_id (timer_tasks s)"
    using arg_cong [OF assms, of "map fst"] by (simp add: comp_def)
  from arg_cong [OF this, of set] show ?thesis by (simp add: waits_def)
qed

lemma tasks_ok_ids:
  assumes "map (\<lambda>t. (task_id t, rid (task_props t))) (timer_tasks t) =
      map (\<lambda>t. (task_id t, rid (task_props t))) (timer_tasks s)"
    and "p2p_client t = p2p_client s" "m_next_timer_id t = m_next_timer_id s" "tasks_ok k s"
  shows "tasks_ok k t"
proof -
  have ids: "map task_id (timer_tasks t) = map task_id (timer_tasks s)"
    using arg_cong [OF assms(1), of "map fst"] by (simp add: comp_def)
  have pairs: "(\<forall>t\<in>set ts. rid (task_props t) = task_id t) \<longleftrightarrow>
      list_all (\<lambda>(a, b). b = a) (map (\<lambda>t. (task_id t, rid (task_props t))) ts)" for ts
    by (induction ts) auto
  show ?thesis
    using assms(2-4) unfolding tasks_ok_def pairs assms(1) ids_differ_def ids by simp
qed

lemma answered_handle:
  assumes "answered_once k i w" "recv_stage w = Handle f p msg (Some task)" "rid p = i"
  shows "responses i (called (trace (shared w))) = 0 \<and> registering i (workers w) = 0 \<and> i \<in> of_nat ` {..<k}"
  using assms(1) [unfolded answered_once_def, THEN conjunct2, THEN conjunct2, rule_format, of f p msg task] assms(2,3)
  by blast

lemma receive_keeps:
  assumes "crew_ok k w" "run_state (stage_step env (recv_stage w)) (shared w) = (st, t)"
  shows "crew_ok k (w\<lparr>shared := t, recv_stage := st\<rparr>)"
proof -
  let ?s = "shared w"
  have ok: "tasks_ok k ?s" and reply: "reply_stage (recv_stage w)"
    and each: "timed_once k i w" "answered_once k i w" for i
    using assms(1) by (simp_all add: crew_ok_def)
  then have p2p: "exchange_type ?s = p2ptype" and differ: "ids_differ (timer_tasks ?s)" by (simp_all add: tasks_ok_def)
  have silent: ?thesis if "tasks_ok k t" "\<And>i. waits i t = waits i ?s" "reply_stage st"
    "called (trace t) = called (trace ?s) @ cs" "list_all (\<lambda>c. completes c = None) cs" "\<And>i. recv_stage w \<noteq> Clear i"
    "\<And>f p msg task. st = Handle f p msg (Some task) \<Longrightarrow> rid p \<in> task_id ` set (timer_tasks ?s)" for cs
  proof (rule receiver_effect [OF assms(1) that(1,3)])
    fix i
    show "timeouts i (called (trace t)) + waits i t \<le> timeouts i (called (trace ?s)) + waits i ?s"
      using counts_none [OF that(5), of i] that(2) [of i] by (simp add: that(4))
    show "answered_once k i (w\<lparr>shared := t, recv_stage := st\<rparr>)"
    proof (rule answered_other [OF each(2)])
      fix f p msg task
      assume "st = Handle f p msg (Some task)" "rid p = i"
      then have "waits i ?s = 1" using that(7) by (simp add: waits_def)
      then show "recv_stage w = st \<or> responses i (called (trace ?s)) = 0 \<and> registering i (workers w) = 0 \<and> i \<in> of_nat ` {..<k}"
        using each(1) [of i] each(2) [of i] that(6) [of i]
        by (auto simp: timed_once_def answered_once_def split: if_splits)
    qed (use counts_none [OF that(5), of i] that in \<open>simp_all\<close>)
  qed
  show ?thesis
    using reply
  proof (cases "(env, recv_stage w)" rule: stage_step.cases)
    case (4 env' f p msg)
    then show ?thesis
      using assms(2) ok p2p by (intro silent [of "[]"])
        (auto simp: run_get_task tasks_ok_trace intro: find_task_ids)
  next
    case (5 env' f p msg task)
    then have handled: "recv_stage w = Handle f p msg (Some task)" by simp
    define cs where "cs = (if msgtype (task_props task) = RB_REQUEST then [final_call f task p msg] else [])"
    have t: "st = Clear (rid p)" "t = ?s\<lparr>trace := trace ?s @ map Called cs\<rparr>"
      using assms(2) by (auto simp: handled cs_def split: if_splits)
    have counts: "timeouts i cs = 0" "responses i cs \<le> (if i = rid p then 1 else 0)" for i
      by (simp_all add: cs_def timeouts_def responses_def final_call_def)
    have called: "called (trace t) = called (trace ?s) @ cs" by (simp add: t(2) cs_def)
    show ?thesis
    proof (rule receiver_effect [OF assms(1)])
      show "tasks_ok k t" "reply_stage st" using ok by (simp_all add: t tasks_ok_trace)
      fix i
      show "timeouts i (called (trace t)) + waits i t \<le> timeouts i (called (trace ?s)) + waits i ?s"
        unfolding called by (simp add: counts(1) t(2))
      show "answered_once k i (w\<lparr>shared := t, recv_stage := st\<rparr>)"
      proof (cases "i = rid p")
        case True
        have "responses i (called (trace ?s)) = 0 \<and> registering i (workers w) = 0 \<and> i \<in> of_nat ` {..<k}"
          by (rule answered_handle [OF each(2) handled]) (simp add: True)
        then show ?thesis
          using counts(2) [of i] True by (simp add: answered_once_def called t(1))
      next
        case False
        then have "responses i (called (trace t)) = responses i (called (trace ?s))"
          using counts(2) [of i] by (simp add: called)
        then show ?thesis
          by (rule answered_other [OF each(2)]) (simp_all add: handled t)
      qed
    qed
  next
    case (6 env' f p msg)
    then show ?thesis using assms(2) ok by (intro silent [of "[]"]) (auto simp: tasks_ok_trace)
  next
    case (7 env' j)
    then have clears: "recv_stage w = Clear j" by simp
    have t: "st = Finished" "t = ?s\<lparr>timer_tasks := drop_task j (timer_tasks ?s),
        trace := trace ?s @ [Lock timer_mutex, Unlock timer_mutex]\<rparr>"
      using assms(2) p2p by (simp_all add: clears run_remove_task)
    have fewer: "waits i t \<le> waits i ?s" "waits j t = 0" for i
      by (simp_all add: t(2) waits_drop [OF differ], simp add: waits_def)
    show ?thesis
    proof (rule receiver_effect [OF assms(1)])
      show "tasks_ok k t" "reply_stage st" by (simp_all add: t tasks_ok_drop [OF ok])
      fix i
      show "timeouts i (called (trace t)) + waits i t \<le> timeouts i (called (trace ?s)) + waits i ?s"
        using fewer(1) [of i] by (simp add: t(2))
      show "answered_once k i (w\<lparr>shared := t, recv_stage := st\<rparr>)"
        using fewer by (intro answered_other [OF each(2)]) (simp_all add: clears t)
    qed
  next
    case (8 env' f p msg)
    then show ?thesis using assms(2) ok p2p by (intro silent [of "[]"]) (auto simp: run_get_task tasks_ok_trace)
  next
    case (9 env' f p msg task)
    then show ?thesis using assms(2) ok by (intro silent [of "[temp_call f task p msg]"]) (auto simp: tasks_ok_trace temp_call_def)
  next
    case (10 env' f p msg)
    then show ?thesis using assms(2) ok by (intro silent [of "[]"]) (auto simp: tasks_ok_trace)
  next
    case (11 env' j)
    then have restarts: "recv_stage w = Restart j" by simp
    let ?new = "\<lambda>task. task\<lparr>expire_time := expiry (steady_now env (trace ?s @ [Lock timer_mutex, Read_clock]))
        (task_interval task)\<rparr>"
    define h where "h = (if find_task (timer_tasks ?s) j = None then [Lock timer_mutex, Unlock timer_mutex]
      else [Lock timer_mutex, Read_clock, Unlock timer_mutex])"
    let ?ids = "\<lambda>ts. map (\<lambda>t. (task_id t, rid (task_props t))) ts"
    have "?ids (alter_task j ?new (timer_tasks ?s)) = ?ids (timer_tasks ?s)"
      by (simp add: alter_task_def map_update_first)
    then have t: "st = Finished" "trace t = trace ?s @ h" "?ids (timer_tasks t) = ?ids (timer_tasks ?s)"
      "p2p_client t = p2p_client ?s" "m_next_timer_id t = m_next_timer_id ?s"
      using assms(2) p2p
      by (cases "find_task (timer_tasks ?s) j"; auto simp: restarts run_restart_task p2p_client_def h_def)+
    show ?thesis
      using ok by (intro silent [where cs = "[]"] tasks_ok_ids [OF t(3-5)])
        (simp_all add: t restarts waits_ids [OF t(3)], simp add: h_def)
  next
    case (12 env')
    then show ?thesis using assms(2) ok by (intro silent [of "[]"]) (auto simp: tasks_ok_trace)
  qed simp_all
qed

lemma timer_keeps:
  assumes "crew_ok k w"
  shows "crew_ok k (w\<lparr>shared := state_after (timer_round silent env) (shared w)\<rparr>)"
proof -
  let ?s = "shared w" and ?t = "state_after (timer_round silent env) (shared w)"
  have ok: "tasks_ok k ?s" and reply: "reply_stage (recv_stage w)" and each: "answered_once k i w" for i
    using assms by (simp_all add: crew_ok_def)
  then have p2p: "exchange_type ?s = p2ptype" and differ: "ids_differ (timer_tasks ?s)"
    and own: "\<forall>t\<in>set (timer_tasks ?s). rid (task_props t) = task_id t"
    by (simp_all add: tasks_ok_def)
  define over where "over = expired (steady_now env (trace ?s @ [Lock timer_mutex, Read_clock]))"
  define cs where "cs = concat (map (timeout_calls (stClientCBHandle ?s)) (filter over (timer_tasks ?s)))"
  obtain h where t: "?t = ?s\<lparr>timer_tasks := filter (\<lambda>x. \<not> over x) (timer_tasks ?s), trace := h\<rparr>"
    "called h = called (trace ?s) @ cs"
    using run_timer_round [OF p2p differ refl, of env] by (simp add: over_def cs_def called_timeouts)
  have counts: "timeouts i cs \<le> (if i \<in> task_id ` set (filter over (timer_tasks ?s)) then 1 else 0)"
    "responses i cs = 0" for i
    unfolding cs_def using differ own by (intro round_counts; simp add: ids_differ_def distinct_map_filter)+
  have fewer: "waits i ?t + timeouts i cs \<le> waits i ?s" for i
  proof -
    have "i \<notin> task_id ` set (filter (\<lambda>x. \<not> over x) (timer_tasks ?s))"
      if "i \<in> task_id ` set (filter over (timer_tasks ?s))"
      using that differ by (auto simp: ids_differ_def distinct_map dest: inj_onD)
    moreover have "i \<in> task_id ` set (filter P (timer_tasks ?s)) \<Longrightarrow> i \<in> task_id ` set (timer_tasks ?s)" for P
      by auto
    ultimately show ?thesis using counts(1) [of i] by (simp add: t(1) waits_def split: if_splits)
  qed
  have "crew_ok k (w\<lparr>shared := ?t, recv_stage := recv_stage w\<rparr>)"
  proof (rule receiver_effect [OF assms _ reply])
    show "tasks_ok k ?t"
      using ok by (simp add: t(1) tasks_ok_def p2p_client_def ids_differ_def distinct_map_filter)
    fix i
    show "timeouts i (called (trace ?t)) + waits i ?t \<le> timeouts i (called (trace ?s)) + waits i ?s"
      using fewer [of i] by (simp add: t)
    show "answered_once k i (w\<lparr>shared := ?t, recv_stage := recv_stage w\<rparr>)"
    proof (rule answered_other [OF each])
      show "responses i (called (trace ?t)) = responses i (called (trace ?s))" by (simp add: t counts(2))
      show "waits i ?t \<le> waits i ?s" using fewer [of i] by simp
    qed simp_all
  qed
  then show ?thesis by simp
qed

lemma elsewhere_keeps:
  assumes "crew_ok k w" "elsewhere (shared w) t"
  shows "crew_ok k (w\<lparr>shared := t\<rparr>)"
proof -
  have each: "answered_once k i w" "reply_stage (recv_stage w)" "tasks_ok k (shared w)" for i
    using assms(1) by (simp_all add: crew_ok_def)
  obtain es where es: "trace t = trace (shared w) @ es" "list_all (\<lambda>c. completes c = None) (called es)"
    and tasks: "timer_tasks t = timer_tasks (shared w)"
    using assms(2) by (auto simp: elsewhere_def)
  have same: "waits i t = waits i (shared w)" for i by (simp add: waits_def tasks)
  have "crew_ok k (w\<lparr>shared := t, recv_stage := recv_stage w\<rparr>)"
  proof (rule receiver_effect [OF assms(1) _ each(2)])
    show "tasks_ok k t" using each(3) assms(2) by (simp add: tasks_ok_def elsewhere_def)
    show "timeouts i (called (trace t)) + waits i t \<le> timeouts i (called (trace (shared w))) + waits i (shared w)" for i
      using counts_none [OF es(2), of i] by (simp add: es(1) same)
    show "answered_once k i (w\<lparr>shared := t, recv_stage := recv_stage w\<rparr>)" for i
      using counts_none [OF es(2), of i] by (intro answered_other [OF each(1)]) (simp_all add: es(1) same)
  qed
  then show ?thesis by simp
qed

text \<open>A message that begins to be handled changes nothing yet.\<close>

lemma received_keeps:
  assumes "crew_ok k w" "recv_stage w = Finished" "reply_stage st" "\<And>f p msg task. st \<noteq> Handle f p msg (Some task)"
  shows "crew_ok k (w\<lparr>recv_stage := st\<rparr>)"
proof -
  have each: "answered_once k i w" "tasks_ok k (shared w)" for i using assms(1) by (simp_all add: crew_ok_def)
  have "crew_ok k (w\<lparr>shared := shared w, recv_stage := st\<rparr>)"
    by (rule receiver_effect [OF assms(1) each(2) assms(3)])
      (simp, rule answered_other [OF each(1)], simp_all add: assms(2,4))
  then show ?thesis by simp
qed

lemma run_crew_ok:
  assumes "crew_run env start k w" "k \<le> 2 ^ 32" "tasks_ok 0 start" "timer_tasks start = []"
    "list_all (\<lambda>c. completes c = None) (called (trace start))"
  shows "crew_ok k w"
  using assms(1,2)
proof induction
  case Start
  then show ?case
    using assms(3-5) counts_none [OF assms(5)]
    by (simp add: crew_ok_def timed_once_def answered_once_def waits_def registering_def)
next
  case (Call k w c st t)
  then show ?case by (intro begin_keeps) simp_all
next
  case (Work k w j st t)
  then show ?case by (intro work_keeps) simp_all
next
  case (Final_received k w p f msg)
  then show ?case by (intro received_keeps) simp_all
next
  case (Temp_received k w p f msg)
  then show ?case by (intro received_keeps) simp_all
next
  case (Receive k w st t)
  then show ?case by (intro receive_keeps) simp_all
next
  case (Timer k w)
  then show ?case by (intro timer_keeps) simp_all
next
  case (Elsewhere k w t)
  then show ?case by (intro elsewhere_keeps) simp_all
qed

section \<open>Properties of the stages\<close>

text \<open>
  C25: Requests, notifications and responses of any number of threads may interleave at every stage with
  each other, with the rounds of the timer thread and with anything that leaves the tasks alone, up to
  \<open>2 ^ 32\<close> calls with a counter that wraps, with functions of the user that only record their
  call, and with the task that a response has found handed on as a copy (the code hands on a pointer into
  the list). Still no id is taken twice; none is completed that was not taken; an id is completed at most
  once by the timer, and then is not pending, and at most once by a response, after which it is not pending
  either unless the receiving thread is about to remove it. So a request is completed at most twice, and
  only by its timeout and a response together.
\<close>

theorem interleaved_completions:
  assumes "crew_run env start k w" and "k \<le> 2 ^ 32"
    and "p2p_client start" and "timer_tasks start = []" and "m_next_timer_id start = 0"
    and "called (trace start) = []"
    and "is_pending = (find_task (timer_tasks (shared w)) i \<noteq> None)"
  shows "ids_differ (timer_tasks (shared w)) \<and>
    (0 < completions i (called (trace (shared w))) \<or> is_pending \<longrightarrow> i \<in> of_nat ` {..<k}) \<and>
    timeouts i (called (trace (shared w))) + (if is_pending then 1 else 0) \<le> 1 \<and>
    responses i (called (trace (shared w))) \<le> 1 \<and>
    (responses i (called (trace (shared w))) = 1 \<and> is_pending \<longrightarrow> recv_stage w = Clear i) \<and>
    completions i (called (trace (shared w))) \<le> 2"
proof -
  have "crew_ok k w"
    using run_crew_ok [OF assms(1,2)] assms(3-6) by (simp add: tasks_ok_def ids_differ_def)
  then have ok: "tasks_ok k (shared w)" "timed_once k i w" "answered_once k i w" by (simp_all add: crew_ok_def)
  have waits: "waits i (shared w) = (if is_pending then 1 else 0)"
    by (simp add: waits_def assms(7) find_task_None)
  let ?timeouts = "timeouts i (called (trace (shared w)))" and ?responses = "responses i (called (trace (shared w)))"
  have timed: "?timeouts + (if is_pending then 1 else 0) \<le> (if i \<in> of_nat ` {..<k} then 1 else 0)"
    using ok(2) by (simp add: timed_once_def waits split: if_splits)
  moreover have "?responses \<le> 1" "0 < ?responses \<longrightarrow> i \<in> of_nat ` {..<k} \<and> (\<not> is_pending \<or> recv_stage w = Clear i)"
    using ok(3) waits by (auto simp: answered_once_def split: if_splits)
  ultimately show ?thesis
    using ok(1) by (auto simp: tasks_ok_def completions_split split: if_splits)
qed

theorem interleaved_completions_witness:
  "\<exists>w. crew_run sample_env (sample_client p2ptype) 1 w \<and> find_task (timer_tasks (shared w)) 0 \<noteq> None \<and>
    timeouts 0 (called (trace (shared w))) = 0 \<and> responses 0 (called (trace (shared w))) \<le> 1"
proof -
  let ?s = "sample_client p2ptype" and ?c = "Call_args RB_REQUEST ''peer'' ''ping'' 7 ''{}'' 5000"
  obtain t where begun: "run_state (stage_step sample_env (Begin ?c)) ?s = (Register ?c 0, t)"
    "exchange_type t = p2ptype" "timer_tasks t = []"
    by (simp add: run_req_id)
  let ?w = "\<lparr>shared = t, recv_stage = Finished, workers = [Register ?c 0]\<rparr>"
  have "crew_run sample_env ?s (0 + 1) ?w"
    using crew_run.Call [OF crew_run.Start, of sample_env ?c ?s] begun(1) by simp
  moreover obtain st u where registered: "run_state (stage_step sample_env (workers ?w ! 0)) (shared ?w) = (st, u)"
    by fastforce
  ultimately have run: "crew_run sample_env ?s (0 + 1) (?w\<lparr>shared := u, workers := (workers ?w)[0 := st]\<rparr>)"
    by (intro crew_run.Work) simp_all
  have "find_task (timer_tasks u) 0 \<noteq> None"
    using registered begun(2,3)
    by (auto simp: GetModuleName_def run_timestamp rm_properties_ok run_add_task Let_def new_TimerTask_def push_task_def)
  with interleaved_completions [OF run _ _ _ _ _ refl, of 0] run show ?thesis
    by (intro exI [of _ "?w\<lparr>shared := u, workers := (workers ?w)[0 := st]\<rparr>"]) (simp add: p2p_client_def)
qed

text \<open>
  Without a break the stages are the operations of the code: those of a request or notification do
  what the call does behind its checks, those of a response what \<open>p2pHandleMessage\<close> does with it.
\<close>

lemma stages_make_operations:
  "state_after (stages env 4 (Begin (Call_args type m n x b timeout))) s =
    state_after (make_call env type m n x b (Some ()) timeout) s"
  "msgtype p = RB_FINAL_RESPONSE \<Longrightarrow> m_cbRespFinal (stClientCBHandle s) = Some f \<Longrightarrow>
     state_after (stages env 3 (Look_up f p msg)) s = state_after (p2pHandleMessage silent env k msg p) s"
  "msgtype p = RB_TEMPORARY_RESPONSE \<Longrightarrow> m_cbRespTemp (stClientCBHandle s) = Some f \<Longrightarrow>
     state_after (stages env 3 (Look_up_temp f p msg)) s = state_after (p2pHandleMessage silent env k msg p) s"
  using final_stages [of p s f env msg k] temp_stages [of p s f env msg k]
  by (simp_all add: call_stages)

end
