(* ===== verification/Stage_Fate.thy ===== *)
theory Stage_Fate
  imports Stages Call_Fate
begin

section \<open>No request is lost between the stages\<close>

text \<open>
  The interleavings of theory \<open>Stages\<close> again, now with a record of which ids were taken by requests and
  which were withdrawn by their own call because the message could not be sent. While the callbacks for
  timeouts and final responses of requests are set, each request is being registered, pending,
  completed or withdrawn at every moment. Together with theory \<open>Stages\<close>: each request that could be sent
  is completed at least once and at most twice.
\<close>

subsection \<open>Interleavings with a record\<close>




subsection \<open>The invariant\<close>


text \<open>Where a request can be; the rest says that what carries the id of a request is of that type.\<close>

definition present :: "i32 \<Rightarrow> i32 set \<Rightarrow> crew \<Rightarrow> bool" where
  "present i gone w \<longleftrightarrow> 0 < registering i (workers w) \<or> i \<in> task_id ` set (timer_tasks (shared w)) \<or>
     0 < completions i (called (trace (shared w))) \<or> i \<in> gone"






lemma present_grows:
  assumes "present i gone w" "called (trace t) = called (trace (shared w)) @ cs"
    and "task_id ` set (timer_tasks (shared w)) - {i. 0 < completions i cs} \<subseteq> task_id ` set (timer_tasks t)"
  shows "present i gone (w\<lparr>shared := t, recv_stage := st\<rparr>)"
  using assms by (auto simp: present_def)


subsection \<open>Every step keeps it\<close>








section \<open>The property\<close>



end
