(* ===== verification/Spec2Isabelle.thy ===== *)
theory Spec2Isabelle
  imports Prelude Amqp_Types Amqp_Framing Int_Props Std_Containers Std_Text Logger Client_State
    Connection Topic_Match Publish Topic_Client Timer_Tasks P2p Op_Relation Lock_Order Threads User_Code
    System Shutdown Deadlock Service Call_Table Call_Runs Call_Fate Conversation Topic_Runs
    Causes Stages Stage_Fate
begin

text \<open>
  \<^bold>\<open>A RabbitMQ client library\<close>

  The program is a C++ library between an application and the rabbitmq-c library. One instance of
  class \<open>RabbitMQWrapper\<close> (\<open>include/rabbitmqclient.h\<close>, \<open>src/rabbitmqclient.cpp\<close>) holds a
  connection to a broker and runs three threads; it works in one of three ways, chosen by its exchange
  type: publishing and subscribing by topic, broadcasting, or point-to-point requests, notifications,
  reports and responses, for which \<open>include/rmMidLib.h\<close> and \<open>src/rmMidLib.cpp\<close> give a C interface.
  Messages carry their meta data as AMQP headers. \<open>src/rbloger.cpp\<close> is the logger all parts use. The
  headers \<open>include/amqp.h\<close> and \<open>include/amqp_framing.h\<close> declare the types and functions of rabbitmq-c;
  its code is not part of the repository.

  \<^bold>\<open>How the model is made\<close>

  An operation of the client is a function in the state monad over the record \<open>RabbitMQWrapper\<close> of
  theory \<open>Client_State\<close>, which has the members of the class and one field more, \<open>trace\<close>: the events
  the client has caused, in order. An event is a call of the library with its arguments, a call of an
  application's callback with its arguments, a log entry, the locking or unlocking of a mutex, a
  sleep, the reading of a clock, the start or the join of a thread. What the library, the operating
  system and the build answer is a parameter of every definition that needs it, the record
  \<open>environment\<close>; its answers are functions of the events so far, so that they may change from call to
  call in every way. What is relied on of them is a named hypothesis: \<open>cstring_bytes_doc\<close> (what the
  library's header says of \<open>amqp_cstring_bytes\<close>), \<open>last_reply_doc\<close> (what it says of
  \<open>amqp_get_rpc_reply\<close>) and \<open>binds_accepted\<close> (the broker does what a request to bind or unbind a queue
  asks for; the code looks at no reply to one). A call that can end in an exception or in undefined behaviour has a value of
  \<open>cpp_exception + 'a\<close>. The functions an application registers are a parameter \<open>call\<close> of the operations
  that call them: \<open>silent\<close> only records the call, \<open>reacting\<close> makes calls of the interface, chosen by
  the history, before it returns; the locale \<open>user_code\<close> states which mutexes they may take; it
  is interpreted on the first and proved of the second where timeouts make no request. Numbers are words of their width, strings are lists of characters, \<open>c_str\<close>
  cuts them at the first NUL, \<open>NULL\<close> is \<open>None\<close>. Uninitialised memory is a field of the environment.

  \<^bold>\<open>The theories\<close>

  \<^item> \<open>Prelude\<close>: words, C strings, exceptions, the state monad; lemmas that several theories share.
  \<^item> \<open>Amqp_Types\<close>, \<open>Amqp_Framing\<close>: the types, constants, methods, content properties and calls that
    \<open>amqp.h\<close> and \<open>amqp_framing.h\<close> declare; that method numbers carry their class and name one method.
  \<^item> \<open>Int_Props\<close>: \<open>AmqpTable2IntProps\<close> and \<open>IntProps2AmqpTable\<close>; round trip, exact acceptance, order
    of entries, missing keys.
  \<^item> \<open>Std_Containers\<close>: \<open>std::map\<close>, \<open>std::set\<close> and \<open>std::unordered_map\<close> as far as they are used; the
    locales \<open>container\<close>, \<open>ordered_container\<close> and \<open>key_set\<close> with their laws, interpreted on them.
  \<^item> \<open>Std_Text\<close>: \<open>std::to_string\<close> and \<open>strftime\<close> with the two formats used.
  \<^item> \<open>Logger\<close>: \<open>rbloger.cpp\<close>; suppression of repeated messages, size of the file, rotation.
  \<^item> \<open>Client_State\<close>: the members, events, the environment, the lock discipline of a history, the
    bindings that a history has requested (\<open>session_bindings\<close>) and those that a broker which accepts
    some requests and refuses others has after it (\<open>broker_bindings\<close>).
  \<^item> \<open>Connection\<close>: the instance, \<open>ConnectInit\<close>, \<open>SetupExchgQueChannel\<close>, \<open>ReconnectProc\<close>,
    \<open>rabbitmq_init\<close>, \<open>rabbitmq_free\<close>; bindings after a reconnection, failed and repeated starts.
  \<^item> \<open>Topic_Match\<close>: \<open>MatchRoutingKey\<close>, from the rewriting loops to the language of the regular
    expressions, and its relation to the routing of a topic exchange.
  \<^item> \<open>Publish\<close>: \<open>SendRabbitmqMessage\<close>, \<open>publishTopicMsg\<close>, \<open>publishFanoutMsg\<close>.
  \<^item> \<open>Topic_Client\<close>: subscribing, unsubscribing, \<open>topicHandleMessage\<close>; the callbacks, the recorded
    keys and the bindings at the broker stay in step.
  \<^item> \<open>Timer_Tasks\<close>: the list of pending calls, an instance of the locale \<open>task_registry\<close>, and the body
    of \<open>TimerThreadProc\<close>.
  \<^item> \<open>P2p\<close>: the functions of \<open>rmMidLib.cpp\<close> and \<open>p2pHandleMessage\<close>.
  \<^item> \<open>Op_Relation\<close>: the locales \<open>op_relation\<close>, \<open>emit_relation\<close> and \<open>event_relation\<close>, which lift a
    reflexive and transitive relation on states from the steps of an operation to the operation.
  \<^item> \<open>Lock_Order\<close>: every operation takes mutexes in one order and releases them (\<open>orderly\<close>, an
    interpretation of \<open>event_relation\<close>).
  \<^item> \<open>Threads\<close>: \<open>SendThreadProc\<close>, \<open>ReceiveThreadProc\<close> and \<open>TimerThreadProc\<close>, cut where their loops
    test \<open>stopThreads\<close>; heartbeat, stopping, starting again.
  \<^item> \<open>User_Code\<close>: the calls of the interface, and functions of the application that make such calls.
  \<^item> \<open>System\<close>: the client in service, its threads and its user interleaved step by step (\<open>system_run\<close>),
    a step being a whole call or a whole round of a thread's loop.
  \<^item> \<open>Shutdown\<close>: \<open>rabbitmq_free\<close> cut at its joins, which wait, interleaved with the threads it joins.
  \<^item> \<open>Service\<close>: what every step of a client in service keeps; the locales \<open>service_relation\<close> and
    \<open>service_user\<close> lift it to runs; the type of the instance in its whole lifetime; the names and the
    binding of a point-to-point or broadcast client.
  \<^item> \<open>Deadlock\<close>: several operations interleaved event by event do not deadlock; two of them inside the
    map of topic callbacks at once.
  \<^item> \<open>Call_Table\<close>: an abstract table of pending calls, and the operations of the client that refine its
    steps.
  \<^item> \<open>Call_Runs\<close>: every run of the system refines the table, with functions that call back; each call
    is completed at most once as long as steps are whole; a timeout between the halves of a final
    response; a request made by a function for timeouts.
  \<^item> \<open>Stages\<close>: requests and responses cut at their critical sections, interleaved by \<open>crew_run\<close>: a
    request is completed at most once by the timer and at most once by a response.
  \<^item> \<open>Stage_Fate\<close>: in the same interleavings (\<open>crew_log\<close>) no request is lost.
  \<^item> \<open>Call_Fate\<close>: no request is lost in runs of whole steps: each stays pending, with its data, until its
    answer or its timeout completes it, exactly once, and the timer completes it when its time has come.
  \<^item> \<open>Conversation\<close>: requests, notifications and their answers between two clients, end to end; an
    answer that completes a request of another process.
  \<^item> \<open>Causes\<close>: a network of point-to-point clients: what a client publishes comes from a call of its
    user or functions (locales \<open>honest_user\<close>, \<open>honest_service\<close>), what a callback gets from a message.
  \<^item> \<open>Topic_Runs\<close>: a topic client from its construction on: records, callbacks and bindings agree in
    every run, so a publication that the broker routes to the client reaches one of its callbacks.

  \<^bold>\<open>What the properties show\<close>

  The correctness of the parts and of their composition: headers survive encoding and decoding; a
  request reaches the other side and its answer the callback that waits for it; pending calls follow
  their specification in every interleaving of whole operations, where each request is completed
  exactly once, in time; if the operations interleave section by section, at least once, unless it
  could not be sent, but at most once by a response and at most once by the timer. In every
  interleaving of whole operations the client requests of the broker the bindings it has recorded and
  no others, as long as connecting succeeds; with a broker that accepts them requests find the client
  they name and publications the callbacks of their subscribers; no callback is called without a
  cause in a call that a client of the network made; a reconnection restores the bindings; mutexes
  are taken in one order, so that operations do not deadlock; the log file, as long as it can be read,
  stays bounded, and its rotation loses nothing unless two fall into one second.

  Some properties state where the code does not do what it is meant to, each proved on the definitions
  like the others: the lost heartbeat blocks the receiving thread for ever; a client that was freed does
  nothing when it is initialized again; the receiving thread cannot be stopped while the broker refuses
  it, so freeing the client never ends; a failed start is final; the result of a send is that of an earlier call; a timeout may complete a
  request between the two halves of its answer; a function for timeouts that makes a request of its own
  blocks the timer thread; an answer completes whichever request has its id, even that of another
  process of the module; a subscription writes the map of topic callbacks while a message is
  dispatched from it; a key subscribed in two ways loses its callback; a trailing hash needs a word.

  \<^bold>\<open>Bounds and termination\<close>

  The definitions are total; the loops of the code recurse on lists, on the text left to rewrite
  (\<open>replace_loop\<close>, whose termination is proved from the position that moves behind the replacement) or
  on the size of a regular expression and its input. No definition has fuel. The infinite loops of the
  threads appear as their rounds, with \<open>send_rounds\<close> and \<open>recv_steps\<close> for a number of rounds and
  \<open>system_run\<close> for all schedules. Ids of calls are 32 bit words: that each is completed at most once is
  proved for runs that take at most \<open>2 ^ 32\<close> of them. The code's counter is a signed \<open>int\<close> whose
  increment is undefined from \<open>2 ^ 31\<close> on; the model lets it wrap, so up to that number nothing is
  assumed of it, and beyond it that it wraps. The lost heartbeat needs four checks, the first
  number above \<open>MAX_HEARTBEAT_ERR\<close>.

  \<^bold>\<open>Not modelled\<close>

  The code of rabbitmq-c, of which the repository has declarations only, \<open>amqp_tcp_socket.h\<close> among
  them; \<open>std::regex\<close> on expressions that \<open>MatchRoutingKey\<close> makes from patterns with other special
  characters, which is the parameter \<open>other_regex\<close>; the tests, build files and scripts. What a data
  race on a member of the class would do is not modelled: an operation reads and writes the members as
  one step, and theory \<open>Deadlock\<close> shows only that two operations can be inside at once. Bindings
  are those that requests make: that a broker drops one of its own accord is not modelled. A function of
  the application may make the calls of \<open>api_call\<close>; that it frees or initializes the client it is
  called by is not modelled. A pointer that \<open>p2pGetTimerTaskInfo\<close> returns is modelled by the
  task it points to at that time. The threads of theory \<open>System\<close> interleave between rounds and calls,
  not inside them, so a property of its runs says nothing of operations that overlap; what may happen
  then is stated where it matters (theories \<open>Deadlock\<close>, \<open>Stages\<close> and \<open>Stage_Fate\<close> and the end of
  theory \<open>Call_Runs\<close>). The events \<open>Joined\<close> in the history of \<open>rabbitmq_free\<close> do not wait; theory
  \<open>Shutdown\<close> models the waiting.
\<close>

end
